(* ===== verification/Prelude.thy ===== *)
theory Prelude
  imports
    Main
    "HOL-Library.Word"
    "HOL-Library.Char_ord"
    "HOL-Library.List_Lexorder"
    "HOL-Library.Product_Lexorder"
    "HOL-Library.Multiset"
begin

text \<open>
  Shared vocabulary of the development.

  \<^item> Go's three ways to leave a function, as one result type: a value, an error value, a panic.
  \<^item> The state monad in which the keeper runs. A Go method mutates the store through its
    context and may then return an error, so the state of a failed run is kept: undoing it is
    the caller's business, not the method's.
  \<^item> Ordered maps, the model of one key prefix of the module's KV store (and of a Go map whose
    keys the code sorts before it uses them): lookup, insertion, iteration in key order.
    The interface is the locale \<open>kv_store\<close>; the ordered association list is its implementation.
  \<^item> Sums over lists and over ordered maps, the arithmetic of every accounting lemma.
\<close>

named_theorems monad_simps \<open>evaluation of the keeper monad\<close>
named_theorems store_simps \<open>reading the store after a write\<close>

section \<open>Results\<close>

datatype ('e, 'a) result = Ok 'a | Err 'e | Panic

fun is_Ok :: "('e, 'a) result \<Rightarrow> bool" where
  "is_Ok (Ok x) = True"
| "is_Ok (Err e) = False"
| "is_Ok Panic = False"

fun bindR :: "('e, 'a) result \<Rightarrow> ('a \<Rightarrow> ('e, 'b) result) \<Rightarrow> ('e, 'b) result" where
  "bindR (Ok x) f = f x"
| "bindR (Err e) f = Err e"
| "bindR Panic f = Panic"

text \<open>A library call that panics where it has no value.\<close>

fun orPanic :: "'a option \<Rightarrow> ('e, 'a) result" where
  "orPanic (Some x) = Ok x"
| "orPanic None = Panic"

text \<open>A \<open>for\<close> loop over a slice whose body updates an accumulator and may leave the function.\<close>

fun foldR :: "('x \<Rightarrow> 'a \<Rightarrow> ('e, 'a) result) \<Rightarrow> 'x list \<Rightarrow> 'a \<Rightarrow> ('e, 'a) result" where
  "foldR f [] a = Ok a"
| "foldR f (x # xs) a = bindR (f x a) (foldR f xs)"

lemma bindR_Ok_iff: "bindR m f = Ok y \<longleftrightarrow> (\<exists>x. m = Ok x \<and> f x = Ok y)"
  by (cases m) auto

lemma bindR_Err_iff: "bindR m f = Err e \<longleftrightarrow> m = Err e \<or> (\<exists>x. m = Ok x \<and> f x = Err e)"
  by (cases m) auto

lemma orPanic_Ok_iff [simp]: "orPanic m = Ok x \<longleftrightarrow> m = Some x"
  by (cases m) auto

lemma orPanic_not_Err [simp]: "orPanic m \<noteq> Err e"
  by (cases m) auto

lemma foldR_append: "foldR f (xs @ ys) a = bindR (foldR f xs a) (foldR f ys)"
proof (induction xs arbitrary: a)
  case (Cons x xs)
  then show ?case by (cases "f x a") auto
qed simp

section \<open>The keeper monad\<close>

type_synonym ('s, 'e, 'a) comp = "'s \<Rightarrow> ('e, 'a) result \<times> 's"

definition returnM :: "'a \<Rightarrow> ('s, 'e, 'a) comp" where
  "returnM x = (\<lambda>s. (Ok x, s))"

definition raiseM :: "'e \<Rightarrow> ('s, 'e, 'a) comp" where
  "raiseM e = (\<lambda>s. (Err e, s))"

definition panicM :: "('s, 'e, 'a) comp" where
  "panicM = (\<lambda>s. (Panic, s))"

definition getsM :: "('s \<Rightarrow> 'a) \<Rightarrow> ('s, 'e, 'a) comp" where
  "getsM f = (\<lambda>s. (Ok (f s), s))"

definition modifyM :: "('s \<Rightarrow> 's) \<Rightarrow> ('s, 'e, unit) comp" where
  "modifyM f = (\<lambda>s. (Ok (), f s))"

definition liftR :: "('e, 'a) result \<Rightarrow> ('s, 'e, 'a) comp" where
  "liftR r = (\<lambda>s. (r, s))"

definition bindM ::
    "('s, 'e, 'a) comp \<Rightarrow> ('a \<Rightarrow> ('s, 'e, 'b) comp) \<Rightarrow> ('s, 'e, 'b) comp" where
  "bindM m f = (\<lambda>s. case m s of
      (Ok x, t) \<Rightarrow> f x t
    | (Err e, t) \<Rightarrow> (Err e, t)
    | (Panic, t) \<Rightarrow> (Panic, t))"

text \<open>\<open>if cond \{ return err \}\<close>\<close>

definition guardM :: "bool \<Rightarrow> 'e \<Rightarrow> ('s, 'e, unit) comp" where
  "guardM b e = (if b then raiseM e else returnM ())"

text \<open>\<open>if err != nil \{ panic(err) \}\<close>: an error of the callee becomes a panic of the caller.\<close>

definition mustM :: "('s, 'e, 'a) comp \<Rightarrow> ('s, 'e, 'a) comp" where
  "mustM m = (\<lambda>s. case m s of
      (Ok x, t) \<Rightarrow> (Ok x, t)
    | (Err e, t) \<Rightarrow> (Panic, t)
    | (Panic, t) \<Rightarrow> (Panic, t))"

fun foreachM :: "('x \<Rightarrow> ('s, 'e, unit) comp) \<Rightarrow> 'x list \<Rightarrow> ('s, 'e, unit) comp" where
  "foreachM f [] = returnM ()"
| "foreachM f (x # xs) = bindM (f x) (\<lambda>_. foreachM f xs)"

lemma returnM_run [monad_simps]: "returnM x s = (Ok x, s)"
  by (simp add: returnM_def)

lemma raiseM_run [monad_simps]: "raiseM e s = (Err e, s)"
  by (simp add: raiseM_def)

lemma panicM_run [monad_simps]: "panicM s = (Panic, s)"
  by (simp add: panicM_def)

lemma getsM_run [monad_simps]: "getsM f s = (Ok (f s), s)"
  by (simp add: getsM_def)

lemma modifyM_run [monad_simps]: "modifyM f s = (Ok (), f s)"
  by (simp add: modifyM_def)

lemma liftR_run [monad_simps]: "liftR r s = (r, s)"
  by (simp add: liftR_def)

lemma guardM_run [monad_simps]: "guardM b e s = (if b then (Err e, s) else (Ok (), s))"
  by (simp add: guardM_def returnM_def raiseM_def)

lemma bindM_run [monad_simps]:
  "m s = (Ok x, t) \<Longrightarrow> bindM m f s = f x t"
  "m s = (Err e, t) \<Longrightarrow> bindM m f s = (Err e, t)"
  "m s = (Panic, t) \<Longrightarrow> bindM m f s = (Panic, t)"
  by (simp_all add: bindM_def)

text \<open>A successful run of a sequence is a successful run of each part: the decomposition every
  preservation proof starts with.\<close>

lemma bindM_Ok_iff:
  "bindM m f s = (Ok y, u) \<longleftrightarrow> (\<exists>x t. m s = (Ok x, t) \<and> f x t = (Ok y, u))"
proof (cases "m s")
  case (Pair r t)
  then show ?thesis by (cases r) (auto simp: bindM_def)
qed

lemma mustM_Ok_iff: "mustM m s = (Ok y, u) \<longleftrightarrow> m s = (Ok y, u)"
proof (cases "m s")
  case (Pair r t)
  then show ?thesis by (cases r) (auto simp: mustM_def)
qed

lemma mustM_run [monad_simps]: "m s = (Ok x, t) \<Longrightarrow> mustM m s = (Ok x, t)"
  by (simp add: mustM_def)

lemma guardM_Ok_iff: "guardM b e s = (Ok x, t) \<longleftrightarrow> \<not> b \<and> t = s"
  by (auto simp: guardM_run)

lemma returnM_Ok_iff: "returnM x s = (Ok y, t) \<longleftrightarrow> y = x \<and> t = s"
  by (auto simp: returnM_def)

lemma getsM_Ok_iff: "getsM f s = (Ok y, t) \<longleftrightarrow> y = f s \<and> t = s"
  by (auto simp: getsM_def)

lemma modifyM_Ok_iff: "modifyM f s = (Ok y, t) \<longleftrightarrow> t = f s"
  by (auto simp: modifyM_def)

lemma liftR_Ok_iff: "liftR r s = (Ok y, t) \<longleftrightarrow> r = Ok y \<and> t = s"
  by (auto simp: liftR_def)

lemma raiseM_Ok_iff: "raiseM e s = (Ok y, t) \<longleftrightarrow> False"
  by (simp add: raiseM_def)

lemma panicM_Ok_iff: "panicM s = (Ok y, t) \<longleftrightarrow> False"
  by (simp add: panicM_def)

lemmas Ok_iffs = bindM_Ok_iff mustM_Ok_iff guardM_Ok_iff returnM_Ok_iff getsM_Ok_iff
  modifyM_Ok_iff liftR_Ok_iff raiseM_Ok_iff panicM_Ok_iff

lemma foreachM_map: "foreachM f (map g xs) = foreachM (\<lambda>x. f (g x)) xs"
  by (induction xs) simp_all

text \<open>A property of the state that one round of a loop keeps is kept by the loop.\<close>

lemma foreachM_invariant:
  assumes "foreachM f xs s = (Ok u, t)" and "P s"
    and "\<And>x s t u. x \<in> set xs \<Longrightarrow> P s \<Longrightarrow> f x s = (Ok u, t) \<Longrightarrow> P t"
  shows "P t"
  using assms
proof (induction xs arbitrary: s)
  case Nil
  then show ?case by (simp add: returnM_Ok_iff)
next
  case (Cons x xs)
  from Cons.prems(1) obtain v w
    where "f x s = (Ok v, w)" and rest: "foreachM f xs w = (Ok u, t)"
    by (auto simp: bindM_Ok_iff)
  with Cons.prems have "P w" by (metis list.set_intros(1))
  with rest Cons.IH Cons.prems(3) show ?case by (metis list.set_intros(2))
qed

section \<open>Ordered maps\<close>

type_synonym ('k, 'v) omap = "('k \<times> 'v) list"

abbreviation oget :: "('k, 'v) omap \<Rightarrow> 'k \<Rightarrow> 'v option" where
  "oget m \<equiv> map_of m"

definition owf :: "('k::linorder, 'v) omap \<Rightarrow> bool" where
  "owf m \<longleftrightarrow> sorted_wrt (<) (map fst m)"

fun oset :: "('k::linorder) \<Rightarrow> 'v \<Rightarrow> ('k, 'v) omap \<Rightarrow> ('k, 'v) omap" where
  "oset k v [] = [(k, v)]"
| "oset k v (e # m) =
     (if fst e = k then (k, v) # m else if k < fst e then (k, v) # e # m else e # oset k v m)"

text \<open>Iteration over the keys with a given prefix, in key order.\<close>

definition oiter :: "('k \<Rightarrow> bool) \<Rightarrow> ('k, 'v) omap \<Rightarrow> 'v list" where
  "oiter P m = map snd (filter (\<lambda>e. P (fst e)) m)"

lemma oget_oset [simp, store_simps]: "oget (oset k v m) = (oget m)(k \<mapsto> v)"
  by (induction m) (auto simp: fun_eq_iff)

lemma keys_oset [simp]: "fst ` set (oset k v m) = insert k (fst ` set m)"
  by (induction m) auto

lemma set_oset_subset: "set (oset k v m) \<subseteq> insert (k, v) (set m)"
  by (induction m) auto

lemma owf_Nil [simp]: "owf []"
  by (simp add: owf_def)

lemma owf_Cons: "owf (e # m) \<longleftrightarrow> (\<forall>k \<in> fst ` set m. fst e < k) \<and> owf m"
  by (auto simp: owf_def)

lemma owf_oset [simp]: "owf m \<Longrightarrow> owf (oset k v m)"
  by (induction m) (auto simp: owf_Cons)

lemma owf_distinct: "owf m \<Longrightarrow> distinct (map fst m)"
  by (simp add: owf_def strict_sorted_iff)

lemma oget_mem: "owf m \<Longrightarrow> (k, v) \<in> set m \<longleftrightarrow> oget m k = Some v"
  by (simp add: owf_distinct)

lemma oiter_Nil [simp]: "oiter P [] = []"
  by (simp add: oiter_def)

lemma oiter_Cons [simp]: "oiter P (e # m) = (if P (fst e) then snd e # oiter P m else oiter P m)"
  by (simp add: oiter_def)

lemma oiter_oset_other [simp]: "\<not> P k \<Longrightarrow> oiter P (oset k v m) = oiter P m"
  by (induction m) auto

lemma set_oiter: "owf m \<Longrightarrow> x \<in> set (oiter P m) \<longleftrightarrow> (\<exists>k. P k \<and> oget m k = Some x)"
  by (auto simp: oiter_def image_iff simp flip: oget_mem)

lemma oget_None_keys: "oget m k = None \<longleftrightarrow> k \<notin> fst ` set m"
  by (simp add: map_of_eq_None_iff)

text \<open>The sum of a quantity over an iteration, after a write: the old entry's share leaves, the
  new entry's share enters.\<close>

lemma oiter_sum_oset:
  fixes f :: "'v \<Rightarrow> int"
  assumes "owf m" and "P k"
  shows "sum_list (map f (oiter P (oset k v m))) =
    sum_list (map f (oiter P m)) + f v - (case oget m k of None \<Rightarrow> 0 | Some w \<Rightarrow> f w)"
  using assms
proof (induction m)
  case (Cons e m)
  then have fresh: "k \<le> fst e \<Longrightarrow> oget m k = None"
    by (auto simp: owf_Cons oget_None_keys)
  from Cons show ?case
    by (cases e) (auto simp: owf_Cons fresh)
qed simp

text \<open>What a client of the store relies on.\<close>

locale kv_store =
  fixes get :: "'m \<Rightarrow> 'k \<Rightarrow> 'v option"
    and put :: "'k \<Rightarrow> 'v \<Rightarrow> 'm \<Rightarrow> 'm"
    and iter :: "('k \<Rightarrow> bool) \<Rightarrow> 'm \<Rightarrow> 'v list"
    and wf :: "'m \<Rightarrow> bool"
  assumes get_put: "get (put k v m) k' = (if k' = k then Some v else get m k')"
    and wf_put: "wf m \<Longrightarrow> wf (put k v m)"
    and iter_mem: "wf m \<Longrightarrow> x \<in> set (iter P m) \<longleftrightarrow> (\<exists>k. P k \<and> get m k = Some x)"
begin

lemma get_put_same: "get (put k v m) k = Some v"
  by (simp add: get_put)

lemma get_put_other: "k' \<noteq> k \<Longrightarrow> get (put k v m) k' = get m k'"
  by (simp add: get_put)

text \<open>A property of all stored values survives a write of a value that has it.\<close>

lemma iter_all_put:
  assumes "wf m" and "\<forall>x \<in> set (iter P m). Q x" and "P k \<Longrightarrow> Q v"
  shows "\<forall>x \<in> set (iter P (put k v m)). Q x"
  using assms by (auto simp: iter_mem wf_put get_put split: if_splits)

lemma iter_put_mem: "wf m \<Longrightarrow> P k \<Longrightarrow> v \<in> set (iter P (put k v m))"
  using get_put_same by (auto simp: iter_mem wf_put)

end

interpretation omap: kv_store oget oset oiter owf
  by unfold_locales (auto simp: set_oiter)

section \<open>Sums over lists\<close>

lemma sum_list_map_filter_split:
  fixes f :: "'a \<Rightarrow> int"
  shows "sum_list (map f xs) =
    sum_list (map f (filter P xs)) + sum_list (map f (filter (\<lambda>x. \<not> P x) xs))"
  by (induction xs) auto

lemma sum_list_nonneg_int: "(\<And>x. x \<in> set xs \<Longrightarrow> 0 \<le> f x) \<Longrightarrow> (0::int) \<le> sum_list (map f xs)"
  by (induction xs) auto

lemma sum_list_mono_int:
  "(\<And>x. x \<in> set xs \<Longrightarrow> f x \<le> (g x :: int)) \<Longrightarrow> sum_list (map f xs) \<le> sum_list (map g xs)"
  by (induction xs) (auto intro: add_mono)

lemma sum_list_perm_int:
  fixes f :: "'a \<Rightarrow> int"
  assumes "mset xs = mset ys"
  shows "sum_list (map f xs) = sum_list (map f ys)"
  by (metis assms mset_map sum_mset_sum_list)

end
