(* ===== verification/SDK.thy ===== *)
theory SDK
  imports Prelude
begin

text \<open>
  The interface to the code the module is built on and that is not part of the repository: the
  Cosmos SDK's numbers, coins and addresses.

  A value of the record type \<open>sdk\<close> collects the library functions the module calls; every
  definition of the model that calls one takes such a value as an argument. What the module relies
  on is stated by three locales, one per group of functions, from the library's documentation:
  \<open>dec_laws\<close> (18-digit fixed point numbers), \<open>coin_laws\<close> (coins and coin sets) and
  \<open>address_laws\<close> (the bech32 text form of an address and derived module addresses). The laws of
  the arithmetic describe runs in which no number exceeds the library's bit limits.

  A call that panics in some cases has an option as its result, with None for the panic.
\<close>

section \<open>Data of the library\<close>

type_synonym byte = "8 word"
type_synonym uint64 = "64 word"
type_synonym uint32 = "32 word"
type_synonym accAddress = "byte list"
type_synonym denom = string

text \<open>\<open>time.Time\<close> in UTC: nanoseconds since 1970-01-01T00:00:00Z.\<close>

type_synonym time = int

text \<open>\<open>sdk.Dec\<close>: a decimal number, held as the integer mantissa of 18 fractional digits.\<close>

datatype dec = Dec (mant: int)

instantiation dec :: linorder
begin

definition less_eq_dec :: "dec \<Rightarrow> dec \<Rightarrow> bool" where
  "less_eq_dec x y \<longleftrightarrow> mant x \<le> mant y"

definition less_dec :: "dec \<Rightarrow> dec \<Rightarrow> bool" where
  "less_dec x y \<longleftrightarrow> mant x < mant y"

instance
  by intro_classes (auto simp: less_eq_dec_def less_dec_def dec.expand)

end

lemma dec_less_simps [simp]: "Dec a < Dec b \<longleftrightarrow> a < b" "Dec a \<le> Dec b \<longleftrightarrow> a \<le> b"
  by (auto simp: less_eq_dec_def less_dec_def)

definition DecIsPositive :: "dec \<Rightarrow> bool" where
  "DecIsPositive d \<longleftrightarrow> 0 < mant d"

definition decUnit :: int where
  "decUnit = 10 ^ 18"

lemma decUnit_pos [simp]: "0 < decUnit" "0 \<le> decUnit" "decUnit \<noteq> 0"
  by (simp_all add: decUnit_def)

datatype coin = Coin (Denom: denom) (Amount: int)

type_synonym coins = "coin list"

section \<open>The functions the module calls\<close>

record sdk_math =
  ZeroDec :: dec
  OneDec :: dec
  NewDecFromInt :: "int \<Rightarrow> dec"
  DecAdd :: "dec \<Rightarrow> dec \<Rightarrow> dec"
  DecSub :: "dec \<Rightarrow> dec \<Rightarrow> dec"
  DecMul :: "dec \<Rightarrow> dec \<Rightarrow> dec"
  DecMulInt :: "dec \<Rightarrow> int \<Rightarrow> dec"
  DecMulTruncate :: "dec \<Rightarrow> dec \<Rightarrow> dec"
  DecQuo :: "dec \<Rightarrow> dec \<Rightarrow> dec"
  DecQuoTruncate :: "dec \<Rightarrow> dec \<Rightarrow> dec"
  DecCeil :: "dec \<Rightarrow> dec"
  DecTruncateInt :: "dec \<Rightarrow> int"
  DecString :: "dec \<Rightarrow> string"
  MustNewDecFromStr :: "string \<Rightarrow> dec option"
  MinInt :: "int option \<Rightarrow> int option \<Rightarrow> int option"

record sdk = sdk_math +
  ValidateDenom :: "denom \<Rightarrow> bool"
  NewCoin :: "denom \<Rightarrow> int \<Rightarrow> coin option"
  CoinValidate :: "coin \<Rightarrow> bool"
  CoinAdd :: "coin \<Rightarrow> coin \<Rightarrow> coin option"
  CoinSub :: "coin \<Rightarrow> coin \<Rightarrow> coin option"
  CoinSubAmount :: "coin \<Rightarrow> int \<Rightarrow> coin option"
  CoinIsLT :: "coin \<Rightarrow> coin \<Rightarrow> bool option"
  CoinIsGTE :: "coin \<Rightarrow> coin \<Rightarrow> bool option"
  NewCoins :: "coin list \<Rightarrow> coins option"
  CoinsValidate :: "coins \<Rightarrow> bool"
  AccAddressFromBech32 :: "string \<Rightarrow> accAddress option"
  AccAddressString :: "accAddress \<Rightarrow> string"
  address_Module :: "string \<Rightarrow> string \<Rightarrow> accAddress"
  crypto_AddressHash :: "string \<Rightarrow> accAddress"

section \<open>What the module relies on\<close>

text \<open>Fixed point numbers. \<open>Mul\<close> and \<open>Quo\<close> round to the nearest number (the law says so by a
  distance of half a unit), the \<open>Truncate\<close> forms cut off, \<open>Ceil\<close> gives the next whole number.
  The text form of a number reads back as the number.\<close>

locale dec_laws =
  fixes S :: "'a sdk_math_scheme"
  assumes ZeroDec_law: "ZeroDec S = Dec 0"
    and OneDec_law: "OneDec S = Dec decUnit"
    and NewDecFromInt_law: "NewDecFromInt S n = Dec (n * decUnit)"
    and DecAdd_law: "DecAdd S x y = Dec (mant x + mant y)"
    and DecSub_law: "DecSub S x y = Dec (mant x - mant y)"
    and DecMul_law: "2 * \<bar>mant (DecMul S x y) * decUnit - mant x * mant y\<bar> \<le> decUnit"
    and DecMulInt_law: "DecMulInt S x n = Dec (mant x * n)"
    and DecMulTruncate_law:
      "0 \<le> mant x \<Longrightarrow> 0 \<le> mant y \<Longrightarrow> DecMulTruncate S x y = Dec (mant x * mant y div decUnit)"
    and DecQuo_law:
      "0 \<le> mant x \<Longrightarrow> 0 < mant y \<Longrightarrow>
        2 * \<bar>mant (DecQuo S x y) * mant y - mant x * decUnit\<bar> \<le> mant y"
    and DecQuoTruncate_law:
      "0 \<le> mant x \<Longrightarrow> 0 < mant y \<Longrightarrow> DecQuoTruncate S x y = Dec (mant x * decUnit div mant y)"
    and DecCeil_law: "DecCeil S x = Dec (- (- mant x div decUnit) * decUnit)"
    and DecTruncateInt_law: "0 \<le> mant x \<Longrightarrow> DecTruncateInt S x = mant x div decUnit"
    and DecString_law: "MustNewDecFromStr S (DecString S x) = Some x"
    and MinInt_law: "MinInt S (Some m) (Some n) = Some (min m n)"

text \<open>Coins: the constructor and the arithmetic refuse negative amounts and mixed
  denominations; a set of one coin drops a zero amount.\<close>

locale coin_laws =
  fixes S :: "'a sdk_scheme"
  assumes CoinValidate_law: "CoinValidate S c \<longleftrightarrow> ValidateDenom S (Denom c) \<and> 0 \<le> Amount c"
    and NewCoin_law:
      "NewCoin S d n = (if ValidateDenom S d \<and> 0 \<le> n then Some (Coin d n) else None)"
    and CoinAdd_law:
      "CoinAdd S c c' =
        (if Denom c = Denom c' then Some (Coin (Denom c) (Amount c + Amount c')) else None)"
    and CoinSub_law:
      "CoinSub S c c' =
        (if Denom c = Denom c' \<and> 0 \<le> Amount c - Amount c'
         then Some (Coin (Denom c) (Amount c - Amount c')) else None)"
    and CoinSubAmount_law:
      "CoinSubAmount S c n =
        (if 0 \<le> Amount c - n then Some (Coin (Denom c) (Amount c - n)) else None)"
    and CoinIsLT_law:
      "CoinIsLT S c c' = (if Denom c = Denom c' then Some (Amount c < Amount c') else None)"
    and CoinIsGTE_law:
      "CoinIsGTE S c c' = (if Denom c = Denom c' then Some (Amount c' \<le> Amount c) else None)"
    and NewCoins_law:
      "CoinValidate S c \<Longrightarrow> NewCoins S [c] = Some (if Amount c = 0 then [] else [c])"

text \<open>Addresses: the text form of an address reads back as the address, and \<open>address.Module\<close>
  gives different usable addresses for different names of a set \<open>N\<close> of names of interest.\<close>

definition usableAddress :: "accAddress \<Rightarrow> bool" where
  "usableAddress a \<longleftrightarrow> a \<noteq> [] \<and> length a \<le> 255"

locale address_laws =
  fixes S :: "'a sdk_scheme" and module :: string and N :: "string set"
  assumes bech32_roundtrip:
      "usableAddress a \<Longrightarrow> AccAddressFromBech32 S (AccAddressString S a) = Some a"
    and bech32_usable: "AccAddressFromBech32 S t = Some a \<Longrightarrow> usableAddress a"
    and Module_usable: "n \<in> N \<Longrightarrow> usableAddress (address_Module S module n)"
    and Module_inj: "inj_on (address_Module S module) N"

section \<open>Consequences of the laws\<close>

lemma ceil_div_props:
  fixes a u :: int
  assumes "0 < u"
  shows "a \<le> - (- a div u) * u" and "- (- a div u) * u < a + u"
proof -
  have "u * (- a div u) + - a mod u = - a" by (rule mult_div_mod_eq)
  moreover have "0 \<le> - a mod u" and "- a mod u < u" using assms by simp_all
  moreover have "- (- a div u) * u = - (u * (- a div u))" by (simp add: mult.commute)
  ultimately show "a \<le> - (- a div u) * u" and "- (- a div u) * u < a + u"
    by linarith+
qed

lemma ceil_div_least:
  fixes a u n :: int
  assumes "0 < u" and "a \<le> n * u"
  shows "- (- a div u) \<le> n"
proof -
  have "- (- a div u) * u < (n + 1) * u"
    using ceil_div_props(2) [OF assms(1), of a] assms(2) by (simp add: algebra_simps)
  then show ?thesis using assms(1) by (metis mult_less_cancel_right_pos zless_add1_eq order_le_less)
qed

lemma ceil_div_mono:
  fixes a b u :: int
  assumes "0 < u" and "a \<le> b"
  shows "- (- a div u) \<le> - (- b div u)"
  using assms by (simp add: zdiv_mono1)

context dec_laws
begin

lemmas dec_simps = ZeroDec_law OneDec_law NewDecFromInt_law DecAdd_law DecSub_law DecMulInt_law

text \<open>A product with a whole number is exact.\<close>

lemma DecMul_whole: "DecMul S (Dec (n * decUnit)) y = Dec (n * mant y)"
proof -
  have "2 * \<bar>(mant (DecMul S (Dec (n * decUnit)) y) - n * mant y) * decUnit\<bar> \<le> decUnit"
    using DecMul_law [of "Dec (n * decUnit)" y] by (simp add: algebra_simps)
  then have "2 * \<bar>mant (DecMul S (Dec (n * decUnit)) y) - n * mant y\<bar> \<le> 1"
    by (simp add: abs_mult)
  then have "mant (DecMul S (Dec (n * decUnit)) y) = n * mant y"
    by arith
  then show ?thesis by (metis dec.collapse)
qed

lemma TruncateInt_Ceil:
  assumes "0 \<le> mant x"
  shows "DecTruncateInt S (DecCeil S x) = - (- mant x div decUnit)"
proof -
  have "0 \<le> - (- mant x div decUnit)"
    using ceil_div_mono [OF decUnit_pos(1) assms] by simp
  then have "0 \<le> mant (DecCeil S x)" by (simp add: DecCeil_law mult_le_0_iff)
  then show ?thesis by (simp add: DecTruncateInt_law) (simp add: DecCeil_law flip: mult_minus_left)
qed

text \<open>The whole part of a truncated quotient is the whole part of the exact quotient.\<close>

lemma TruncateInt_QuoTruncate:
  assumes "0 \<le> n" and "0 < mant p"
  shows "DecTruncateInt S (DecQuoTruncate S (NewDecFromInt S n) p) = n * decUnit div mant p"
proof -
  have "n * decUnit * decUnit div mant p div decUnit = n * decUnit * decUnit div (mant p * decUnit)"
    by (rule zdiv_zmult2_eq [symmetric]) simp
  also have "\<dots> = n * decUnit * decUnit div decUnit div mant p"
    using assms(2) by (subst mult.commute [of "mant p"]) (rule zdiv_zmult2_eq, simp)
  finally have "n * decUnit * decUnit div mant p div decUnit = n * decUnit div mant p" by simp
  moreover have "0 \<le> n * decUnit * decUnit div mant p"
    using assms by (simp add: pos_imp_zdiv_nonneg_iff)
  ultimately show ?thesis
    using assms by (simp add: NewDecFromInt_law DecQuoTruncate_law DecTruncateInt_law)
qed

lemma DecString_inj: "DecString S x = DecString S y \<longleftrightarrow> x = y"
  by (metis DecString_law option.inject)

end

context coin_laws
begin

lemma NewCoin_Some: "NewCoin S d n = Some c \<longleftrightarrow> ValidateDenom S d \<and> 0 \<le> n \<and> c = Coin d n"
  by (auto simp: NewCoin_law)

end

end
