(* ===== verification/Types.thy ===== *)
theory Types
  imports SDK
begin

text \<open>
  The data of the module (\<^verbatim>\<open>x/fundraising/types\<close>): errors, enumerations, auctions, bids, allowed
  bidders, vesting schedules and queues, parameters, with their constructors, accessors and
  validation, and the derivation of the three reserve addresses of an auction.

  A field that holds an address holds its text form, as in the source; an accessor that decodes it
  has an option as result, None where the source panics.
  The lemmas at the end show that the reserve addresses of all auctions are pairwise different and
  what a validated vesting schedule guarantees.
\<close>

section \<open>Errors\<close>

text \<open>The module's registered errors, the SDK's errors the module wraps, errors made with
  \<open>fmt.Errorf\<close>, and errors of the keepers of other modules.\<close>

datatype error =
    ErrInvalidAuctionType
  | ErrInvalidStartPrice
  | ErrInvalidVestingSchedules
  | ErrInvalidAuctionStatus
  | ErrInvalidMaxBidAmount
  | ErrIncorrectAuctionType
  | ErrIncorrectCoinDenom
  | ErrEmptyAllowedBidders
  | ErrNotAllowedBidder
  | ErrOverMaxBidAmountLimit
  | ErrInsufficientRemainingAmount
  | ErrInsufficientMinBidPrice
  | ErrInvalidRequest
  | ErrNotFound
  | ErrUnauthorized
  | ErrInvalidAddress
  | ErrInvalidCoins
  | ErrBech32
  | ErrUnknownRequest
  | ErrInvalidType
  | ErrFmt
  | ErrExternal nat

type_synonym 'a res = "(error, 'a) result"

definition check :: "bool \<Rightarrow> error \<Rightarrow> unit res" where
  "check b e = (if b then Err e else Ok ())"

lemma check_Ok_iff [simp]: "check b e = Ok u \<longleftrightarrow> \<not> b"
  by (simp add: check_def)

section \<open>Enumerations\<close>

datatype AuctionType = AuctionTypeNil | AuctionTypeFixedPrice | AuctionTypeBatch

datatype AuctionStatus =
    AuctionStatusNil
  | AuctionStatusStandBy
  | AuctionStatusStarted
  | AuctionStatusVesting
  | AuctionStatusFinished
  | AuctionStatusCancelled

datatype BidType = BidTypeNil | BidTypeFixedPrice | BidTypeBatchWorth | BidTypeBatchMany

datatype AddressType = AddressType32Bytes | AddressType20Bytes

fun AuctionType_String :: "AuctionType \<Rightarrow> string" where
  "AuctionType_String AuctionTypeNil = ''AUCTION_TYPE_UNSPECIFIED''"
| "AuctionType_String AuctionTypeFixedPrice = ''AUCTION_TYPE_FIXED_PRICE''"
| "AuctionType_String AuctionTypeBatch = ''AUCTION_TYPE_BATCH''"

fun AuctionStatus_String :: "AuctionStatus \<Rightarrow> string" where
  "AuctionStatus_String AuctionStatusNil = ''AUCTION_STATUS_UNSPECIFIED''"
| "AuctionStatus_String AuctionStatusStandBy = ''AUCTION_STATUS_STANDBY''"
| "AuctionStatus_String AuctionStatusStarted = ''AUCTION_STATUS_STARTED''"
| "AuctionStatus_String AuctionStatusVesting = ''AUCTION_STATUS_VESTING''"
| "AuctionStatus_String AuctionStatusFinished = ''AUCTION_STATUS_FINISHED''"
| "AuctionStatus_String AuctionStatusCancelled = ''AUCTION_STATUS_CANCELLED''"

section \<open>Structures\<close>

record VestingSchedule =
  vs_ReleaseTime :: time
  vs_Weight :: dec

record VestingQueue =
  vq_AuctionId :: uint64
  vq_Auctioneer :: string
  vq_PayingCoin :: coin
  vq_ReleaseTime :: time
  vq_Released :: bool

record BaseAuction =
  ba_Id :: uint64
  ba_Type :: AuctionType
  ba_Auctioneer :: string
  ba_SellingReserveAddress :: string
  ba_PayingReserveAddress :: string
  ba_StartPrice :: dec
  ba_SellingCoin :: coin
  ba_PayingCoinDenom :: denom
  ba_VestingReserveAddress :: string
  ba_VestingSchedules :: "VestingSchedule list"
  ba_StartTime :: time
  ba_EndTimes :: "time list"
  ba_Status :: AuctionStatus

text \<open>The two auction types embed the base auction; together they are the implementations of the
  interface \<open>AuctionI\<close>. The dynamic type of a value and its field \<open>Type\<close> are two things.\<close>

datatype AuctionI =
    FixedPriceAuction (base: BaseAuction) (RemainingSellingCoin: coin)
  | BatchAuction (base: BaseAuction) (MinBidPrice: dec) (MatchedPrice: dec)
      (MaxExtendedRound: uint32) (ExtendedRoundRate: dec)

text \<open>\<open>MaxBidAmount\<close> is an \<open>sdk.Int\<close> that may be nil.\<close>

record AllowedBidder =
  ab_Bidder :: string
  ab_MaxBidAmount :: "int option"

record Bid =
  bid_AuctionId :: uint64
  bid_Bidder :: string
  bid_Id :: uint64
  bid_Type :: BidType
  bid_Price :: dec
  bid_Coin :: coin
  bid_IsMatched :: bool

record Params =
  AuctionCreationFee :: coins
  PlaceBidFee :: coins
  ExtendedPeriod :: uint32

section \<open>Derived addresses\<close>

text \<open>\<open>fmt.Sprint\<close> on an unsigned number: its decimal digits.\<close>

definition digit :: "nat \<Rightarrow> char" where
  "digit n = char_of (48 + n)"

fun showNat :: "nat \<Rightarrow> string" where
  "showNat n = (if n < 10 then [digit n] else showNat (n div 10) @ [digit (n mod 10)])"

declare showNat.simps [simp del]

definition Sprint :: "uint64 \<Rightarrow> string" where
  "Sprint w = showNat (unat w)"

definition ModuleName :: string where
  "ModuleName = ''fundraising''"

definition SellingReserveAddressPrefix :: string where
  "SellingReserveAddressPrefix = ''SellingReserveAddress''"

definition PayingReserveAddressPrefix :: string where
  "PayingReserveAddressPrefix = ''PayingReserveAddress''"

definition VestingReserveAddressPrefix :: string where
  "VestingReserveAddressPrefix = ''VestingReserveAddress''"

definition ModuleAddressNameSplitter :: string where
  "ModuleAddressNameSplitter = ''|''"

definition ReserveAddressType :: AddressType where
  "ReserveAddressType = AddressType32Bytes"

fun DeriveAddress :: "'a sdk_scheme \<Rightarrow> AddressType \<Rightarrow> string \<Rightarrow> string \<Rightarrow> accAddress" where
  "DeriveAddress S AddressType32Bytes moduleName name = address_Module S moduleName name"
| "DeriveAddress S AddressType20Bytes moduleName name = crypto_AddressHash S (moduleName @ name)"

definition SellingReserveAddress :: "'a sdk_scheme \<Rightarrow> uint64 \<Rightarrow> accAddress" where
  "SellingReserveAddress S auctionId =
     DeriveAddress S ReserveAddressType ModuleName
       (SellingReserveAddressPrefix @ ModuleAddressNameSplitter @ Sprint auctionId)"

definition PayingReserveAddress :: "'a sdk_scheme \<Rightarrow> uint64 \<Rightarrow> accAddress" where
  "PayingReserveAddress S auctionId =
     DeriveAddress S ReserveAddressType ModuleName
       (PayingReserveAddressPrefix @ ModuleAddressNameSplitter @ Sprint auctionId)"

definition VestingReserveAddress :: "'a sdk_scheme \<Rightarrow> uint64 \<Rightarrow> accAddress" where
  "VestingReserveAddress S auctionId =
     DeriveAddress S ReserveAddressType ModuleName
       (VestingReserveAddressPrefix @ ModuleAddressNameSplitter @ Sprint auctionId)"

section \<open>Auctions\<close>

definition NewBaseAuction ::
    "uint64 \<Rightarrow> AuctionType \<Rightarrow> string \<Rightarrow> string \<Rightarrow> string \<Rightarrow> dec \<Rightarrow> coin \<Rightarrow> denom \<Rightarrow> string
     \<Rightarrow> VestingSchedule list \<Rightarrow> time \<Rightarrow> time list \<Rightarrow> AuctionStatus \<Rightarrow> BaseAuction" where
  "NewBaseAuction id' typ auctioneerAddr sellingPoolAddr payingPoolAddr startPrice sellingCoin
     payingCoinDenom vestingPoolAddr vestingSchedules startTime endTimes status =
   \<lparr> ba_Id = id', ba_Type = typ, ba_Auctioneer = auctioneerAddr,
     ba_SellingReserveAddress = sellingPoolAddr, ba_PayingReserveAddress = payingPoolAddr,
     ba_StartPrice = startPrice, ba_SellingCoin = sellingCoin, ba_PayingCoinDenom = payingCoinDenom,
     ba_VestingReserveAddress = vestingPoolAddr, ba_VestingSchedules = vestingSchedules,
     ba_StartTime = startTime, ba_EndTimes = endTimes, ba_Status = status \<rparr>"

definition NewFixedPriceAuction :: "BaseAuction \<Rightarrow> coin \<Rightarrow> AuctionI" where
  "NewFixedPriceAuction baseAuction remainingSellingCoin =
     FixedPriceAuction baseAuction remainingSellingCoin"

definition NewBatchAuction :: "BaseAuction \<Rightarrow> dec \<Rightarrow> dec \<Rightarrow> uint32 \<Rightarrow> dec \<Rightarrow> AuctionI" where
  "NewBatchAuction baseAuction minBidPrice matchedPrice maxExtendedRound extendedRoundRate =
     BatchAuction baseAuction minBidPrice matchedPrice maxExtendedRound extendedRoundRate"

primrec updBase :: "(BaseAuction \<Rightarrow> BaseAuction) \<Rightarrow> AuctionI \<Rightarrow> AuctionI" where
  "updBase f (FixedPriceAuction b r) = FixedPriceAuction (f b) r"
| "updBase f (BatchAuction b mn mp mx er) = BatchAuction (f b) mn mp mx er"

lemma base_updBase [simp]: "base (updBase f a) = f (base a)"
  by (cases a) auto

definition GetId :: "AuctionI \<Rightarrow> uint64" where
  [simp]: "GetId a = ba_Id (base a)"

definition GetType :: "AuctionI \<Rightarrow> AuctionType" where
  [simp]: "GetType a = ba_Type (base a)"

definition GetAuctioneer :: "'a sdk_scheme \<Rightarrow> AuctionI \<Rightarrow> accAddress option" where
  "GetAuctioneer S a = AccAddressFromBech32 S (ba_Auctioneer (base a))"

definition GetSellingReserveAddress :: "'a sdk_scheme \<Rightarrow> AuctionI \<Rightarrow> accAddress option" where
  "GetSellingReserveAddress S a = AccAddressFromBech32 S (ba_SellingReserveAddress (base a))"

definition GetPayingReserveAddress :: "'a sdk_scheme \<Rightarrow> AuctionI \<Rightarrow> accAddress option" where
  "GetPayingReserveAddress S a = AccAddressFromBech32 S (ba_PayingReserveAddress (base a))"

definition GetVestingReserveAddress :: "'a sdk_scheme \<Rightarrow> AuctionI \<Rightarrow> accAddress option" where
  "GetVestingReserveAddress S a = AccAddressFromBech32 S (ba_VestingReserveAddress (base a))"

definition GetStartPrice :: "AuctionI \<Rightarrow> dec" where
  [simp]: "GetStartPrice a = ba_StartPrice (base a)"

definition GetSellingCoin :: "AuctionI \<Rightarrow> coin" where
  [simp]: "GetSellingCoin a = ba_SellingCoin (base a)"

definition GetPayingCoinDenom :: "AuctionI \<Rightarrow> denom" where
  [simp]: "GetPayingCoinDenom a = ba_PayingCoinDenom (base a)"

definition GetVestingSchedules :: "AuctionI \<Rightarrow> VestingSchedule list" where
  [simp]: "GetVestingSchedules a = ba_VestingSchedules (base a)"

definition GetStartTime :: "AuctionI \<Rightarrow> time" where
  [simp]: "GetStartTime a = ba_StartTime (base a)"

definition GetEndTimes :: "AuctionI \<Rightarrow> time list" where
  [simp]: "GetEndTimes a = ba_EndTimes (base a)"

definition GetStatus :: "AuctionI \<Rightarrow> AuctionStatus" where
  [simp]: "GetStatus a = ba_Status (base a)"

definition SetId :: "uint64 \<Rightarrow> AuctionI \<Rightarrow> AuctionI" where
  "SetId i = updBase (\<lambda>b. b\<lparr>ba_Id := i\<rparr>)"

definition SetType :: "AuctionType \<Rightarrow> AuctionI \<Rightarrow> AuctionI" where
  "SetType typ = updBase (\<lambda>b. b\<lparr>ba_Type := typ\<rparr>)"

definition SetAuctioneer :: "'a sdk_scheme \<Rightarrow> accAddress \<Rightarrow> AuctionI \<Rightarrow> AuctionI" where
  "SetAuctioneer S addr = updBase (\<lambda>b. b\<lparr>ba_Auctioneer := AccAddressString S addr\<rparr>)"

definition SetSellingReserveAddress :: "'a sdk_scheme \<Rightarrow> accAddress \<Rightarrow> AuctionI \<Rightarrow> AuctionI" where
  "SetSellingReserveAddress S addr =
     updBase (\<lambda>b. b\<lparr>ba_SellingReserveAddress := AccAddressString S addr\<rparr>)"

definition SetPayingReserveAddress :: "'a sdk_scheme \<Rightarrow> accAddress \<Rightarrow> AuctionI \<Rightarrow> AuctionI" where
  "SetPayingReserveAddress S addr =
     updBase (\<lambda>b. b\<lparr>ba_PayingReserveAddress := AccAddressString S addr\<rparr>)"

definition SetVestingReserveAddress :: "'a sdk_scheme \<Rightarrow> accAddress \<Rightarrow> AuctionI \<Rightarrow> AuctionI" where
  "SetVestingReserveAddress S addr =
     updBase (\<lambda>b. b\<lparr>ba_VestingReserveAddress := AccAddressString S addr\<rparr>)"

definition SetStartPrice :: "dec \<Rightarrow> AuctionI \<Rightarrow> AuctionI" where
  "SetStartPrice price = updBase (\<lambda>b. b\<lparr>ba_StartPrice := price\<rparr>)"

definition SetSellingCoin :: "coin \<Rightarrow> AuctionI \<Rightarrow> AuctionI" where
  "SetSellingCoin c = updBase (\<lambda>b. b\<lparr>ba_SellingCoin := c\<rparr>)"

definition SetPayingCoinDenom :: "denom \<Rightarrow> AuctionI \<Rightarrow> AuctionI" where
  "SetPayingCoinDenom d = updBase (\<lambda>b. b\<lparr>ba_PayingCoinDenom := d\<rparr>)"

definition SetVestingSchedules :: "VestingSchedule list \<Rightarrow> AuctionI \<Rightarrow> AuctionI" where
  "SetVestingSchedules schedules = updBase (\<lambda>b. b\<lparr>ba_VestingSchedules := schedules\<rparr>)"

definition SetStartTime :: "time \<Rightarrow> AuctionI \<Rightarrow> AuctionI" where
  "SetStartTime t = updBase (\<lambda>b. b\<lparr>ba_StartTime := t\<rparr>)"

definition SetStatus :: "AuctionStatus \<Rightarrow> AuctionI \<Rightarrow> AuctionI" where
  "SetStatus status = updBase (\<lambda>b. b\<lparr>ba_Status := status\<rparr>)"

definition SetEndTimes :: "time list \<Rightarrow> AuctionI \<Rightarrow> AuctionI" where
  "SetEndTimes ts = updBase (\<lambda>b. b\<lparr>ba_EndTimes := ts\<rparr>)"

lemma base_SetStatus [simp]: "base (SetStatus st a) = (base a)\<lparr>ba_Status := st\<rparr>"
  by (simp add: SetStatus_def)

lemma base_SetEndTimes [simp]: "base (SetEndTimes ts a) = (base a)\<lparr>ba_EndTimes := ts\<rparr>"
  by (simp add: SetEndTimes_def)

text \<open>\<open>ts[len(ts)-1]\<close> panics on an empty slice.\<close>

definition lastTime :: "time list \<Rightarrow> time option" where
  "lastTime ts = (if ts = [] then None else Some (last ts))"

definition ShouldAuctionStarted :: "AuctionI \<Rightarrow> time \<Rightarrow> bool" where
  "ShouldAuctionStarted a t \<longleftrightarrow> \<not> t < ba_StartTime (base a)"

definition ShouldAuctionClosed :: "AuctionI \<Rightarrow> time \<Rightarrow> bool option" where
  "ShouldAuctionClosed a t = map_option (\<lambda>e. \<not> t < e) (lastTime (ba_EndTimes (base a)))"

section \<open>Vesting\<close>

text \<open>0001-01-01T00:00:00Z, Go's zero time.\<close>

definition zeroTime :: time where
  "zeroTime = - 62135596800 * 10 ^ 9"

definition validateSchedule ::
    "'a sdk_math_scheme \<Rightarrow> time \<Rightarrow> VestingSchedule \<Rightarrow> dec \<times> time \<Rightarrow> (dec \<times> time) res" where
  "validateSchedule S endTime s = (\<lambda>(totalWeight, prevReleaseTime).
     bindR (check (\<not> DecIsPositive (vs_Weight s)) ErrInvalidVestingSchedules) (\<lambda>_.
     bindR (check (\<not> endTime < vs_ReleaseTime s) ErrInvalidVestingSchedules) (\<lambda>_.
     bindR (check (\<not> prevReleaseTime < vs_ReleaseTime s) ErrInvalidVestingSchedules) (\<lambda>_.
     bindR (check (OneDec S < vs_Weight s) ErrInvalidVestingSchedules) (\<lambda>_.
     Ok (DecAdd S totalWeight (vs_Weight s), vs_ReleaseTime s))))))"

definition ValidateVestingSchedules ::
    "'a sdk_math_scheme \<Rightarrow> VestingSchedule list \<Rightarrow> time \<Rightarrow> unit res" where
  "ValidateVestingSchedules S schedules endTime =
     (if schedules = [] then Ok ()
      else bindR (foldR (validateSchedule S endTime) schedules (ZeroDec S, zeroTime))
        (\<lambda>(totalWeight, _). check (totalWeight \<noteq> OneDec S) ErrInvalidVestingSchedules))"

definition NewVestingQueue ::
    "'a sdk_scheme \<Rightarrow> uint64 \<Rightarrow> accAddress \<Rightarrow> coin \<Rightarrow> time \<Rightarrow> bool \<Rightarrow> VestingQueue" where
  "NewVestingQueue S auctionId auctioneer payingCoin releaseTime released =
   \<lparr> vq_AuctionId = auctionId, vq_Auctioneer = AccAddressString S auctioneer,
     vq_PayingCoin = payingCoin, vq_ReleaseTime = releaseTime, vq_Released = released \<rparr>"

definition ShouldRelease :: "VestingQueue \<Rightarrow> time \<Rightarrow> bool" where
  "ShouldRelease vq t \<longleftrightarrow> \<not> t < vq_ReleaseTime vq \<and> \<not> vq_Released vq"

definition SetReleased :: "bool \<Rightarrow> VestingQueue \<Rightarrow> VestingQueue" where
  "SetReleased status vq = vq\<lparr>vq_Released := status\<rparr>"

definition VestingQueue_Validate :: "'a sdk_scheme \<Rightarrow> VestingQueue \<Rightarrow> unit res" where
  "VestingQueue_Validate S q =
     bindR (check (AccAddressFromBech32 S (vq_Auctioneer q) = None) ErrBech32) (\<lambda>_.
     check (\<not> CoinValidate S (vq_PayingCoin q)) ErrFmt)"

section \<open>Validation of auctions, allowed bidders, bids and parameters\<close>

definition BaseAuction_Validate :: "'a sdk_scheme \<Rightarrow> BaseAuction \<Rightarrow> unit res" where
  "BaseAuction_Validate S ba =
     bindR (check (ba_Type ba \<noteq> AuctionTypeFixedPrice \<and> ba_Type ba \<noteq> AuctionTypeBatch)
       ErrInvalidAuctionType) (\<lambda>_.
     bindR (check (AccAddressFromBech32 S (ba_Auctioneer ba) = None) ErrInvalidAddress) (\<lambda>_.
     bindR (check (AccAddressFromBech32 S (ba_SellingReserveAddress ba) = None)
       ErrInvalidAddress) (\<lambda>_.
     bindR (check (AccAddressFromBech32 S (ba_PayingReserveAddress ba) = None)
       ErrInvalidAddress) (\<lambda>_.
     bindR (check (AccAddressFromBech32 S (ba_VestingReserveAddress ba) = None)
       ErrInvalidAddress) (\<lambda>_.
     bindR (check (\<not> DecIsPositive (ba_StartPrice ba)) ErrInvalidRequest) (\<lambda>_.
     bindR (check (\<not> CoinValidate S (ba_SellingCoin ba)) ErrInvalidCoins) (\<lambda>_.
     bindR (check (Denom (ba_SellingCoin ba) = ba_PayingCoinDenom ba) ErrInvalidRequest) (\<lambda>_.
     bindR (check (\<not> ValidateDenom S (ba_PayingCoinDenom ba)) ErrInvalidRequest) (\<lambda>_.
     bindR (orPanic (lastTime (ba_EndTimes ba))) (\<lambda>endTime.
     ValidateVestingSchedules S (ba_VestingSchedules ba) endTime))))))))))"

definition NewAllowedBidder :: "'a sdk_scheme \<Rightarrow> accAddress \<Rightarrow> int option \<Rightarrow> AllowedBidder" where
  "NewAllowedBidder S bidderAddr maxBidAmount =
     \<lparr> ab_Bidder = AccAddressString S bidderAddr, ab_MaxBidAmount = maxBidAmount \<rparr>"

definition AllowedBidder_GetBidder :: "'a sdk_scheme \<Rightarrow> AllowedBidder \<Rightarrow> accAddress option" where
  "AllowedBidder_GetBidder S ab = AccAddressFromBech32 S (ab_Bidder ab)"

definition AllowedBidder_Validate :: "'a sdk_scheme \<Rightarrow> AllowedBidder \<Rightarrow> unit res" where
  "AllowedBidder_Validate S ab =
     bindR (check (AccAddressFromBech32 S (ab_Bidder ab) = None) ErrInvalidAddress) (\<lambda>_.
     (case ab_MaxBidAmount ab of
        None \<Rightarrow> Err ErrInvalidMaxBidAmount
      | Some n \<Rightarrow> check (\<not> 0 < n) ErrInvalidMaxBidAmount))"

definition Bid_Validate :: "'a sdk_scheme \<Rightarrow> Bid \<Rightarrow> unit res" where
  "Bid_Validate S b =
     bindR (check (AccAddressFromBech32 S (bid_Bidder b) = None) ErrBech32) (\<lambda>_.
     bindR (check (\<not> DecIsPositive (bid_Price b)) ErrFmt) (\<lambda>_.
     bindR (check (\<not> CoinValidate S (bid_Coin b)) ErrFmt) (\<lambda>_.
     check (\<not> 0 < Amount (bid_Coin b)) ErrFmt)))"

definition MaxNumVestingSchedules :: nat where
  "MaxNumVestingSchedules = 100"

definition MaxExtendedRoundLimit :: uint32 where
  "MaxExtendedRoundLimit = 30"

definition validateAuctionCreationFee :: "'a sdk_scheme \<Rightarrow> coins \<Rightarrow> unit res" where
  "validateAuctionCreationFee S v = check (\<not> CoinsValidate S v) ErrFmt"

definition validatePlaceBidFee :: "'a sdk_scheme \<Rightarrow> coins \<Rightarrow> unit res" where
  "validatePlaceBidFee S v = check (\<not> CoinsValidate S v) ErrFmt"

definition validateExtendedPeriod :: "uint32 \<Rightarrow> unit res" where
  "validateExtendedPeriod v = Ok ()"

definition Params_Validate :: "'a sdk_scheme \<Rightarrow> Params \<Rightarrow> unit res" where
  "Params_Validate S p =
     bindR (validateAuctionCreationFee S (AuctionCreationFee p)) (\<lambda>_.
     validateExtendedPeriod (ExtendedPeriod p))"

text \<open>\<open>ParamSetPairs\<close>: the validation the parameter store applies to each field on a write.\<close>

definition ParamSetPairs_validate :: "'a sdk_scheme \<Rightarrow> Params \<Rightarrow> unit res" where
  "ParamSetPairs_validate S p =
     bindR (validateAuctionCreationFee S (AuctionCreationFee p)) (\<lambda>_.
     bindR (validatePlaceBidFee S (PlaceBidFee p)) (\<lambda>_.
     validateExtendedPeriod (ExtendedPeriod p)))"

section \<open>Lemmas\<close>

subsection \<open>Reserve addresses\<close>

definition readNat :: "string \<Rightarrow> nat" where
  "readNat = foldl (\<lambda>n c. 10 * n + (of_char c - 48)) 0"

lemma readNat_showNat: "readNat (showNat n) = n"
proof (induction n rule: showNat.induct)
  case (1 n)
  have d: "of_char (digit m) = 48 + m" if "m < 10" for m
    using that by (simp add: digit_def)
  show ?case
  proof (cases "n < 10")
    case True
    then show ?thesis by (simp add: showNat.simps [of n] readNat_def d)
  next
    case False
    with "1.IH" have "readNat (showNat (n div 10)) = n div 10" by simp
    then show ?thesis using False by (simp add: showNat.simps [of n] readNat_def d)
  qed
qed

lemma Sprint_inj: "Sprint v = Sprint w \<longleftrightarrow> v = w"
  by (metis Sprint_def readNat_showNat word_unat_eq_iff)

definition sellingName :: "uint64 \<Rightarrow> string" where
  "sellingName i = SellingReserveAddressPrefix @ ModuleAddressNameSplitter @ Sprint i"

definition payingName :: "uint64 \<Rightarrow> string" where
  "payingName i = PayingReserveAddressPrefix @ ModuleAddressNameSplitter @ Sprint i"

definition vestingName :: "uint64 \<Rightarrow> string" where
  "vestingName i = VestingReserveAddressPrefix @ ModuleAddressNameSplitter @ Sprint i"

lemmas reserve_name_defs = sellingName_def payingName_def vestingName_def
  SellingReserveAddressPrefix_def PayingReserveAddressPrefix_def VestingReserveAddressPrefix_def
  ModuleAddressNameSplitter_def

text \<open>The names whose derived addresses the module uses.\<close>

definition reserveNames :: "string set" where
  "reserveNames = range sellingName \<union> range payingName \<union> range vestingName"

lemma reserve_names_differ [simp]:
  "sellingName i \<noteq> payingName j" "payingName i \<noteq> sellingName j"
  "sellingName i \<noteq> vestingName j" "vestingName i \<noteq> sellingName j"
  "payingName i \<noteq> vestingName j" "vestingName i \<noteq> payingName j"
  by (simp_all add: reserve_name_defs)

lemma reserve_names_inj [simp]:
  "sellingName i = sellingName j \<longleftrightarrow> i = j"
  "payingName i = payingName j \<longleftrightarrow> i = j"
  "vestingName i = vestingName j \<longleftrightarrow> i = j"
  by (simp_all add: reserve_name_defs Sprint_inj)

lemma reserve_names_in [simp]:
  "sellingName i \<in> reserveNames" "payingName i \<in> reserveNames" "vestingName i \<in> reserveNames"
  by (simp_all add: reserveNames_def)

lemma reserve_address_alt:
  "SellingReserveAddress S i = address_Module S ModuleName (sellingName i)"
  "PayingReserveAddress S i = address_Module S ModuleName (payingName i)"
  "VestingReserveAddress S i = address_Module S ModuleName (vestingName i)"
  by (simp_all add: SellingReserveAddress_def PayingReserveAddress_def VestingReserveAddress_def
      ReserveAddressType_def sellingName_def payingName_def vestingName_def)

text \<open>The laws of addresses, for this module's names.\<close>

locale reserve_addresses = address_laws S ModuleName reserveNames for S :: "'a sdk_scheme"
begin

lemma reserve_eq:
  "SellingReserveAddress S i = SellingReserveAddress S j \<longleftrightarrow> i = j"
  "PayingReserveAddress S i = PayingReserveAddress S j \<longleftrightarrow> i = j"
  "VestingReserveAddress S i = VestingReserveAddress S j \<longleftrightarrow> i = j"
  by (simp_all add: reserve_address_alt inj_on_eq_iff [OF Module_inj])

lemma reserve_neq:
  "SellingReserveAddress S i \<noteq> PayingReserveAddress S j"
  "PayingReserveAddress S i \<noteq> SellingReserveAddress S j"
  "SellingReserveAddress S i \<noteq> VestingReserveAddress S j"
  "VestingReserveAddress S i \<noteq> SellingReserveAddress S j"
  "PayingReserveAddress S i \<noteq> VestingReserveAddress S j"
  "VestingReserveAddress S i \<noteq> PayingReserveAddress S j"
  by (simp_all add: reserve_address_alt inj_on_eq_iff [OF Module_inj])

lemma reserve_decode:
  "AccAddressFromBech32 S (AccAddressString S (SellingReserveAddress S i))
     = Some (SellingReserveAddress S i)"
  "AccAddressFromBech32 S (AccAddressString S (PayingReserveAddress S i))
     = Some (PayingReserveAddress S i)"
  "AccAddressFromBech32 S (AccAddressString S (VestingReserveAddress S i))
     = Some (VestingReserveAddress S i)"
  by (simp_all add: reserve_address_alt bech32_roundtrip Module_usable)

lemmas reserve_simps = reserve_eq reserve_neq reserve_decode

end

subsection \<open>Vesting schedules\<close>

text \<open>What the validation promises about a schedule list.\<close>

definition validSchedules :: "VestingSchedule list \<Rightarrow> time \<Rightarrow> bool" where
  "validSchedules vs endTime \<longleftrightarrow>
     (\<forall>v \<in> set vs. 0 < mant (vs_Weight v) \<and> mant (vs_Weight v) \<le> decUnit
        \<and> endTime < vs_ReleaseTime v \<and> zeroTime < vs_ReleaseTime v)
   \<and> sorted_wrt (<) (map vs_ReleaseTime vs)
   \<and> (vs \<noteq> [] \<longrightarrow> sum_list (map (\<lambda>v. mant (vs_Weight v)) vs) = decUnit)"

context dec_laws
begin

lemma validateSchedule_Ok_iff:
  "validateSchedule S endTime v (w, p) = Ok (w', p') \<longleftrightarrow>
     0 < mant (vs_Weight v) \<and> mant (vs_Weight v) \<le> decUnit \<and> endTime < vs_ReleaseTime v
     \<and> p < vs_ReleaseTime v \<and> w' = Dec (mant w + mant (vs_Weight v)) \<and> p' = vs_ReleaseTime v"
  by (auto simp: validateSchedule_def bindR_Ok_iff DecIsPositive_def dec_simps less_dec_def)

lemma foldR_validateSchedule:
  "foldR (validateSchedule S endTime) vs (w, p) = Ok r \<longleftrightarrow>
     (\<forall>v \<in> set vs. 0 < mant (vs_Weight v) \<and> mant (vs_Weight v) \<le> decUnit
        \<and> endTime < vs_ReleaseTime v \<and> p < vs_ReleaseTime v)
   \<and> sorted_wrt (<) (map vs_ReleaseTime vs)
   \<and> r = (Dec (mant w + sum_list (map (\<lambda>v. mant (vs_Weight v)) vs)),
        if vs = [] then p else vs_ReleaseTime (last vs))"
proof (induction vs arbitrary: w p)
  case Nil
  then show ?case by auto
next
  case (Cons v vs)
  have "foldR (validateSchedule S endTime) (v # vs) (w, p) = Ok r \<longleftrightarrow>
      (\<exists>w' p'. validateSchedule S endTime v (w, p) = Ok (w', p')
         \<and> foldR (validateSchedule S endTime) vs (w', p') = Ok r)"
    by (auto simp: bindR_Ok_iff)
  then show ?case
    by (auto simp: validateSchedule_Ok_iff Cons.IH add.assoc) (meson less_trans)
qed

lemma ValidateVestingSchedules_Ok_iff:
  "ValidateVestingSchedules S vs endTime = Ok u \<longleftrightarrow> validSchedules vs endTime"
  by (auto simp: ValidateVestingSchedules_def validSchedules_def bindR_Ok_iff
      foldR_validateSchedule dec_simps)

end

end
