(* ===== verification/Bids.thy ===== *)
theory Bids
  imports Types
begin

text \<open>
  Bids: construction, the two amount conversions, the ordering of bids and their grouping by price
  (\<^verbatim>\<open>types/bid.go\<close>, \<^verbatim>\<open>types/utils.go\<close>).

  \<open>sort.Slice\<close> is a field of the record \<open>golib\<close>: its result on bids is fixed by its
  documentation only when the comparison is a strict weak order, and the comparison of
  \<open>SortBids\<close> is not one (lemma \<open>SortBids_less_inconsistent\<close>). The locale \<open>sort_laws\<close> says
  what the documentation promises; every result about bids rests on the permutation law alone.
\<close>

record golib = sdk +
  sort_Slice :: "(Bid \<Rightarrow> Bid \<Rightarrow> bool) \<Rightarrow> Bid list \<Rightarrow> Bid list"

definition strictWeakOrder :: "('a \<Rightarrow> 'a \<Rightarrow> bool) \<Rightarrow> 'a set \<Rightarrow> bool" where
  "strictWeakOrder lt A \<longleftrightarrow>
     (\<forall>x \<in> A. \<not> lt x x)
   \<and> (\<forall>x \<in> A. \<forall>y \<in> A. \<forall>z \<in> A. lt x y \<longrightarrow> lt y z \<longrightarrow> lt x z)
   \<and> (\<forall>x \<in> A. \<forall>y \<in> A. \<forall>z \<in> A. lt x z \<longrightarrow> lt x y \<or> lt y z)"

locale sort_laws =
  fixes S :: "'a golib_scheme"
  assumes sort_Slice_perm: "mset (sort_Slice S lt xs) = mset xs"
    and sort_Slice_sorted:
      "strictWeakOrder lt (set xs) \<Longrightarrow> sorted_wrt (\<lambda>x y. \<not> lt y x) (sort_Slice S lt xs)"

section \<open>Bids and amounts\<close>

definition NewBid ::
    "'a sdk_scheme \<Rightarrow> uint64 \<Rightarrow> accAddress \<Rightarrow> uint64 \<Rightarrow> BidType \<Rightarrow> dec \<Rightarrow> coin \<Rightarrow> bool \<Rightarrow> Bid" where
  "NewBid S auctionId bidder bidId bidType price c isMatched =
   \<lparr> bid_AuctionId = auctionId, bid_Bidder = AccAddressString S bidder, bid_Id = bidId,
     bid_Type = bidType, bid_Price = price, bid_Coin = c, bid_IsMatched = isMatched \<rparr>"

definition Bid_GetBidder :: "'a sdk_scheme \<Rightarrow> Bid \<Rightarrow> accAddress option" where
  "Bid_GetBidder S b = AccAddressFromBech32 S (bid_Bidder b)"

definition SetMatched :: "bool \<Rightarrow> Bid \<Rightarrow> Bid" where
  "SetMatched status b = b\<lparr>bid_IsMatched := status\<rparr>"

definition ConvertToSellingAmount :: "'a sdk_math_scheme \<Rightarrow> Bid \<Rightarrow> denom \<Rightarrow> int" where
  "ConvertToSellingAmount S b denom =
     (if Denom (bid_Coin b) = denom
      then DecTruncateInt S (DecQuoTruncate S (NewDecFromInt S (Amount (bid_Coin b))) (bid_Price b))
      else Amount (bid_Coin b))"

definition ConvertToPayingAmount :: "'a sdk_math_scheme \<Rightarrow> Bid \<Rightarrow> denom \<Rightarrow> int" where
  "ConvertToPayingAmount S b denom =
     (if Denom (bid_Coin b) = denom then Amount (bid_Coin b)
      else DecTruncateInt S
        (DecCeil S (DecMul S (NewDecFromInt S (Amount (bid_Coin b))) (bid_Price b))))"

section \<open>Order and grouping\<close>

definition SortBids_less :: "Bid \<Rightarrow> Bid \<Rightarrow> bool" where
  "SortBids_less x y \<longleftrightarrow> (if bid_Price y < bid_Price x then True else bid_Id x < bid_Id y)"

definition SortBids :: "'a golib_scheme \<Rightarrow> Bid list \<Rightarrow> Bid list" where
  "SortBids S bids = sort_Slice S SortBids_less bids"

text \<open>\<open>bidsByPrice[priceStr] = append(bidsByPrice[priceStr], bid)\<close>, for each bid in turn.\<close>

definition groupBid ::
    "'a sdk_math_scheme \<Rightarrow> Bid \<Rightarrow> (string, Bid list) omap \<Rightarrow> (string, Bid list) omap" where
  "groupBid S b m =
     (let priceStr = DecString S (bid_Price b)
      in oset priceStr ((case oget m priceStr of None \<Rightarrow> [] | Some bs \<Rightarrow> bs) @ [b]) m)"

text \<open>The prices are the parsed keys in descending order; they are different numbers, so every
  correct sort gives the same list.\<close>

definition BidsByPrice ::
    "'a golib_scheme \<Rightarrow> Bid list \<Rightarrow> (dec list \<times> (string, Bid list) omap) res" where
  "BidsByPrice S bids =
     (let bidsByPrice = fold (groupBid S) (SortBids S bids) []
      in bindR (orPanic (those (map (\<lambda>e. MustNewDecFromStr S (fst e)) bidsByPrice)))
           (\<lambda>prices. Ok (rev (sort prices), bidsByPrice)))"

definition bidsAt :: "'a sdk_math_scheme \<Rightarrow> (string, Bid list) omap \<Rightarrow> dec \<Rightarrow> Bid list" where
  "bidsAt S bidsByPrice price =
     (case oget bidsByPrice (DecString S price) of None \<Rightarrow> [] | Some bs \<Rightarrow> bs)"

section \<open>Lemmas\<close>

subsection \<open>Amounts\<close>

text \<open>Exact forms of the two conversions: the selling amount is rounded down, the paying amount
  is rounded up.\<close>

context dec_laws
begin

lemma ConvertToSellingAmount_eq:
  assumes "0 \<le> Amount (bid_Coin b)" and "0 < mant (bid_Price b)"
  shows "ConvertToSellingAmount S b d =
    (if Denom (bid_Coin b) = d then Amount (bid_Coin b) * decUnit div mant (bid_Price b)
     else Amount (bid_Coin b))"
  using assms by (simp add: ConvertToSellingAmount_def TruncateInt_QuoTruncate)

lemma ConvertToPayingAmount_eq:
  assumes "0 \<le> Amount (bid_Coin b)" and "0 \<le> mant (bid_Price b)"
  shows "ConvertToPayingAmount S b d =
    (if Denom (bid_Coin b) = d then Amount (bid_Coin b)
     else - (- (Amount (bid_Coin b) * mant (bid_Price b)) div decUnit))"
  using assms by (simp add: ConvertToPayingAmount_def NewDecFromInt_law DecMul_whole TruncateInt_Ceil)

lemma ConvertToSellingAmount_nonneg:
  "0 \<le> Amount (bid_Coin b) \<Longrightarrow> 0 < mant (bid_Price b) \<Longrightarrow> 0 \<le> ConvertToSellingAmount S b d"
  by (simp add: ConvertToSellingAmount_eq pos_imp_zdiv_nonneg_iff)

lemma ConvertToPayingAmount_nonneg:
  assumes "0 \<le> Amount (bid_Coin b)" and "0 \<le> mant (bid_Price b)"
  shows "0 \<le> ConvertToPayingAmount S b d"
  using assms ceil_div_mono [OF decUnit_pos(1), of 0 "Amount (bid_Coin b) * mant (bid_Price b)"]
  by (simp add: ConvertToPayingAmount_eq)

text \<open>The price of the selling amount never exceeds the paying amount: what the auctioneer is
  paid covers what he sells, whatever coin the bid is stated in.\<close>

lemma selling_covered_by_paying:
  assumes "0 \<le> Amount (bid_Coin b)" and "0 < mant (bid_Price b)"
  shows "ConvertToSellingAmount S b d * mant (bid_Price b) \<le> ConvertToPayingAmount S b d * decUnit"
proof (cases "Denom (bid_Coin b) = d")
  case True
  have "Amount (bid_Coin b) * decUnit div mant (bid_Price b) * mant (bid_Price b)
      \<le> Amount (bid_Coin b) * decUnit"
    using assms(2) by (simp add: minus_mod_eq_div_mult [symmetric])
  with True assms show ?thesis
    by (simp add: ConvertToSellingAmount_eq ConvertToPayingAmount_eq)
next
  case False
  then show ?thesis
    using assms ceil_div_props(1) [OF decUnit_pos(1), of "Amount (bid_Coin b) * mant (bid_Price b)"]
    by (simp add: ConvertToSellingAmount_eq ConvertToPayingAmount_eq)
qed

end

subsection \<open>Order\<close>

text \<open>With a cheaper, older bid and a dearer, newer one, the comparison puts each before the
  other: it is not an order, and the sorted result is not determined by it.\<close>

lemma SortBids_less_inconsistent:
  assumes "bid_Price x < bid_Price y" and "bid_Id x < bid_Id y"
  shows "SortBids_less x y \<and> SortBids_less y x"
  using assms by (auto simp: SortBids_less_def)

lemma SortBids_less_not_order:
  assumes "bid_Price x < bid_Price y" and "bid_Id x < bid_Id y" and "x \<in> A" and "y \<in> A"
  shows "\<not> strictWeakOrder SortBids_less A"
  using assms SortBids_less_inconsistent [OF assms(1,2)] unfolding strictWeakOrder_def
  by blast

context sort_laws
begin

lemma SortBids_perm: "mset (SortBids S bids) = mset bids"
  by (simp add: SortBids_def sort_Slice_perm)

lemma set_SortBids: "set (SortBids S bids) = set bids"
  by (metis SortBids_perm set_mset_mset)

end

subsection \<open>Grouping\<close>

context dec_laws
begin

lemma bidsAt_fold:
  "bidsAt S (fold (groupBid S) bs m) p = bidsAt S m p @ filter (\<lambda>b. bid_Price b = p) bs"
proof (induction bs arbitrary: m)
  case (Cons b bs)
  have "bidsAt S (groupBid S b m) p = bidsAt S m p @ (if bid_Price b = p then [b] else [])"
    by (auto simp: bidsAt_def groupBid_def Let_def DecString_inj)
  with Cons show ?case by simp
qed simp

lemma keys_fold_groupBid:
  "fst ` set (fold (groupBid S) bs m) = fst ` set m \<union> (\<lambda>b. DecString S (bid_Price b)) ` set bs"
  by (induction bs arbitrary: m) (auto simp: groupBid_def Let_def)

lemma owf_fold_groupBid: "owf m \<Longrightarrow> owf (fold (groupBid S) bs m)"
  by (induction bs arbitrary: m) (auto simp: groupBid_def Let_def)

lemma those_prices:
  assumes "\<And>k. k \<in> fst ` set m \<Longrightarrow> k \<in> range (DecString S)"
  obtains ps where "those (map (\<lambda>e. MustNewDecFromStr S (fst e)) m) = Some ps"
    and "map (DecString S) ps = map fst m"
  using assms
proof (induction m arbitrary: thesis)
  case Nil
  then show ?case by simp
next
  case (Cons e m)
  from Cons.prems(2) [of "fst e"] obtain p where p: "fst e = DecString S p" by auto
  have "\<And>k. k \<in> fst ` set m \<Longrightarrow> k \<in> range (DecString S)" using Cons.prems(2) by simp
  then obtain ps where "those (map (\<lambda>e. MustNewDecFromStr S (fst e)) m) = Some ps"
    and "map (DecString S) ps = map fst m"
    using Cons.IH by blast
  with p show ?case by (intro Cons.prems(1) [of "p # ps"]) (simp_all add: DecString_law)
qed

end

locale bid_laws = dec_laws S + sort_laws S for S :: "'a golib_scheme"
begin

text \<open>The grouping never fails; the prices are exactly the prices of the bids, strictly
  descending, and the group of a price holds the bids of that price.\<close>

lemma BidsByPrice_spec:
  obtains prices groups where "BidsByPrice S bids = Ok (prices, groups)"
    and "set prices = bid_Price ` set bids"
    and "sorted_wrt (>) prices"
    and "\<And>p. bidsAt S groups p = filter (\<lambda>b. bid_Price b = p) (SortBids S bids)"
proof -
  define m where "m = fold (groupBid S) (SortBids S bids) []"
  have keys: "fst ` set m = (\<lambda>b. DecString S (bid_Price b)) ` set bids"
    by (simp add: m_def keys_fold_groupBid set_SortBids)
  then obtain ps where ps: "those (map (\<lambda>e. MustNewDecFromStr S (fst e)) m) = Some ps"
    and strs: "map (DecString S) ps = map fst m"
    using those_prices [of m] by (metis (no_types, lifting) image_iff rangeI)
  have "distinct (map fst m)" by (simp add: m_def owf_distinct owf_fold_groupBid)
  then have "distinct ps" using strs by (metis distinct_map)
  then have "sorted_wrt (>) (rev (sort ps))"
    by (simp add: sorted_wrt_rev strict_sorted_iff)
  moreover have "DecString S ` set ps = fst ` set m"
    using strs by (metis list.set_map)
  then have "DecString S ` set ps = DecString S ` bid_Price ` set bids"
    by (simp only: keys image_image)
  then have "set ps = bid_Price ` set bids"
    by (simp add: inj_image_eq_iff inj_def DecString_inj)
  ultimately show thesis
    using ps bidsAt_fold [of "SortBids S bids" "[]"]
    by (intro that [of "rev (sort ps)" m]) (simp_all add: BidsByPrice_def m_def [symmetric] bidsAt_def)
qed

end

end
