(* ===== verification/Matching.thy ===== *)
theory Matching
  imports Bids
begin

text \<open>
  The matching of a batch auction at one price (\<^verbatim>\<open>types/match.go\<close>) and the search for the matching
  price (\<open>sort.Search\<close> as \<^verbatim>\<open>keeper/match.go\<close> uses it).

  \<open>Match\<close> is the source's double loop with its early return. The lemmas first reduce it to the
  sequence of amounts given to the bids in turn (\<open>allocs\<close>), then show that what a bidder gets does
  not depend on the order of the bids: it is the smaller of his demand at the price and his limit.
  From that follow when a price matches, that matching is monotone in the price, and that what a
  bidder pays is covered by what his bids reserved.
\<close>

section \<open>Definitions\<close>

record BidderMatchResult =
  bmr_PayingAmount :: int
  bmr_MatchedAmount :: int

text \<open>\<open>MatchPrice\<close> is None for the zero value \<open>sdk.Dec\{\}\<close>.\<close>

record MatchResult =
  mr_MatchPrice :: "dec option"
  mr_MatchedAmount :: int
  mr_MatchedBids :: "Bid list"
  mr_MatchResultByBidder :: "(string, BidderMatchResult) omap"

text \<open>The amount a bid asks for at a matching price; nil for a bid that is neither of the two
  batch types.\<close>

definition bidAmtAt :: "'a sdk_math_scheme \<Rightarrow> dec \<Rightarrow> Bid \<Rightarrow> int option" where
  "bidAmtAt S matchPrice b =
     (case bid_Type b of
        BidTypeBatchWorth \<Rightarrow>
          Some (DecTruncateInt S
            (DecQuoTruncate S (NewDecFromInt S (Amount (bid_Coin b))) matchPrice))
      | BidTypeBatchMany \<Rightarrow> Some (Amount (bid_Coin b))
      | _ \<Rightarrow> None)"

text \<open>The state of the loop: the result under construction, the amount each bidder may still get,
  and whether a bid was matched. None stands for \<open>return nil, false\<close>.\<close>

type_synonym match_state = "MatchResult \<times> (string, int option) omap \<times> bool"

definition matchBid ::
    "'a sdk_math_scheme \<Rightarrow> dec \<Rightarrow> int \<Rightarrow> Bid \<Rightarrow> match_state \<Rightarrow> match_state option res" where
  "matchBid S matchPrice sellingAmt b = (\<lambda>(res, biddableAmtByBidder, matched).
     let bidAmt = bidAmtAt S matchPrice b;
         biddableAmt = Option.bind (oget biddableAmtByBidder (bid_Bidder b)) (\<lambda>n. n)
     in bindR (orPanic (MinInt S bidAmt biddableAmt)) (\<lambda>matchAmt.
       if sellingAmt < mr_MatchedAmount res + matchAmt then Ok None
       else
         let payingAmt = DecTruncateInt S (DecCeil S (DecMulInt S matchPrice matchAmt));
             bidderRes = (case oget (mr_MatchResultByBidder res) (bid_Bidder b) of
                 None \<Rightarrow> \<lparr> bmr_PayingAmount = 0, bmr_MatchedAmount = 0 \<rparr>
               | Some r \<Rightarrow> r);
             bidderRes' = \<lparr> bmr_PayingAmount = bmr_PayingAmount bidderRes + payingAmt,
                            bmr_MatchedAmount = bmr_MatchedAmount bidderRes + matchAmt \<rparr>;
             res1 = res\<lparr> mr_MatchResultByBidder :=
                           oset (bid_Bidder b) bidderRes' (mr_MatchResultByBidder res) \<rparr>
         in if 0 < matchAmt
            then bindR (orPanic biddableAmt) (\<lambda>biddable.
              Ok (Some (res1\<lparr> mr_MatchedBids := mr_MatchedBids res1 @ [b],
                              mr_MatchedAmount := mr_MatchedAmount res1 + matchAmt \<rparr>,
                        oset (bid_Bidder b) (Some (biddable - matchAmt)) biddableAmtByBidder,
                        True)))
            else Ok (Some (res1, biddableAmtByBidder, matched))))"

fun matchBids ::
    "'a sdk_math_scheme \<Rightarrow> dec \<Rightarrow> int \<Rightarrow> Bid list \<Rightarrow> match_state \<Rightarrow> match_state option res" where
  "matchBids S matchPrice sellingAmt [] st = Ok (Some st)"
| "matchBids S matchPrice sellingAmt (b # bs) st =
     bindR (matchBid S matchPrice sellingAmt b st) (\<lambda>r. case r of
         None \<Rightarrow> Ok None
       | Some st' \<Rightarrow> matchBids S matchPrice sellingAmt bs st')"

fun matchPrices ::
    "'a sdk_math_scheme \<Rightarrow> dec \<Rightarrow> int \<Rightarrow> (string, Bid list) omap \<Rightarrow> dec list \<Rightarrow> match_state
     \<Rightarrow> match_state option res" where
  "matchPrices S matchPrice sellingAmt bidsByPrice [] st = Ok (Some st)"
| "matchPrices S matchPrice sellingAmt bidsByPrice (price # prices) st =
     (if price < matchPrice then Ok (Some st)
      else bindR (matchBids S matchPrice sellingAmt (bidsAt S bidsByPrice price) st)
        (\<lambda>r. case r of
           None \<Rightarrow> Ok None
         | Some st' \<Rightarrow> matchPrices S matchPrice sellingAmt bidsByPrice prices st'))"

definition biddableMap :: "AllowedBidder list \<Rightarrow> (string, int option) omap" where
  "biddableMap allowedBidders = fold (\<lambda>ab m. oset (ab_Bidder ab) (ab_MaxBidAmount ab) m) allowedBidders []"

definition initMatchResult :: "dec option \<Rightarrow> MatchResult" where
  "initMatchResult p =
   \<lparr> mr_MatchPrice = p, mr_MatchedAmount = 0, mr_MatchedBids = [], mr_MatchResultByBidder = [] \<rparr>"

definition Match ::
    "'a sdk_math_scheme \<Rightarrow> dec \<Rightarrow> dec list \<Rightarrow> (string, Bid list) omap \<Rightarrow> int \<Rightarrow> AllowedBidder list
     \<Rightarrow> (MatchResult option \<times> bool) res" where
  "Match S matchPrice prices bidsByPrice sellingAmt allowedBidders =
     bindR (matchPrices S matchPrice sellingAmt bidsByPrice prices
        (initMatchResult (Some matchPrice), biddableMap allowedBidders, False))
      (\<lambda>r. Ok (case r of
           None \<Rightarrow> (None, False)
         | Some (res, _, matched) \<Rightarrow> (Some res, matched)))"

text \<open>Go's \<open>sort.Search\<close>: binary search for the least index in \<open>[i, j)\<close> whose test is true. The
  test is a closure that may update captured variables (here of type \<open>'c\<close>).\<close>

function sortSearch ::
    "(nat \<Rightarrow> 'c \<Rightarrow> (bool \<times> 'c) res) \<Rightarrow> nat \<Rightarrow> nat \<Rightarrow> 'c \<Rightarrow> (nat \<times> 'c) res" where
  "sortSearch f i j c =
     (if i < j then
        bindR (f ((i + j) div 2) c) (\<lambda>(b, c').
          if b then sortSearch f i ((i + j) div 2) c'
          else sortSearch f ((i + j) div 2 + 1) j c')
      else Ok (i, c))"
  by pat_completeness auto
termination
  by (relation "measure (\<lambda>(f, i, j, c). j - i)") auto

declare sortSearch.simps [simp del]

text \<open>The closure of \<open>CalculateBatchAllocation\<close>: index 0 is the lowest price; a successful match
  is stored.\<close>

definition matchProbe ::
    "'a sdk_math_scheme \<Rightarrow> dec list \<Rightarrow> (string, Bid list) omap \<Rightarrow> int \<Rightarrow> AllowedBidder list
     \<Rightarrow> nat \<Rightarrow> MatchResult \<Rightarrow> (bool \<times> MatchResult) res" where
  "matchProbe S prices bidsByPrice sellingAmt allowedBidders i matchRes =
     bindR (Match S (prices ! (length prices - 1 - i)) prices bidsByPrice sellingAmt allowedBidders)
       (\<lambda>(res, matched). case res of
          Some r \<Rightarrow> Ok (matched, if matched then r else matchRes)
        | None \<Rightarrow> Ok (matched, matchRes))"

definition findMatch ::
    "'a sdk_math_scheme \<Rightarrow> dec list \<Rightarrow> (string, Bid list) omap \<Rightarrow> int \<Rightarrow> AllowedBidder list
     \<Rightarrow> MatchResult res" where
  "findMatch S prices bidsByPrice sellingAmt allowedBidders =
     bindR (sortSearch (matchProbe S prices bidsByPrice sellingAmt allowedBidders)
              0 (length prices) (initMatchResult None))
       (\<lambda>(_, matchRes). Ok matchRes)"

section \<open>The search\<close>

text \<open>For a test that is false below some index and true from there on, the search ends at that
  index, and the captured variable holds what the test stored there.\<close>

lemma sortSearch_correct:
  assumes "\<And>h c. h < n \<Longrightarrow> f h c = Ok (P h, if P h then g h else c)"
    and "\<And>a b. a \<le> b \<Longrightarrow> b < n \<Longrightarrow> P a \<Longrightarrow> P b"
    and "i \<le> j" and "j \<le> n" and "\<forall>a < i. \<not> P a" and "j < n \<longrightarrow> P j \<and> c = g j"
  shows "\<exists>r c'. sortSearch f i j c = Ok (r, c') \<and> r \<le> n \<and> (\<forall>a < r. \<not> P a)
    \<and> (r < n \<longrightarrow> P r \<and> c' = g r) \<and> (r = n \<longrightarrow> j = n \<and> c' = c)"
  using assms(3-6)
proof (induction "j - i" arbitrary: i j c rule: less_induct)
  case less
  show ?case
  proof (cases "i < j")
    case False
    then have "sortSearch f i j c = Ok (i, c)" by (simp add: sortSearch.simps [of f i j c])
    then show ?thesis using less.prems False by auto
  next
    case True
    define h where "h = (i + j) div 2"
    have h: "i \<le> h" "h < j" "h < n" using True less.prems(2) by (auto simp: h_def)
    show ?thesis
    proof (cases "P h")
      case True
      have "sortSearch f i j c = sortSearch f i h (g h)"
        using \<open>i < j\<close> True h by (simp add: sortSearch.simps [of f i j c] assms(1) h_def [symmetric])
      moreover have "h - i < j - i" using h by simp
      ultimately show ?thesis using less.hyps [of h i "g h"] less.prems h True by fastforce
    next
      case False
      then have "\<forall>a < h + 1. \<not> P a" using assms(2) h by (metis less_Suc_eq_le Suc_eq_plus1)
      moreover have "sortSearch f i j c = sortSearch f (h + 1) j c"
        using \<open>i < j\<close> False h by (simp add: sortSearch.simps [of f i j c] assms(1) h_def [symmetric])
      moreover have "j - (h + 1) < j - i" using h by simp
      ultimately show ?thesis using less.hyps [of j "h + 1" c] less.prems h by fastforce
    qed
  qed
qed

text \<open>Whatever the test, the search ends if the test does, and the captured variable is the initial
  one or one that a probe stored.\<close>

lemma sortSearch_total:
  assumes "\<And>h c. h < n \<Longrightarrow> f h c = Ok (P h, if P h then g h else c)" and "j \<le> n"
  shows "\<exists>r c'. sortSearch f i j c = Ok (r, c') \<and> (c' = c \<or> (\<exists>h < n. P h \<and> c' = g h))"
  using assms(2)
proof (induction "j - i" arbitrary: i j c rule: less_induct)
  case less
  show ?case
  proof (cases "i < j")
    case False
    then show ?thesis by (simp add: sortSearch.simps [of f i j c])
  next
    case True
    define h where "h = (i + j) div 2"
    have h: "i \<le> h" "h < j" "h < n" using True less.prems by (auto simp: h_def)
    have "sortSearch f i j c =
        (if P h then sortSearch f i h (g h) else sortSearch f (h + 1) j c)"
      using True h by (simp add: sortSearch.simps [of f i j c] assms(1) h_def [symmetric])
    moreover have "\<exists>r c'. sortSearch f i h (g h) = Ok (r, c') \<and> (c' = g h \<or> (\<exists>h < n. P h \<and> c' = g h))"
      using less.hyps [of h i "g h"] less.prems h by simp
    moreover have "\<exists>r c'. sortSearch f (h + 1) j c = Ok (r, c') \<and> (c' = c \<or> (\<exists>h < n. P h \<and> c' = g h))"
      using less.hyps [of j "h + 1" c] less.prems h by simp
    ultimately show ?thesis using h(3) by (cases "P h") auto
  qed
qed

section \<open>Amounts given to the bids in turn\<close>

text \<open>Each bid gets what it asks for, cut to what its bidder may still get.\<close>

fun allocs :: "(Bid \<Rightarrow> int) \<Rightarrow> (string \<Rightarrow> int) \<Rightarrow> Bid list \<Rightarrow> int list" where
  "allocs d cap [] = []"
| "allocs d cap (b # bs) =
     (let a = min (d b) (cap (bid_Bidder b))
      in a # allocs d (cap(bid_Bidder b := cap (bid_Bidder b) - a)) bs)"

definition demand :: "(Bid \<Rightarrow> int) \<Rightarrow> Bid list \<Rightarrow> string \<Rightarrow> int" where
  "demand d bs x = sum_list (map d (filter (\<lambda>b. bid_Bidder b = x) bs))"

definition givenTo :: "(Bid \<times> int) list \<Rightarrow> string \<Rightarrow> int" where
  "givenTo zs x = sum_list (map snd (filter (\<lambda>z. bid_Bidder (fst z) = x) zs))"

lemma length_allocs [simp]: "length (allocs d cap bs) = length bs"
  by (induction bs arbitrary: cap) (auto simp: Let_def)

lemma allocs_nonneg:
  "(\<And>b. b \<in> set bs \<Longrightarrow> 0 \<le> d b) \<Longrightarrow> (\<And>x. 0 \<le> cap x) \<Longrightarrow> a \<in> set (allocs d cap bs) \<Longrightarrow> 0 \<le> a"
proof (induction bs arbitrary: cap)
  case (Cons b bs)
  let ?cap = "cap(bid_Bidder b := cap (bid_Bidder b) - min (d b) (cap (bid_Bidder b)))"
  have "a = min (d b) (cap (bid_Bidder b)) \<or> a \<in> set (allocs d ?cap bs)"
    using Cons.prems(3) by (simp add: Let_def)
  then show ?case
  proof
    assume "a \<in> set (allocs d ?cap bs)"
    then show ?case by (rule Cons.IH [rotated 2]) (use Cons.prems in auto)
  qed (use Cons.prems in simp)
qed simp

lemma demand_nonneg: "(\<And>b. b \<in> set bs \<Longrightarrow> 0 \<le> d b) \<Longrightarrow> 0 \<le> demand d bs x"
  by (auto simp: demand_def intro: sum_list_nonneg_int)

lemma givenTo_allocs:
  assumes "\<And>b. b \<in> set bs \<Longrightarrow> 0 \<le> d b" and "\<And>x. 0 \<le> cap x"
  shows "givenTo (zip bs (allocs d cap bs)) x = min (cap x) (demand d bs x)"
  using assms
proof (induction bs arbitrary: cap)
  case Nil
  then show ?case by (simp add: givenTo_def demand_def)
next
  case (Cons b bs)
  define a where "a = min (d b) (cap (bid_Bidder b))"
  let ?cap = "cap(bid_Bidder b := cap (bid_Bidder b) - a)"
  have step: "allocs d cap (b # bs) = a # allocs d ?cap bs" by (simp add: a_def Let_def)
  have IH: "givenTo (zip bs (allocs d ?cap bs)) x = min (?cap x) (demand d bs x)"
    by (rule Cons.IH) (use Cons.prems in \<open>auto simp: a_def\<close>)
  have "0 \<le> demand d bs x" by (rule demand_nonneg) (use Cons.prems in auto)
  then show ?case
  proof (cases "bid_Bidder b = x")
    case True
    then have "givenTo (zip (b # bs) (allocs d cap (b # bs))) x = a + min (cap x - a) (demand d bs x)"
      using IH by (simp add: givenTo_def step del: allocs.simps)
    moreover have "demand d (b # bs) x = d b + demand d bs x" using True by (simp add: demand_def)
    ultimately show ?thesis using True \<open>0 \<le> demand d bs x\<close> by (auto simp: a_def)
  next
    case False
    then show ?thesis using IH by (simp add: givenTo_def demand_def step del: allocs.simps)
  qed
qed

lemma sum_list_by_bidder:
  assumes "finite A" and "bid_Bidder ` fst ` set zs \<subseteq> A"
  shows "sum_list (map snd zs) = (\<Sum>x \<in> A. givenTo zs x)"
  using assms(2)
proof (induction zs)
  case Nil
  then show ?case by (simp add: givenTo_def)
next
  case (Cons z zs)
  have "(\<Sum>x \<in> A. givenTo (z # zs) x)
      = (\<Sum>x \<in> A. (if x = bid_Bidder (fst z) then snd z else 0) + givenTo zs x)"
    by (rule sum.cong) (auto simp: givenTo_def)
  also have "\<dots> = snd z + (\<Sum>x \<in> A. givenTo zs x)"
    using Cons.prems assms(1) by (simp add: sum.distrib)
  finally show ?case using Cons by simp
qed

text \<open>The total sold: for each bidder the smaller of limit and demand, whatever the order.\<close>

definition totalSold :: "(Bid \<Rightarrow> int) \<Rightarrow> (string \<Rightarrow> int) \<Rightarrow> Bid list \<Rightarrow> int" where
  "totalSold d cap bs = (\<Sum>x \<in> bid_Bidder ` set bs. min (cap x) (demand d bs x))"

lemma sum_allocs:
  assumes "\<And>b. b \<in> set bs \<Longrightarrow> 0 \<le> d b" and "\<And>x. 0 \<le> cap x"
  shows "sum_list (allocs d cap bs) = totalSold d cap bs"
proof -
  have "sum_list (allocs d cap bs) = sum_list (map snd (zip bs (allocs d cap bs)))"
    by simp
  also have "\<dots> = (\<Sum>x \<in> bid_Bidder ` set bs. givenTo (zip bs (allocs d cap bs)) x)"
    by (rule sum_list_by_bidder) (auto dest: set_zip_leftD)
  also have "\<dots> = totalSold d cap bs"
    by (simp add: totalSold_def givenTo_allocs assms)
  finally show ?thesis .
qed

lemma demand_mset: "mset bs = mset bs' \<Longrightarrow> demand d bs x = demand d bs' x"
  by (simp add: demand_def sum_list_perm_int)

lemma totalSold_mset: "mset bs = mset bs' \<Longrightarrow> totalSold d cap bs = totalSold d cap bs'"
  using demand_mset [of bs bs' d] mset_eq_setD [of bs bs'] by (simp add: totalSold_def)

text \<open>More bids and larger demands never sell less.\<close>

lemma totalSold_mono:
  assumes "bs = filter P bs'" and "\<And>b. b \<in> set bs' \<Longrightarrow> 0 \<le> d' b"
    and "\<And>b. b \<in> set bs \<Longrightarrow> d b \<le> d' b" and "\<And>x. 0 \<le> cap x"
  shows "totalSold d cap bs \<le> totalSold d' cap bs'"
proof -
  have dem: "demand d bs x \<le> demand d' bs' x" for x
  proof -
    have "demand d bs x \<le> demand d' bs x"
      unfolding demand_def by (rule sum_list_mono_int) (use assms(3) in auto)
    also have "\<dots> \<le> demand d' bs' x"
      unfolding demand_def assms(1)
      using sum_list_map_filter_split [of d' "filter (\<lambda>b. bid_Bidder b = x) bs'" P]
      by (simp add: filter_filter conj_commute)
        (rule sum_list_nonneg_int, use assms(2) in auto)
    finally show ?thesis .
  qed
  have "totalSold d cap bs \<le> (\<Sum>x \<in> bid_Bidder ` set bs. min (cap x) (demand d' bs' x))"
    unfolding totalSold_def using dem by (intro sum_mono) (simp add: min.coboundedI2)
  also have "\<dots> \<le> totalSold d' cap bs'"
    unfolding totalSold_def
    by (rule sum_mono2) (use assms demand_nonneg [of bs' d'] in auto)
  finally show ?thesis .
qed

section \<open>The loop computes these amounts\<close>

definition limitOf :: "(string, int option) omap \<Rightarrow> string \<Rightarrow> int" where
  "limitOf m x = (case oget m x of Some (Some n) \<Rightarrow> n | _ \<Rightarrow> 0)"

definition hasLimit :: "(string, int option) omap \<Rightarrow> string \<Rightarrow> bool" where
  "hasLimit m x \<longleftrightarrow> (\<exists>n. oget m x = Some (Some n))"

definition isBatchBid :: "Bid \<Rightarrow> bool" where
  "isBatchBid b \<longleftrightarrow> bid_Type b = BidTypeBatchWorth \<or> bid_Type b = BidTypeBatchMany"

text \<open>The demand of a bid at a price in whole numbers: a worth bid buys what its coins pay for.\<close>

definition askAt :: "dec \<Rightarrow> Bid \<Rightarrow> int" where
  "askAt mp b =
     (if bid_Type b = BidTypeBatchWorth then Amount (bid_Coin b) * decUnit div mant mp
      else Amount (bid_Coin b))"

definition payFor :: "dec \<Rightarrow> int \<Rightarrow> int" where
  "payFor mp a = - (- (mant mp * a) div decUnit)"

text \<open>What one bid adds to the result.\<close>

definition accum :: "dec \<Rightarrow> Bid \<times> int \<Rightarrow> MatchResult \<Rightarrow> MatchResult" where
  "accum mp z res =
     (let (b, a) = z;
          r = (case oget (mr_MatchResultByBidder res) (bid_Bidder b) of
                 None \<Rightarrow> \<lparr> bmr_PayingAmount = 0, bmr_MatchedAmount = 0 \<rparr> | Some r \<Rightarrow> r)
      in res\<lparr> mr_MatchResultByBidder := oset (bid_Bidder b)
                \<lparr> bmr_PayingAmount = bmr_PayingAmount r + payFor mp a,
                  bmr_MatchedAmount = bmr_MatchedAmount r + a \<rparr> (mr_MatchResultByBidder res),
              mr_MatchedBids := mr_MatchedBids res @ (if 0 < a then [b] else []),
              mr_MatchedAmount := mr_MatchedAmount res + a \<rparr>)"

text \<open>The condition on bids and limits under which the loop does not run into a nil amount: every
  bid is a batch bid for a non-negative amount and its bidder's text form has a limit.\<close>

definition matchable :: "(string, int option) omap \<Rightarrow> Bid list \<Rightarrow> bool" where
  "matchable m bs \<longleftrightarrow>
     (\<forall>b \<in> set bs. isBatchBid b \<and> 0 \<le> Amount (bid_Coin b) \<and> hasLimit m (bid_Bidder b))
   \<and> (\<forall>x. 0 \<le> limitOf m x)"

lemma askAt_nonneg: "0 \<le> Amount (bid_Coin b) \<Longrightarrow> 0 < mant mp \<Longrightarrow> 0 \<le> askAt mp b"
  by (simp add: askAt_def pos_imp_zdiv_nonneg_iff)

lemma limitOf_oset: "limitOf (oset x (Some n) m) = (limitOf m)(x := n)"
  by (auto simp: limitOf_def fun_eq_iff)

lemma hasLimit_oset: "hasLimit m y \<Longrightarrow> hasLimit (oset x (Some n) m) y"
  by (simp add: hasLimit_def)

lemma hasLimit_get: "hasLimit m x \<Longrightarrow> oget m x = Some (Some (limitOf m x))"
  by (auto simp: hasLimit_def limitOf_def)

text \<open>The demand does not grow with the price.\<close>

lemma askAt_antimono:
  assumes "0 < mant p" and "p \<le> q" and "0 \<le> Amount (bid_Coin b)"
  shows "askAt q b \<le> askAt p b"
  using assms by (auto simp: askAt_def less_eq_dec_def intro: zdiv_mono2)

context dec_laws
begin

lemma bidAmtAt_eq:
  assumes "isBatchBid b" and "0 \<le> Amount (bid_Coin b)" and "0 < mant mp"
  shows "bidAmtAt S mp b = Some (askAt mp b)"
  using assms by (auto simp: isBatchBid_def bidAmtAt_def askAt_def TruncateInt_QuoTruncate)

lemma payFor_eq:
  assumes "0 < mant mp" and "0 \<le> a"
  shows "DecTruncateInt S (DecCeil S (DecMulInt S mp a)) = payFor mp a"
  using assms by (simp add: DecMulInt_law TruncateInt_Ceil payFor_def)

lemma matchBid_eq:
  assumes "matchable m [b]" and "0 < mant mp"
  defines "a \<equiv> min (askAt mp b) (limitOf m (bid_Bidder b))"
  shows "matchBid S mp sell b (res, m, f) =
    Ok (if sell < mr_MatchedAmount res + a then None
        else Some (accum mp (b, a) res,
          if 0 < a then oset (bid_Bidder b) (Some (limitOf m (bid_Bidder b) - a)) m else m,
          f \<or> 0 < a))"
proof -
  have b: "isBatchBid b" "0 \<le> Amount (bid_Coin b)"
      "oget m (bid_Bidder b) = Some (Some (limitOf m (bid_Bidder b)))" "0 \<le> limitOf m (bid_Bidder b)"
    using assms(1) by (auto simp: matchable_def hasLimit_get)
  then have a: "0 \<le> a" using assms(2) by (simp add: a_def askAt_nonneg)
  have "MinInt S (bidAmtAt S mp b) (Some (limitOf m (bid_Bidder b))) = Some a"
    using b assms(2) by (simp add: bidAmtAt_eq MinInt_law a_def)
  then show ?thesis
    using a b assms(2) unfolding matchBid_def accum_def
    by (auto simp: payFor_eq Let_def split: option.splits)
qed

lemma matchBids_eq:
  assumes "matchable m bs" and "0 < mant mp" and "mr_MatchedAmount res \<le> sell"
  defines "as \<equiv> allocs (askAt mp) (limitOf m) bs"
  shows "\<exists>m'. matchBids S mp sell bs (res, m, f) =
    Ok (if sell < mr_MatchedAmount res + sum_list as then None
        else Some (fold (accum mp) (zip bs as) res, m', f \<or> (\<exists>a \<in> set as. 0 < a)))"
  using assms(1,3) unfolding as_def
proof (induction bs arbitrary: m res f)
  case Nil
  then show ?case by auto
next
  case (Cons b bs)
  define a where "a = min (askAt mp b) (limitOf m (bid_Bidder b))"
  define m' where "m' = (if 0 < a then oset (bid_Bidder b) (Some (limitOf m (bid_Bidder b) - a)) m else m)"
  let ?as = "allocs (askAt mp) (limitOf m') bs"
  have a0: "0 \<le> a" using Cons.prems(1) assms(2) by (simp add: a_def askAt_nonneg matchable_def)
  have lim: "limitOf m' = (limitOf m)(bid_Bidder b := limitOf m (bid_Bidder b) - a)"
    using a0 by (auto simp: m'_def limitOf_oset)
  then have as: "allocs (askAt mp) (limitOf m) (b # bs) = a # ?as"
    by (simp add: a_def Let_def)
  have "\<forall>x. 0 \<le> limitOf m' x" using Cons.prems(1) by (simp add: lim matchable_def a_def)
  moreover have "\<And>x. hasLimit m x \<Longrightarrow> hasLimit m' x" by (simp add: m'_def hasLimit_oset)
  ultimately have m': "matchable m' bs"
    using Cons.prems(1) by (simp add: matchable_def)
  have rest: "0 \<le> sum_list ?as"
  proof (rule sum_list_nonneg)
    fix x
    assume x: "x \<in> set ?as"
    show "0 \<le> x"
      by (rule allocs_nonneg [OF _ _ x]) (use m' assms(2) in \<open>auto simp: matchable_def askAt_nonneg\<close>)
  qed
  have step: "matchBid S mp sell b (res, m, f) =
      Ok (if sell < mr_MatchedAmount res + a then None
          else Some (accum mp (b, a) res, m', f \<or> 0 < a))"
    using Cons.prems(1) assms(2) unfolding a_def m'_def by (intro matchBid_eq) (auto simp: matchable_def)
  show ?case
  proof (cases "sell < mr_MatchedAmount res + a")
    case True
    then show ?thesis using rest by (simp add: step as del: allocs.simps)
  next
    case False
    have "mr_MatchedAmount (accum mp (b, a) res) = mr_MatchedAmount res + a"
      by (simp add: accum_def Let_def)
    with False Cons.IH [OF m', of "accum mp (b, a) res" "f \<or> 0 < a"] show ?thesis
      by (auto simp: step as add.assoc simp del: allocs.simps)
  qed
qed

end

section \<open>The result of the loop\<close>

lemma fold_accum_amount:
  "mr_MatchedAmount (fold (accum mp) zs res) = mr_MatchedAmount res + sum_list (map snd zs)"
  by (induction zs arbitrary: res) (auto simp: accum_def Let_def split: prod.splits)

lemma fold_accum_bids:
  "mr_MatchedBids (fold (accum mp) zs res) =
     mr_MatchedBids res @ map fst (filter (\<lambda>z. 0 < snd z) zs)"
  by (induction zs arbitrary: res) (auto simp: accum_def Let_def split: prod.splits)

lemma fold_accum_price: "mr_MatchPrice (fold (accum mp) zs res) = mr_MatchPrice res"
  by (induction zs arbitrary: res) (auto simp: accum_def Let_def split: prod.splits)

text \<open>What a bidder is charged: each of his bids is charged the price of its amount, rounded up.\<close>

definition chargedTo :: "dec \<Rightarrow> (Bid \<times> int) list \<Rightarrow> string \<Rightarrow> int" where
  "chargedTo mp zs x =
     sum_list (map (\<lambda>z. payFor mp (snd z)) (filter (\<lambda>z. bid_Bidder (fst z) = x) zs))"

lemma fold_accum_bidders:
  "oget (mr_MatchResultByBidder (fold (accum mp) zs res)) x =
     (if x \<in> bid_Bidder ` fst ` set zs
      then Some (let r = (case oget (mr_MatchResultByBidder res) x of
             None \<Rightarrow> \<lparr> bmr_PayingAmount = 0, bmr_MatchedAmount = 0 \<rparr> | Some r \<Rightarrow> r)
        in \<lparr> bmr_PayingAmount = bmr_PayingAmount r + chargedTo mp zs x,
             bmr_MatchedAmount = bmr_MatchedAmount r + givenTo zs x \<rparr>)
      else oget (mr_MatchResultByBidder res) x)"
proof (induction zs arbitrary: res)
  case Nil
  then show ?case by simp
next
  case (Cons z zs)
  obtain b a where z: "z = (b, a)" by (cases z)
  have "filter (\<lambda>z. bid_Bidder (fst z) = x) zs = []" if "x \<notin> bid_Bidder ` fst ` set zs"
    using that by (auto simp: filter_empty_conv)
  then have none: "givenTo zs x = 0" "chargedTo mp zs x = 0" if "x \<notin> bid_Bidder ` fst ` set zs"
    using that by (simp_all add: givenTo_def chargedTo_def)
  show ?case
    using Cons [of "accum mp z res"] none
    by (auto simp: z accum_def Let_def givenTo_def chargedTo_def split: option.splits)
qed

section \<open>Matching at a price\<close>

lemma matchBids_append:
  "matchBids S mp sell (xs @ ys) st =
     bindR (matchBids S mp sell xs st)
       (\<lambda>r. case r of None \<Rightarrow> Ok None | Some st' \<Rightarrow> matchBids S mp sell ys st')"
proof (induction xs arbitrary: st)
  case (Cons b xs)
  show ?case
  proof (cases "matchBid S mp sell b st")
    case (Ok r)
    then show ?thesis by (cases r) (simp_all add: Cons.IH)
  qed simp_all
qed simp

text \<open>The bids that take part at a price, in the order of the loop.\<close>

definition eligible ::
    "'a sdk_math_scheme \<Rightarrow> (string, Bid list) omap \<Rightarrow> dec list \<Rightarrow> dec \<Rightarrow> Bid list" where
  "eligible S groups prices mp = concat (map (bidsAt S groups) (takeWhile (\<lambda>p. \<not> p < mp) prices))"

lemma matchPrices_eq:
  "matchPrices S mp sell groups prices st = matchBids S mp sell (eligible S groups prices mp) st"
proof (induction prices arbitrary: st)
  case (Cons p ps)
  show ?case
  proof (cases "p < mp")
    case False
    then have "eligible S groups (p # ps) mp = bidsAt S groups p @ eligible S groups ps mp"
      by (simp add: eligible_def)
    moreover have "matchPrices S mp sell groups ps = matchBids S mp sell (eligible S groups ps mp)"
      by (rule ext) (rule Cons.IH)
    ultimately show ?thesis using False by (simp add: matchBids_append)
  qed (simp add: eligible_def)
qed (simp add: eligible_def)

lemma takeWhile_descending:
  fixes ps :: "('x::linorder) list"
  shows "sorted_wrt (>) ps \<Longrightarrow> takeWhile (\<lambda>p. \<not> p < x) ps = filter (\<lambda>p. x \<le> p) ps"
proof (induction ps)
  case (Cons p ps)
  then have "p < x \<Longrightarrow> filter (\<lambda>q. x \<le> q) ps = []"
    by (auto simp: filter_empty_conv not_le intro: less_trans)
  with Cons show ?case by (auto simp: not_less)
qed simp

lemma mset_concat_groups:
  assumes "distinct ps"
  shows "mset (concat (map (\<lambda>p. filter (\<lambda>b. f b = p) bs) ps)) = mset (filter (\<lambda>b. f b \<in> set ps) bs)"
  using assms
proof (induction ps)
  case (Cons p ps)
  have "mset (filter (\<lambda>b. f b = p \<or> f b \<in> set ps) bs)
      = mset (filter (\<lambda>b. f b = p) bs) + mset (filter (\<lambda>b. f b \<in> set ps) bs)"
    if "p \<notin> set ps" for bs
    using that by (induction bs) auto
  with Cons show ?case by simp
qed simp

lemma mset_filter_cong: "mset xs = mset ys \<Longrightarrow> mset (filter P xs) = mset (filter P ys)"
  by (simp add: mset_filter)

definition soldAt :: "(string, int option) omap \<Rightarrow> Bid list \<Rightarrow> dec \<Rightarrow> int" where
  "soldAt m bids mp = totalSold (askAt mp) (limitOf m) (filter (\<lambda>b. mp \<le> bid_Price b) bids)"

lemma matchable_subset: "matchable m bs \<Longrightarrow> set bs' \<subseteq> set bs \<Longrightarrow> matchable m bs'"
  by (auto simp: matchable_def)

lemma soldAt_antimono:
  assumes "matchable m bids" and "0 < mant p" and "p \<le> q"
  shows "soldAt m bids q \<le> soldAt m bids p"
  unfolding soldAt_def
proof (rule totalSold_mono)
  show "filter (\<lambda>b. q \<le> bid_Price b) bids
      = filter (\<lambda>b. q \<le> bid_Price b) (filter (\<lambda>b. p \<le> bid_Price b) bids)"
    using assms(3) by (auto intro!: filter_cong)
qed (use assms in \<open>auto simp: matchable_def askAt_nonneg askAt_antimono\<close>)

lemma soldAt_nonneg:
  assumes "matchable m bids" and "0 < mant p"
  shows "0 \<le> soldAt m bids p"
  unfolding soldAt_def totalSold_def
  by (intro sum_nonneg) (use assms in \<open>auto simp: matchable_def askAt_nonneg intro!: demand_nonneg\<close>)

lemma sum_list_pos_iff:
  fixes xs :: "int list"
  assumes "\<And>x. x \<in> set xs \<Longrightarrow> 0 \<le> x"
  shows "0 < sum_list xs \<longleftrightarrow> (\<exists>x \<in> set xs. 0 < x)"
  using assms
proof (induction xs)
  case (Cons x xs)
  then have "0 \<le> sum_list xs" and "0 \<le> x" by (simp_all add: sum_list_nonneg)
  then have "0 < sum_list (x # xs) \<longleftrightarrow> 0 < x \<or> 0 < sum_list xs" by auto
  with Cons show ?case by simp
qed simp

text \<open>The result of a match that fits.\<close>

definition matchResultOf :: "(string, int option) omap \<Rightarrow> dec \<Rightarrow> Bid list \<Rightarrow> MatchResult" where
  "matchResultOf m mp el =
     fold (accum mp) (zip el (allocs (askAt mp) (limitOf m) el)) (initMatchResult (Some mp))"

context bid_laws
begin

lemma eligible_mset:
  assumes "BidsByPrice S bids = Ok (prices, groups)"
  shows "mset (eligible S groups prices mp) = mset (filter (\<lambda>b. mp \<le> bid_Price b) bids)"
proof -
  obtain prices' groups' where "BidsByPrice S bids = Ok (prices', groups')"
    and set: "set prices' = bid_Price ` set bids" and desc: "sorted_wrt (>) prices'"
    and grp: "\<And>p. bidsAt S groups' p = filter (\<lambda>b. bid_Price b = p) (SortBids S bids)"
    using BidsByPrice_spec [of bids] by blast
  then have eq: "prices' = prices" "groups' = groups" using assms by auto
  have grp': "bidsAt S groups = (\<lambda>p. filter (\<lambda>b. bid_Price b = p) (SortBids S bids))"
    using grp eq by auto
  have "distinct prices" using desc eq by (metis strict_sorted_iff sorted_wrt_rev distinct_rev)
  then have "mset (eligible S groups prices mp)
      = mset (filter (\<lambda>b. bid_Price b \<in> set (filter (\<lambda>p. mp \<le> p) prices)) (SortBids S bids))"
    using desc eq mset_concat_groups [of "filter (\<lambda>p. mp \<le> p) prices" bid_Price "SortBids S bids"]
    by (simp add: eligible_def takeWhile_descending grp')
  also have "\<dots> = mset (filter (\<lambda>b. bid_Price b \<in> set (filter (\<lambda>p. mp \<le> p) prices)) bids)"
    by (rule mset_filter_cong) (rule SortBids_perm)
  also have "filter (\<lambda>b. bid_Price b \<in> set (filter (\<lambda>p. mp \<le> p) prices)) bids
      = filter (\<lambda>b. mp \<le> bid_Price b) bids"
    using set eq by (auto intro!: filter_cong)
  finally show ?thesis .
qed

lemma Match_eq:
  assumes "BidsByPrice S bids = Ok (prices, groups)" and "matchable (biddableMap allowed) bids"
    and "0 < mant mp" and "0 \<le> sell"
  shows "Match S mp prices groups sell allowed =
    Ok (if soldAt (biddableMap allowed) bids mp \<le> sell
        then (Some (matchResultOf (biddableMap allowed) mp (eligible S groups prices mp)),
              0 < soldAt (biddableMap allowed) bids mp)
        else (None, False))"
proof -
  let ?m = "biddableMap allowed" and ?el = "eligible S groups prices mp"
  let ?as = "allocs (askAt mp) (limitOf ?m) ?el"
  have el: "mset ?el = mset (filter (\<lambda>b. mp \<le> bid_Price b) bids)"
    using assms(1) by (rule eligible_mset)
  then have "set ?el \<subseteq> set bids" using mset_eq_setD [OF el] by auto
  with assms(2) have ok: "matchable ?m ?el" by (rule matchable_subset)
  have ask: "\<And>b. b \<in> set ?el \<Longrightarrow> 0 \<le> askAt mp b" and lim: "\<And>x. 0 \<le> limitOf ?m x"
    using ok assms(3) by (auto simp: matchable_def askAt_nonneg)
  have total: "sum_list ?as = soldAt ?m bids mp"
    unfolding soldAt_def totalSold_mset [OF el, symmetric] by (rule sum_allocs [OF ask lim])
  have "0 < sum_list ?as \<longleftrightarrow> (\<exists>a \<in> set ?as. 0 < a)"
    by (rule sum_list_pos_iff) (rule allocs_nonneg [OF ask lim])
  moreover obtain m' where "matchBids S mp sell ?el (initMatchResult (Some mp), ?m, False) =
      Ok (if sell < mr_MatchedAmount (initMatchResult (Some mp)) + sum_list ?as then None
          else Some (matchResultOf ?m mp ?el, m', False \<or> (\<exists>a \<in> set ?as. 0 < a)))"
    using matchBids_eq [OF ok assms(3), of "initMatchResult (Some mp)" sell False] assms(4)
    unfolding matchResultOf_def by (auto simp: initMatchResult_def)
  ultimately show ?thesis
    by (simp add: Match_def matchPrices_eq total initMatchResult_def)
qed

end

text \<open>Reading the result: the total, the price, and each bidder's share.\<close>

lemma matchResultOf_simps:
  assumes "matchable m el" and "0 < mant mp"
  shows "mr_MatchPrice (matchResultOf m mp el) = Some mp"
    and "mr_MatchedAmount (matchResultOf m mp el) = totalSold (askAt mp) (limitOf m) el"
    and "oget (mr_MatchResultByBidder (matchResultOf m mp el)) x =
      (if x \<in> bid_Bidder ` set el
       then Some \<lparr> bmr_PayingAmount = chargedTo mp (zip el (allocs (askAt mp) (limitOf m) el)) x,
                   bmr_MatchedAmount = min (limitOf m x) (demand (askAt mp) el x) \<rparr>
       else None)"
proof -
  have ask: "\<And>b. b \<in> set el \<Longrightarrow> 0 \<le> askAt mp b" and lim: "\<And>x. 0 \<le> limitOf m x"
    using assms by (auto simp: matchable_def askAt_nonneg)
  show "mr_MatchPrice (matchResultOf m mp el) = Some mp"
    by (simp add: matchResultOf_def fold_accum_price initMatchResult_def)
  show "mr_MatchedAmount (matchResultOf m mp el) = totalSold (askAt mp) (limitOf m) el"
    by (simp add: matchResultOf_def fold_accum_amount initMatchResult_def sum_allocs [OF ask lim])
  have "fst ` set (zip el (allocs (askAt mp) (limitOf m) el)) = set el"
    by (metis length_allocs list.set_map map_fst_zip)
  then show "oget (mr_MatchResultByBidder (matchResultOf m mp el)) x =
      (if x \<in> bid_Bidder ` set el
       then Some \<lparr> bmr_PayingAmount = chargedTo mp (zip el (allocs (askAt mp) (limitOf m) el)) x,
                   bmr_MatchedAmount = min (limitOf m x) (demand (askAt mp) el x) \<rparr>
       else None)"
    by (simp add: matchResultOf_def fold_accum_bidders initMatchResult_def givenTo_allocs [OF ask lim])
qed

text \<open>The same in terms of the bids: their order does not matter.\<close>

context bid_laws
begin

lemma matchResult_of_bids:
  assumes "BidsByPrice S bids = Ok (prices, groups)" and "matchable m bids" and "0 < mant mp"
  shows "mr_MatchPrice (matchResultOf m mp (eligible S groups prices mp)) = Some mp"
    and "mr_MatchedAmount (matchResultOf m mp (eligible S groups prices mp)) = soldAt m bids mp"
    and "map_option bmr_MatchedAmount
        (oget (mr_MatchResultByBidder (matchResultOf m mp (eligible S groups prices mp))) x) =
      (if \<exists>b \<in> set bids. bid_Bidder b = x \<and> mp \<le> bid_Price b
       then Some (min (limitOf m x) (demand (askAt mp) (filter (\<lambda>b. mp \<le> bid_Price b) bids) x))
       else None)"
proof -
  let ?el = "eligible S groups prices mp"
  have el: "mset ?el = mset (filter (\<lambda>b. mp \<le> bid_Price b) bids)"
    using assms(1) by (rule eligible_mset)
  then have set: "set ?el = set (filter (\<lambda>b. mp \<le> bid_Price b) bids)" by (rule mset_eq_setD)
  then have ok: "matchable m ?el" using assms(2) by (auto intro: matchable_subset)
  have "x \<in> bid_Bidder ` set ?el \<longleftrightarrow> (\<exists>b \<in> set bids. bid_Bidder b = x \<and> mp \<le> bid_Price b)"
    using set by auto
  then show "map_option bmr_MatchedAmount (oget (mr_MatchResultByBidder (matchResultOf m mp ?el)) x) =
      (if \<exists>b \<in> set bids. bid_Bidder b = x \<and> mp \<le> bid_Price b
       then Some (min (limitOf m x) (demand (askAt mp) (filter (\<lambda>b. mp \<le> bid_Price b) bids) x))
       else None)"
    by (simp add: matchResultOf_simps [OF ok assms(3)] demand_mset [OF el])
  show "mr_MatchPrice (matchResultOf m mp ?el) = Some mp"
    by (rule matchResultOf_simps(1) [OF ok assms(3)])
  show "mr_MatchedAmount (matchResultOf m mp ?el) = soldAt m bids mp"
    by (simp add: matchResultOf_simps [OF ok assms(3)] soldAt_def totalSold_mset [OF el])
qed

end

section \<open>What a bidder is charged is covered by what his bids reserved\<close>

text \<open>A worth bid is stated in the paying coin, a many bid in another coin.\<close>

definition wellDenominated :: "denom \<Rightarrow> Bid \<Rightarrow> bool" where
  "wellDenominated pd b \<longleftrightarrow> 0 \<le> Amount (bid_Coin b) \<and> 0 < mant (bid_Price b)
     \<and> (bid_Type b = BidTypeBatchWorth \<longleftrightarrow> Denom (bid_Coin b) = pd)"

lemma allocs_le:
  "(b, a) \<in> set (zip bs (allocs d cap bs)) \<Longrightarrow> a \<le> d b"
  by (induction bs arbitrary: cap) (auto simp: Let_def)

context dec_laws
begin

lemma payFor_le_reserved:
  assumes "wellDenominated pd b" and "0 < mant mp" and "mp \<le> bid_Price b" and "a \<le> askAt mp b"
  shows "payFor mp a \<le> ConvertToPayingAmount S b pd"
proof (cases "bid_Type b = BidTypeBatchWorth")
  case True
  have "mant mp * a \<le> mant mp * (Amount (bid_Coin b) * decUnit div mant mp)"
    using assms(2,4) True by (simp add: askAt_def)
  also have "\<dots> \<le> Amount (bid_Coin b) * decUnit"
    using assms(2) by (simp add: minus_mod_eq_mult_div [symmetric])
  finally have "payFor mp a \<le> Amount (bid_Coin b)"
    unfolding payFor_def by (rule ceil_div_least [OF decUnit_pos(1)])
  then show ?thesis
    using assms(1) True by (simp add: wellDenominated_def ConvertToPayingAmount_eq)
next
  case False
  have "mant mp * a \<le> mant (bid_Price b) * Amount (bid_Coin b)"
    using assms False by (intro order_trans [OF mult_left_mono mult_right_mono])
      (auto simp: askAt_def wellDenominated_def less_eq_dec_def)
  then have "payFor mp a \<le> - (- (Amount (bid_Coin b) * mant (bid_Price b)) div decUnit)"
    unfolding payFor_def by (intro ceil_div_mono) (simp_all add: mult.commute)
  then show ?thesis
    using assms(1) False by (simp add: wellDenominated_def ConvertToPayingAmount_eq)
qed

end

text \<open>What the bids of a bidder reserved.\<close>

definition reservedBy :: "'a sdk_math_scheme \<Rightarrow> denom \<Rightarrow> Bid list \<Rightarrow> string \<Rightarrow> int" where
  "reservedBy S pd bs x =
     sum_list (map (\<lambda>b. ConvertToPayingAmount S b pd) (filter (\<lambda>b. bid_Bidder b = x) bs))"

context dec_laws
begin

lemma charged_le_reserved:
  assumes "\<And>b. b \<in> set bs \<Longrightarrow> wellDenominated pd b \<and> mp \<le> bid_Price b" and "0 < mant mp"
  shows "chargedTo mp (zip bs (allocs (askAt mp) cap bs)) x \<le> reservedBy S pd bs x"
  using assms(1)
proof (induction bs arbitrary: cap)
  case Nil
  then show ?case by (simp add: chargedTo_def reservedBy_def)
next
  case (Cons b bs)
  define a where "a = min (askAt mp b) (cap (bid_Bidder b))"
  define cap' where "cap' = cap(bid_Bidder b := cap (bid_Bidder b) - a)"
  have as: "allocs (askAt mp) cap (b # bs) = a # allocs (askAt mp) cap' bs"
    by (simp add: a_def cap'_def Let_def)
  have "payFor mp a \<le> ConvertToPayingAmount S b pd"
    by (rule payFor_le_reserved) (use Cons.prems [of b] assms(2) in \<open>auto simp: a_def\<close>)
  moreover have "chargedTo mp (zip bs (allocs (askAt mp) cap' bs)) x \<le> reservedBy S pd bs x"
    by (rule Cons.IH) (use Cons.prems in auto)
  ultimately show ?case
    by (auto simp: as chargedTo_def reservedBy_def simp del: allocs.simps)
qed

lemma reservedBy_nonneg:
  assumes "\<And>b. b \<in> set bs \<Longrightarrow> wellDenominated pd b"
  shows "0 \<le> reservedBy S pd bs x"
  unfolding reservedBy_def
  by (rule sum_list_nonneg_int) (use assms in \<open>force simp: wellDenominated_def intro!: ConvertToPayingAmount_nonneg\<close>)

text \<open>Fewer bids reserve less.\<close>

lemma reservedBy_filter_le:
  assumes "\<And>b. b \<in> set bs \<Longrightarrow> wellDenominated pd b"
  shows "reservedBy S pd (filter P bs) x \<le> reservedBy S pd bs x"
proof -
  let ?f = "\<lambda>b. ConvertToPayingAmount S b pd"
  have "reservedBy S pd bs x = reservedBy S pd (filter P bs) x + reservedBy S pd (filter (\<lambda>b. \<not> P b) bs) x"
    using sum_list_map_filter_split [of ?f "filter (\<lambda>b. bid_Bidder b = x) bs" P]
    by (simp add: reservedBy_def conj_commute)
  moreover have "0 \<le> reservedBy S pd (filter (\<lambda>b. \<not> P b) bs) x"
    by (rule reservedBy_nonneg) (use assms in auto)
  ultimately show ?thesis by simp
qed

lemma reservedBy_mset: "mset bs = mset bs' \<Longrightarrow> reservedBy S pd bs x = reservedBy S pd bs' x"
  by (simp add: reservedBy_def sum_list_perm_int)

end

text \<open>The charge covers the price of what was given, and is never negative.\<close>

lemma charged_covers: "mant mp * givenTo zs x \<le> chargedTo mp zs x * decUnit"
proof (induction zs)
  case (Cons z zs)
  have "mant mp * snd z \<le> payFor mp (snd z) * decUnit"
    using ceil_div_props(1) [OF decUnit_pos(1), of "mant mp * snd z"] by (simp add: payFor_def)
  then show ?case using Cons by (auto simp: givenTo_def chargedTo_def algebra_simps)
qed (simp add: givenTo_def chargedTo_def)

lemma payFor_nonneg: "0 \<le> mant mp \<Longrightarrow> 0 \<le> a \<Longrightarrow> 0 \<le> payFor mp a"
  using ceil_div_mono [OF decUnit_pos(1), of 0 "mant mp * a"] by (simp add: payFor_def)

lemma chargedTo_nonneg:
  "0 \<le> mant mp \<Longrightarrow> (\<And>z. z \<in> set zs \<Longrightarrow> 0 \<le> snd z) \<Longrightarrow> 0 \<le> chargedTo mp zs x"
  unfolding chargedTo_def by (rule sum_list_nonneg_int) (auto intro: payFor_nonneg)

text \<open>What the loop leaves for each bidder, in terms of the bids.\<close>

context bid_laws
begin

lemma matched_bidder:
  assumes "BidsByPrice S bids = Ok (prices, groups)" and "matchable (biddableMap allowed) bids"
    and "0 < mant mp" and "\<forall>b \<in> set bids. wellDenominated pd b"
    and "oget (mr_MatchResultByBidder
        (matchResultOf (biddableMap allowed) mp (eligible S groups prices mp))) x = Some br"
  shows "x \<in> bid_Bidder ` set bids"
    and "bmr_MatchedAmount br = min (limitOf (biddableMap allowed) x)
        (demand (askAt mp) (filter (\<lambda>b. mp \<le> bid_Price b) bids) x)"
    and "0 \<le> bmr_PayingAmount br" and "bmr_PayingAmount br \<le> reservedBy S pd bids x"
    and "mant mp * bmr_MatchedAmount br \<le> bmr_PayingAmount br * decUnit"
proof -
  let ?m = "biddableMap allowed" and ?el = "eligible S groups prices mp"
  let ?as = "allocs (askAt mp) (limitOf ?m) ?el"
  have el: "mset ?el = mset (filter (\<lambda>b. mp \<le> bid_Price b) bids)"
    using assms(1) by (rule eligible_mset)
  then have set: "set ?el = set (filter (\<lambda>b. mp \<le> bid_Price b) bids)" by (rule mset_eq_setD)
  then have ok: "matchable ?m ?el" using assms(2) by (auto intro: matchable_subset)
  have ask: "\<And>b. b \<in> set ?el \<Longrightarrow> 0 \<le> askAt mp b" and lim: "\<And>x. 0 \<le> limitOf ?m x"
    using ok assms(3) by (auto simp: matchable_def askAt_nonneg)
  have x: "x \<in> bid_Bidder ` set ?el"
    and br: "br = \<lparr> bmr_PayingAmount = chargedTo mp (zip ?el ?as) x,
                   bmr_MatchedAmount = min (limitOf ?m x) (demand (askAt mp) ?el x) \<rparr>"
    using assms(5) by (simp_all add: matchResultOf_simps [OF ok assms(3)] split: if_splits)
  show "x \<in> bid_Bidder ` set bids" using x set by auto
  show "bmr_MatchedAmount br = min (limitOf ?m x)
      (demand (askAt mp) (filter (\<lambda>b. mp \<le> bid_Price b) bids) x)"
    by (simp add: br demand_mset [OF el])
  have "0 \<le> snd z" if "z \<in> set (zip ?el ?as)" for z
  proof -
    have "snd z \<in> set ?as" using that by (metis prod.collapse set_zip_rightD)
    then show ?thesis using ask lim allocs_nonneg by blast
  qed
  then show "0 \<le> bmr_PayingAmount br" using assms(3) by (simp add: br chargedTo_nonneg)
  have "chargedTo mp (zip ?el ?as) x \<le> reservedBy S pd ?el x"
    by (rule charged_le_reserved) (use assms(3,4) set in auto)
  also have "\<dots> = reservedBy S pd (filter (\<lambda>b. mp \<le> bid_Price b) bids) x" by (rule reservedBy_mset [OF el])
  also have "\<dots> \<le> reservedBy S pd bids x" by (rule reservedBy_filter_le) (use assms(4) in auto)
  finally show "bmr_PayingAmount br \<le> reservedBy S pd bids x" by (simp add: br)
  show "mant mp * bmr_MatchedAmount br \<le> bmr_PayingAmount br * decUnit"
    using charged_covers [of mp "zip ?el ?as" x] by (simp add: br givenTo_allocs [OF ask lim])
qed

end

section \<open>The matching price\<close>

text \<open>A price fits when its bids sell something and not more than is for sale.\<close>

definition priceFits :: "(string, int option) omap \<Rightarrow> Bid list \<Rightarrow> int \<Rightarrow> dec \<Rightarrow> bool" where
  "priceFits m bids sell p \<longleftrightarrow> soldAt m bids p \<le> sell \<and> 0 < soldAt m bids p"

text \<open>The price with index \<open>h\<close> in ascending order.\<close>

definition ascending :: "dec list \<Rightarrow> nat \<Rightarrow> dec" where
  "ascending prices h = prices ! (length prices - 1 - h)"

lemma ascending_mem: "h < length prices \<Longrightarrow> ascending prices h \<in> set prices"
  by (simp add: ascending_def)

lemma ascending_less:
  "sorted_wrt (>) prices \<Longrightarrow> a < b \<Longrightarrow> b < length prices \<Longrightarrow> ascending prices a < ascending prices b"
  using sorted_wrt_nth_less [of "(>)" prices "length prices - 1 - b" "length prices - 1 - a"]
  by (simp add: ascending_def)

lemma ascending_surj:
  assumes "p \<in> set prices"
  obtains h where "h < length prices" and "ascending prices h = p"
proof -
  from assms obtain i where "i < length prices" and "prices ! i = p" by (metis in_set_conv_nth)
  then show thesis by (intro that [of "length prices - 1 - i"]) (auto simp: ascending_def)
qed

context bid_laws
begin

lemma BidsByPrice_prices:
  assumes "BidsByPrice S bids = Ok (prices, groups)"
  shows "set prices = bid_Price ` set bids" and "sorted_wrt (>) prices"
proof -
  obtain prices' groups' where "BidsByPrice S bids = Ok (prices', groups')"
    and "set prices' = bid_Price ` set bids" and "sorted_wrt (>) prices'"
    by (rule BidsByPrice_spec [of bids])
  then show "set prices = bid_Price ` set bids" and "sorted_wrt (>) prices"
    using assms by simp_all
qed

lemma matchProbe_eq:
  assumes "BidsByPrice S bids = Ok (prices, groups)" and "matchable (biddableMap allowed) bids"
    and "\<forall>b \<in> set bids. 0 < mant (bid_Price b)" and "0 \<le> sell" and "h < length prices"
  shows "matchProbe S prices groups sell allowed h c =
    Ok (priceFits (biddableMap allowed) bids sell (ascending prices h),
        if priceFits (biddableMap allowed) bids sell (ascending prices h)
        then matchResultOf (biddableMap allowed) (ascending prices h)
          (eligible S groups prices (ascending prices h)) else c)"
proof -
  have "ascending prices h \<in> bid_Price ` set bids"
    using ascending_mem [OF assms(5)] BidsByPrice_prices(1) [OF assms(1)] by simp
  then have "0 < mant (ascending prices h)" using assms(3) by auto
  then show ?thesis
    using Match_eq [OF assms(1,2) _ assms(4), of "ascending prices h"]
    by (simp add: matchProbe_def ascending_def priceFits_def)
qed

text \<open>The search always ends; its result is empty or the match at a price that fits.\<close>

lemma findMatch_sound:
  assumes "BidsByPrice S bids = Ok (prices, groups)" and "matchable (biddableMap allowed) bids"
    and "\<forall>b \<in> set bids. 0 < mant (bid_Price b)" and "0 \<le> sell"
  shows "\<exists>res. findMatch S prices groups sell allowed = Ok res
    \<and> (res = initMatchResult None
       \<or> (\<exists>p \<in> bid_Price ` set bids. priceFits (biddableMap allowed) bids sell p
            \<and> res = matchResultOf (biddableMap allowed) p (eligible S groups prices p)))"
proof -
  let ?n = "length prices" and ?m = "biddableMap allowed" and ?p = "ascending prices"
  let ?g = "\<lambda>h. matchResultOf ?m (?p h) (eligible S groups prices (?p h))"
  let ?f = "matchProbe S prices groups sell allowed"
  have "\<exists>r c'. sortSearch ?f 0 ?n (initMatchResult None) = Ok (r, c') \<and>
      (c' = initMatchResult None \<or> (\<exists>h < ?n. priceFits ?m bids sell (?p h) \<and> c' = ?g h))"
    by (rule sortSearch_total) (rule matchProbe_eq [OF assms], auto)
  then obtain r c where "sortSearch ?f 0 ?n (initMatchResult None) = Ok (r, c)"
    and c: "c = initMatchResult None \<or> (\<exists>h < ?n. priceFits ?m bids sell (?p h) \<and> c = ?g h)"
    by blast
  then have "findMatch S prices groups sell allowed = Ok c" by (simp add: findMatch_def)
  moreover have "?p h \<in> bid_Price ` set bids" if "h < ?n" for h
    using ascending_mem [OF that] BidsByPrice_prices(1) [OF assms(1)] by simp
  ultimately show ?thesis using c by blast
qed

text \<open>If something is sold at the highest price, the search finds the lowest price that does not
  sell more than there is; it finds none only when every price sells too much.\<close>

lemma findMatch_lowest:
  assumes "BidsByPrice S bids = Ok (prices, groups)" and "matchable (biddableMap allowed) bids"
    and "\<forall>b \<in> set bids. 0 < mant (bid_Price b)" and "0 \<le> sell"
    and "\<And>p. p \<in> bid_Price ` set bids \<Longrightarrow> 0 < soldAt (biddableMap allowed) bids p"
  shows "\<exists>res. findMatch S prices groups sell allowed = Ok res
    \<and> (if \<exists>p \<in> bid_Price ` set bids. soldAt (biddableMap allowed) bids p \<le> sell
       then \<exists>p \<in> bid_Price ` set bids. soldAt (biddableMap allowed) bids p \<le> sell
          \<and> (\<forall>q \<in> bid_Price ` set bids. q < p \<longrightarrow> sell < soldAt (biddableMap allowed) bids q)
          \<and> res = matchResultOf (biddableMap allowed) p (eligible S groups prices p)
       else res = initMatchResult None)"
proof -
  let ?n = "length prices" and ?m = "biddableMap allowed" and ?p = "ascending prices"
  let ?g = "\<lambda>h. matchResultOf ?m (?p h) (eligible S groups prices (?p h))"
  let ?f = "matchProbe S prices groups sell allowed"
  let ?P = "\<lambda>h. priceFits ?m bids sell (?p h)"
  note prices = BidsByPrice_prices [OF assms(1)]
  have mem: "?p h \<in> bid_Price ` set bids" if "h < ?n" for h
    using ascending_mem [OF that] prices(1) by simp
  have P: "?P h \<longleftrightarrow> soldAt ?m bids (?p h) \<le> sell" if "h < ?n" for h
    using mem [OF that] assms(5) by (auto simp: priceFits_def)
  have up: "?P b" if "a \<le> b" "b < ?n" "?P a" for a b
  proof -
    have "?p a \<le> ?p b" using ascending_less [OF prices(2), of a b] that by (cases "a = b") auto
    moreover have "0 < mant (?p a)" using mem [of a] that assms(3) by auto
    ultimately have "soldAt ?m bids (?p b) \<le> soldAt ?m bids (?p a)"
      using soldAt_antimono [OF assms(2)] by blast
    with that show ?thesis by (simp add: P)
  qed
  have "\<exists>r c'. sortSearch ?f 0 ?n (initMatchResult None) = Ok (r, c') \<and> r \<le> ?n \<and> (\<forall>a < r. \<not> ?P a)
      \<and> (r < ?n \<longrightarrow> ?P r \<and> c' = ?g r) \<and> (r = ?n \<longrightarrow> ?n = ?n \<and> c' = initMatchResult None)"
    by (rule sortSearch_correct [OF matchProbe_eq [OF assms(1-4)] up]) auto
  then obtain r c where run: "sortSearch ?f 0 ?n (initMatchResult None) = Ok (r, c)"
    and r: "r \<le> ?n" "\<forall>a < r. \<not> ?P a" "r < ?n \<longrightarrow> ?P r \<and> c = ?g r" "r = ?n \<longrightarrow> c = initMatchResult None"
    by blast
  have low: "sell < soldAt ?m bids q" if "q \<in> bid_Price ` set bids" "r < ?n \<Longrightarrow> q < ?p r" for q
  proof -
    have "q \<in> set prices" using that(1) prices(1) by simp
    then obtain h where h: "h < ?n" "?p h = q" by (rule ascending_surj)
    have "h < r"
    proof (rule ccontr)
      assume "\<not> h < r"
      then have "?p r \<le> q" using ascending_less [OF prices(2), of r h] h by (cases "r = h") auto
      then show False using that(2) h(1) \<open>\<not> h < r\<close> by simp
    qed
    then show ?thesis using r(2) P [OF h(1)] h(2) by auto
  qed
  show ?thesis
  proof (cases "r < ?n")
    case True
    then show ?thesis
      using run r(3) mem [OF True] low P [OF True] by (auto simp: findMatch_def)
  next
    case False
    then have "\<forall>q \<in> bid_Price ` set bids. sell < soldAt ?m bids q" using low by blast
    then show ?thesis using run r(1,4) False by (auto simp: findMatch_def)
  qed
qed

end

end
