(* ===== verification/Store.thy ===== *)
theory Store
  imports Matching
begin

text \<open>
  The state of the module and the keeper that works on it.

  \<^item> The state holds one ordered map per key prefix of the module's KV store, the module's
    parameters, the block time, the emitted events, and the state of the bank, a type parameter.
    Keys are ordered as their big-endian encodings are.
  \<^item> The record \<open>keeper\<close> extends the library record by what the Go struct \<open>Keeper\<close> holds: the
    operations of the bank and distribution modules the module calls, the registered hooks, and
    the build-time switch of \<open>AddAllowedBidder\<close>.
  \<^item> The operations are those of \<^verbatim>\<open>keeper/store.go\<close>, \<^verbatim>\<open>keeper/keeper.go\<close>, \<^verbatim>\<open>keeper/hooks.go\<close>
    and \<^verbatim>\<open>types/hooks.go\<close>.
  \<^item> The locale \<open>bank_laws\<close> says what the module relies on from the bank: a transfer succeeds
    exactly when the sender can pay, and moves the amounts.
\<close>

section \<open>State\<close>

text \<open>Events carry typed attributes; their rendering as text is left out.\<close>

datatype attribute =
    AttrUint uint64 | AttrStr string | AttrDec dec | AttrCoin coin | AttrTime time
  | AttrStatus AuctionStatus | AttrRound uint32

record event =
  ev_Type :: string
  ev_Attributes :: "(string \<times> attribute) list"

text \<open>An address as part of a store key: \<open>address.MustLengthPrefix\<close> orders addresses by length
  first, then bytewise.\<close>

type_synonym addrKey = "nat \<times> accAddress"

definition addrKey :: "accAddress \<Rightarrow> addrKey" where
  "addrKey a = (length a, a)"

lemma addrKey_inj [simp]: "addrKey a = addrKey b \<longleftrightarrow> a = b"
  by (auto simp: addrKey_def)

record 'b state =
  BlockTime :: time
  LastAuctionId :: uint64
  LastBidIds :: "(uint64, uint64) omap"
  Auctions :: "(uint64, AuctionI) omap"
  AllowedBidders :: "(uint64 \<times> addrKey, AllowedBidder) omap"
  Bids :: "(uint64 \<times> uint64, Bid) omap"
  BidIndex :: "(addrKey \<times> uint64 \<times> uint64, unit) omap"
  MatchedBidsLens :: "(uint64, int) omap"
  VestingQueues :: "(uint64 \<times> time, VestingQueue) omap"
  params :: Params
  bank :: 'b
  events :: "event list"

text \<open>The calls of \<open>FundraisingHooks\<close> with their arguments.\<close>

datatype hook_call =
    HBeforeFixedPriceAuctionCreated string dec coin denom "VestingSchedule list" time time
  | HAfterFixedPriceAuctionCreated uint64 string dec coin denom "VestingSchedule list" time time
  | HBeforeBatchAuctionCreated string dec dec coin denom "VestingSchedule list" uint32 dec time time
  | HAfterBatchAuctionCreated uint64 string dec dec coin denom "VestingSchedule list" uint32 dec
      time time
  | HBeforeAuctionCanceled uint64 string
  | HBeforeBidPlaced uint64 uint64 string BidType dec coin
  | HBeforeBidModified uint64 uint64 string BidType dec coin
  | HBeforeAllowedBiddersAdded "AllowedBidder list"
  | HBeforeAllowedBidderUpdated uint64 accAddress "int option"
  | HBeforeSellingCoinsAllocated uint64 "(string, int) omap" "(string, int) omap"

text \<open>An implementation of the interface: it may change the state.\<close>

type_synonym 'b hooks = "hook_call \<Rightarrow> 'b state \<Rightarrow> 'b state"

record 'b keeper = golib +
  SendCoins :: "'b \<Rightarrow> accAddress \<Rightarrow> accAddress \<Rightarrow> coins \<Rightarrow> error option \<times> 'b"
  SpendableAmountOf :: "'b \<Rightarrow> accAddress \<Rightarrow> denom \<Rightarrow> int"
  InputOutputCoins ::
    "'b \<Rightarrow> (accAddress \<times> coins) list \<Rightarrow> (accAddress \<times> coins) list \<Rightarrow> error option \<times> 'b"
  FundCommunityPool :: "'b \<Rightarrow> coins \<Rightarrow> accAddress \<Rightarrow> error option \<times> 'b"
  khooks :: "'b hooks option"
  EnableAddAllowedBidder :: bool

type_synonym ('b, 'a) kcomp = "('b state, error, 'a) comp"

section \<open>Store operations\<close>

definition GetLastAuctionId :: "'b state \<Rightarrow> uint64" where
  "GetLastAuctionId s = LastAuctionId s"

definition SetAuctionId :: "uint64 \<Rightarrow> 'b state \<Rightarrow> 'b state" where
  "SetAuctionId i s = s\<lparr>LastAuctionId := i\<rparr>"

definition GetAuction :: "uint64 \<Rightarrow> 'b state \<Rightarrow> AuctionI option" where
  "GetAuction i s = oget (Auctions s) i"

definition SetAuction :: "AuctionI \<Rightarrow> 'b state \<Rightarrow> 'b state" where
  "SetAuction a s = s\<lparr>Auctions := oset (GetId a) a (Auctions s)\<rparr>"

definition GetAuctions :: "'b state \<Rightarrow> AuctionI list" where
  "GetAuctions s = oiter (\<lambda>_. True) (Auctions s)"

definition GetAllowedBidder :: "uint64 \<Rightarrow> accAddress \<Rightarrow> 'b state \<Rightarrow> AllowedBidder option" where
  "GetAllowedBidder auctionId bidderAddr s = oget (AllowedBidders s) (auctionId, addrKey bidderAddr)"

definition SetAllowedBidder :: "'a sdk_scheme \<Rightarrow> uint64 \<Rightarrow> AllowedBidder \<Rightarrow> ('b, unit) kcomp" where
  "SetAllowedBidder S auctionId ab =
     bindM (liftR (orPanic (AllowedBidder_GetBidder S ab))) (\<lambda>addr.
     modifyM (\<lambda>s. s\<lparr>AllowedBidders := oset (auctionId, addrKey addr) ab (AllowedBidders s)\<rparr>))"

definition GetAllowedBiddersByAuction :: "uint64 \<Rightarrow> 'b state \<Rightarrow> AllowedBidder list" where
  "GetAllowedBiddersByAuction auctionId s = oiter (\<lambda>k. fst k = auctionId) (AllowedBidders s)"

definition GetLastBidId :: "uint64 \<Rightarrow> 'b state \<Rightarrow> uint64" where
  "GetLastBidId auctionId s = (case oget (LastBidIds s) auctionId of None \<Rightarrow> 0 | Some i \<Rightarrow> i)"

definition SetBidId :: "uint64 \<Rightarrow> uint64 \<Rightarrow> 'b state \<Rightarrow> 'b state" where
  "SetBidId auctionId bidId s = s\<lparr>LastBidIds := oset auctionId bidId (LastBidIds s)\<rparr>"

definition GetBid :: "uint64 \<Rightarrow> uint64 \<Rightarrow> 'b state \<Rightarrow> Bid option" where
  "GetBid auctionId bidId s = oget (Bids s) (auctionId, bidId)"

definition SetBid :: "'a sdk_scheme \<Rightarrow> Bid \<Rightarrow> ('b, unit) kcomp" where
  "SetBid S b =
     bindM (modifyM (\<lambda>s. s\<lparr>Bids := oset (bid_AuctionId b, bid_Id b) b (Bids s)\<rparr>)) (\<lambda>_.
     bindM (liftR (orPanic (Bid_GetBidder S b))) (\<lambda>addr.
     modifyM (\<lambda>s. s\<lparr>BidIndex := oset (addrKey addr, bid_AuctionId b, bid_Id b) () (BidIndex s)\<rparr>)))"

definition GetBids :: "'b state \<Rightarrow> Bid list" where
  "GetBids s = oiter (\<lambda>_. True) (Bids s)"

definition GetBidsByAuctionId :: "uint64 \<Rightarrow> 'b state \<Rightarrow> Bid list" where
  "GetBidsByAuctionId auctionId s = oiter (\<lambda>k. fst k = auctionId) (Bids s)"

text \<open>The index holds keys only; an index key without a bid yields the zero value of \<open>Bid\<close>, of
  which the callers read the auction id.\<close>

definition zeroBid :: Bid where
  "zeroBid = \<lparr> bid_AuctionId = 0, bid_Bidder = [], bid_Id = 0, bid_Type = BidTypeNil,
     bid_Price = Dec 0, bid_Coin = Coin [] 0, bid_IsMatched = False \<rparr>"

definition GetBidsByBidder :: "accAddress \<Rightarrow> 'b state \<Rightarrow> Bid list" where
  "GetBidsByBidder bidderAddr s =
     map (\<lambda>e. case GetBid (fst (snd (fst e))) (snd (snd (fst e))) s of
            None \<Rightarrow> zeroBid | Some b \<Rightarrow> b)
       (filter (\<lambda>e. fst (fst e) = addrKey bidderAddr) (BidIndex s))"

definition GetLastMatchedBidsLen :: "uint64 \<Rightarrow> 'b state \<Rightarrow> int" where
  "GetLastMatchedBidsLen auctionId s =
     (case oget (MatchedBidsLens s) auctionId of None \<Rightarrow> 0 | Some n \<Rightarrow> n)"

definition SetMatchedBidsLen :: "uint64 \<Rightarrow> int \<Rightarrow> 'b state \<Rightarrow> 'b state" where
  "SetMatchedBidsLen auctionId matchedLen s =
     s\<lparr>MatchedBidsLens := oset auctionId matchedLen (MatchedBidsLens s)\<rparr>"

text \<open>A missing queue reads as the zero value of \<open>VestingQueue\<close>.\<close>

definition zeroVestingQueue :: VestingQueue where
  "zeroVestingQueue = \<lparr> vq_AuctionId = 0, vq_Auctioneer = [], vq_PayingCoin = Coin [] 0,
     vq_ReleaseTime = zeroTime, vq_Released = False \<rparr>"

definition GetVestingQueue :: "uint64 \<Rightarrow> time \<Rightarrow> 'b state \<Rightarrow> VestingQueue" where
  "GetVestingQueue auctionId releaseTime s =
     (case oget (VestingQueues s) (auctionId, releaseTime) of None \<Rightarrow> zeroVestingQueue | Some q \<Rightarrow> q)"

definition SetVestingQueue :: "VestingQueue \<Rightarrow> 'b state \<Rightarrow> 'b state" where
  "SetVestingQueue q s =
     s\<lparr>VestingQueues := oset (vq_AuctionId q, vq_ReleaseTime q) q (VestingQueues s)\<rparr>"

definition GetVestingQueues :: "'b state \<Rightarrow> VestingQueue list" where
  "GetVestingQueues s = oiter (\<lambda>_. True) (VestingQueues s)"

definition GetVestingQueuesByAuctionId :: "uint64 \<Rightarrow> 'b state \<Rightarrow> VestingQueue list" where
  "GetVestingQueuesByAuctionId auctionId s = oiter (\<lambda>k. fst k = auctionId) (VestingQueues s)"

definition GetNextAuctionIdWithUpdate :: "('b, uint64) kcomp" where
  "GetNextAuctionIdWithUpdate =
     bindM (getsM (\<lambda>s. GetLastAuctionId s + 1)) (\<lambda>i.
     bindM (modifyM (SetAuctionId i)) (\<lambda>_. returnM i))"

definition GetNextBidIdWithUpdate :: "uint64 \<Rightarrow> ('b, uint64) kcomp" where
  "GetNextBidIdWithUpdate auctionId =
     bindM (getsM (\<lambda>s. GetLastBidId auctionId s + 1)) (\<lambda>i.
     bindM (modifyM (SetBidId auctionId i)) (\<lambda>_. returnM i))"

definition GetParams :: "'b state \<Rightarrow> Params" where
  "GetParams s = params s"

text \<open>\<open>SetParamSet\<close> validates every field and panics on the first that fails.\<close>

definition SetParams :: "'a sdk_scheme \<Rightarrow> Params \<Rightarrow> ('b, unit) kcomp" where
  "SetParams S p =
     bindM (mustM (liftR (ParamSetPairs_validate S p))) (\<lambda>_. modifyM (\<lambda>s. s\<lparr>params := p\<rparr>))"

definition EmitEvent :: "event \<Rightarrow> ('b, unit) kcomp" where
  "EmitEvent e = modifyM (\<lambda>s. s\<lparr>events := events s @ [e]\<rparr>)"

section \<open>Hooks\<close>

text \<open>Several hooks registered as one: each is called in turn.\<close>

definition MultiFundraisingHooks :: "'b hooks list \<Rightarrow> 'b hooks" where
  "MultiFundraisingHooks h = (\<lambda>c s. fold (\<lambda>hk. hk c) h s)"

definition callHook :: "('b, 'z) keeper_scheme \<Rightarrow> hook_call \<Rightarrow> ('b, unit) kcomp" where
  "callHook k c = (case khooks k of None \<Rightarrow> returnM () | Some h \<Rightarrow> modifyM (h c))"

definition BeforeFixedPriceAuctionCreated where
  "BeforeFixedPriceAuctionCreated k auctioneer startPrice sellingCoin payingCoinDenom
     vestingSchedules startTime endTime =
   callHook k (HBeforeFixedPriceAuctionCreated auctioneer startPrice sellingCoin payingCoinDenom
     vestingSchedules startTime endTime)"

definition AfterFixedPriceAuctionCreated where
  "AfterFixedPriceAuctionCreated k auctionId auctioneer startPrice sellingCoin payingCoinDenom
     vestingSchedules startTime endTime =
   callHook k (HAfterFixedPriceAuctionCreated auctionId auctioneer startPrice sellingCoin
     payingCoinDenom vestingSchedules startTime endTime)"

definition BeforeBatchAuctionCreated where
  "BeforeBatchAuctionCreated k auctioneer startPrice minBidPrice sellingCoin payingCoinDenom
     vestingSchedules maxExtendedRound extendedRoundRate startTime endTime =
   callHook k (HBeforeBatchAuctionCreated auctioneer startPrice minBidPrice sellingCoin
     payingCoinDenom vestingSchedules maxExtendedRound extendedRoundRate startTime endTime)"

definition AfterBatchAuctionCreated where
  "AfterBatchAuctionCreated k auctionId auctioneer startPrice minBidPrice sellingCoin
     payingCoinDenom vestingSchedules maxExtendedRound extendedRoundRate startTime endTime =
   callHook k (HAfterBatchAuctionCreated auctionId auctioneer startPrice minBidPrice sellingCoin
     payingCoinDenom vestingSchedules maxExtendedRound extendedRoundRate startTime endTime)"

definition BeforeAuctionCanceled where
  "BeforeAuctionCanceled k auctionId auctioneer = callHook k (HBeforeAuctionCanceled auctionId auctioneer)"

definition BeforeBidPlaced where
  "BeforeBidPlaced k auctionId bidId bidder bidType price c =
   callHook k (HBeforeBidPlaced auctionId bidId bidder bidType price c)"

definition BeforeBidModified where
  "BeforeBidModified k auctionId bidId bidder bidType price c =
   callHook k (HBeforeBidModified auctionId bidId bidder bidType price c)"

definition BeforeAllowedBiddersAdded where
  "BeforeAllowedBiddersAdded k allowedBidders = callHook k (HBeforeAllowedBiddersAdded allowedBidders)"

definition BeforeAllowedBidderUpdated where
  "BeforeAllowedBidderUpdated k auctionId bidder maxBidAmount =
   callHook k (HBeforeAllowedBidderUpdated auctionId bidder maxBidAmount)"

definition BeforeSellingCoinsAllocated where
  "BeforeSellingCoinsAllocated k auctionId allocationMap refundMap =
   callHook k (HBeforeSellingCoinsAllocated auctionId allocationMap refundMap)"

lemmas hook_defs = BeforeFixedPriceAuctionCreated_def AfterFixedPriceAuctionCreated_def
  BeforeBatchAuctionCreated_def AfterBatchAuctionCreated_def BeforeAuctionCanceled_def
  BeforeBidPlaced_def BeforeBidModified_def BeforeAllowedBiddersAdded_def
  BeforeAllowedBidderUpdated_def BeforeSellingCoinsAllocated_def

section \<open>Transfers and fees\<close>

definition bankM :: "('b \<Rightarrow> error option \<times> 'b) \<Rightarrow> ('b, unit) kcomp" where
  "bankM op = (\<lambda>s. case op (bank s) of
      (None, b) \<Rightarrow> (Ok (), s\<lparr>bank := b\<rparr>)
    | (Some e, b) \<Rightarrow> (Err e, s\<lparr>bank := b\<rparr>))"

definition spendable :: "('b, 'z) keeper_scheme \<Rightarrow> accAddress \<Rightarrow> denom \<Rightarrow> 'b state \<Rightarrow> int" where
  "spendable k a d s = SpendableAmountOf k (bank s) a d"

definition PayCreationFee :: "('b, 'z) keeper_scheme \<Rightarrow> accAddress \<Rightarrow> ('b, unit) kcomp" where
  "PayCreationFee k auctioneerAddr =
     bindM (getsM GetParams) (\<lambda>p.
     bankM (\<lambda>b. FundCommunityPool k b (AuctionCreationFee p) auctioneerAddr))"

definition PayPlaceBidFee :: "('b, 'z) keeper_scheme \<Rightarrow> accAddress \<Rightarrow> ('b, unit) kcomp" where
  "PayPlaceBidFee k bidderAddr =
     bindM (getsM GetParams) (\<lambda>p.
     bankM (\<lambda>b. FundCommunityPool k b (PlaceBidFee p) bidderAddr))"

text \<open>\<open>bankKeeper.SendCoins(ctx, from, to, sdk.NewCoins(coin))\<close>\<close>

definition sendCoin ::
    "('b, 'z) keeper_scheme \<Rightarrow> accAddress \<Rightarrow> accAddress \<Rightarrow> coin \<Rightarrow> ('b, unit) kcomp" where
  "sendCoin k fromAddr toAddr c =
     bindM (liftR (orPanic (NewCoins k [c]))) (\<lambda>cs. bankM (\<lambda>b. SendCoins k b fromAddr toAddr cs))"

definition ReserveSellingCoin ::
    "('b, 'z) keeper_scheme \<Rightarrow> uint64 \<Rightarrow> accAddress \<Rightarrow> coin \<Rightarrow> ('b, unit) kcomp" where
  "ReserveSellingCoin k auctionId auctioneerAddr sellingCoin =
     sendCoin k auctioneerAddr (SellingReserveAddress k auctionId) sellingCoin"

definition ReservePayingCoin ::
    "('b, 'z) keeper_scheme \<Rightarrow> uint64 \<Rightarrow> accAddress \<Rightarrow> coin \<Rightarrow> ('b, unit) kcomp" where
  "ReservePayingCoin k auctionId bidderAddr payingCoin =
     sendCoin k bidderAddr (PayingReserveAddress k auctionId) payingCoin"

section \<open>What the module relies on from the bank\<close>

text \<open>The amount of a denomination in a coin set, and in the part of a transfer list that concerns
  one address.\<close>

definition coinsAmount :: "coins \<Rightarrow> denom \<Rightarrow> int" where
  "coinsAmount cs d = sum_list (map Amount (filter (\<lambda>c. Denom c = d) cs))"

definition transferAmount :: "(accAddress \<times> coins) list \<Rightarrow> accAddress \<Rightarrow> denom \<Rightarrow> int" where
  "transferAmount xs a d = sum_list (map (\<lambda>x. coinsAmount (snd x) d) (filter (\<lambda>x. fst x = a) xs))"

text \<open>The coin sets and the transfers the bank accepts.\<close>

definition positiveCoins :: "'a sdk_scheme \<Rightarrow> coins \<Rightarrow> bool" where
  "positiveCoins S cs \<longleftrightarrow>
     (\<forall>c \<in> set cs. ValidateDenom S (Denom c) \<and> 0 < Amount c) \<and> sorted_wrt (<) (map Denom cs)"

definition validTransfer :: "'a sdk_scheme \<Rightarrow> accAddress \<times> coins \<Rightarrow> bool" where
  "validTransfer S x \<longleftrightarrow> usableAddress (fst x) \<and> snd x \<noteq> [] \<and> positiveCoins S (snd x)"

text \<open>Balances are those of accounts without locked coins. \<open>SendCoins\<close> succeeds when the sender has
  every amount and fails otherwise; \<open>InputOutputCoins\<close> takes all inputs, then gives all outputs;
  \<open>FundCommunityPool\<close> moves coins from the sender to the account \<open>pool\<close> and leaves other accounts
  as they are.\<close>

locale bank_laws =
  fixes k :: "('b, 'z) keeper_scheme" and pool :: accAddress
  assumes spendable_nonneg: "0 \<le> SpendableAmountOf k b a d"
    and SendCoins_ok:
      "positiveCoins k cs \<Longrightarrow> (\<forall>d. coinsAmount cs d \<le> SpendableAmountOf k b x d) \<Longrightarrow>
        \<exists>b'. SendCoins k b x y cs = (None, b') \<and>
          (\<forall>a d. SpendableAmountOf k b' a d = SpendableAmountOf k b a d
             - (if a = x then coinsAmount cs d else 0) + (if a = y then coinsAmount cs d else 0))"
    and SendCoins_fail:
      "positiveCoins k cs \<Longrightarrow> \<not> (\<forall>d. coinsAmount cs d \<le> SpendableAmountOf k b x d) \<Longrightarrow>
        \<exists>e b'. SendCoins k b x y cs = (Some e, b')"
    and InputOutputCoins_ok:
      "(\<forall>x \<in> set ins \<union> set outs. validTransfer k x) \<Longrightarrow>
       (\<forall>d. sum_list (map (\<lambda>x. coinsAmount (snd x) d) ins) = sum_list (map (\<lambda>x. coinsAmount (snd x) d) outs)) \<Longrightarrow>
       (\<forall>a d. transferAmount ins a d \<le> SpendableAmountOf k b a d) \<Longrightarrow>
        \<exists>b'. InputOutputCoins k b ins outs = (None, b') \<and>
          (\<forall>a d. SpendableAmountOf k b' a d =
             SpendableAmountOf k b a d - transferAmount ins a d + transferAmount outs a d)"
    and FundCommunityPool_frame:
      "FundCommunityPool k b cs x = (None, b') \<Longrightarrow> a \<noteq> x \<Longrightarrow> a \<noteq> pool \<Longrightarrow>
        SpendableAmountOf k b' a d = SpendableAmountOf k b a d"

section \<open>Lemmas\<close>

lemma bankM_Ok_iff:
  "bankM op s = (Ok u, t) \<longleftrightarrow> (\<exists>b. op (bank s) = (None, b) \<and> t = s\<lparr>bank := b\<rparr>)"
  by (auto simp: bankM_def split: prod.splits option.splits)

lemma callHook_None [monad_simps]: "khooks k = None \<Longrightarrow> callHook k c s = (Ok (), s)"
  by (simp add: callHook_def returnM_def)

text \<open>The effect of a successful transfer of one coin.\<close>

definition moved :: "('b, 'z) keeper_scheme \<Rightarrow> accAddress \<Rightarrow> accAddress \<Rightarrow> denom \<Rightarrow> int
    \<Rightarrow> 'b \<Rightarrow> 'b \<Rightarrow> bool" where
  "moved k x y d n b b' \<longleftrightarrow>
     (\<forall>a e. SpendableAmountOf k b' a e = SpendableAmountOf k b a e
        - (if a = x \<and> e = d then n else 0) + (if a = y \<and> e = d then n else 0))"

locale keeper_laws = coin_laws k + bank_laws k pool
  for k :: "('b, 'z) keeper_scheme" and pool :: accAddress
begin

lemma single_positive: "CoinValidate k c \<Longrightarrow> 0 < Amount c \<Longrightarrow> positiveCoins k [c]"
  by (simp add: positiveCoins_def CoinValidate_law)

lemma coinsAmount_single: "coinsAmount [c] d = (if Denom c = d then Amount c else 0)"
  by (simp add: coinsAmount_def)

text \<open>A transfer of one valid coin succeeds exactly when the sender has the amount.\<close>

lemma sendCoin_ok:
  assumes "CoinValidate k c" and "Amount c \<le> spendable k x (Denom c) s"
  shows "\<exists>b. sendCoin k x y c s = (Ok (), s\<lparr>bank := b\<rparr>) \<and> moved k x y (Denom c) (Amount c) (bank s) b"
proof -
  define cs where "cs = (if Amount c = 0 then [] else [c])"
  have n: "NewCoins k [c] = Some cs" using NewCoins_law [OF assms(1)] by (simp add: cs_def)
  have amt: "coinsAmount cs d = (if Denom c = d then Amount c else 0)" for d
    by (simp add: cs_def coinsAmount_def)
  have "positiveCoins k cs" using assms(1) by (auto simp: cs_def CoinValidate_law positiveCoins_def)
  moreover have "\<forall>d. coinsAmount cs d \<le> SpendableAmountOf k (bank s) x d"
    using assms(2) spendable_nonneg by (simp add: amt spendable_def)
  ultimately obtain b where b: "SendCoins k (bank s) x y cs = (None, b)"
    and bal: "\<forall>a d. SpendableAmountOf k b a d = SpendableAmountOf k (bank s) a d
        - (if a = x then coinsAmount cs d else 0) + (if a = y then coinsAmount cs d else 0)"
    using SendCoins_ok by blast
  have "sendCoin k x y c s = (Ok (), s\<lparr>bank := b\<rparr>)"
    by (simp add: sendCoin_def n monad_simps bankM_def b)
  moreover have "moved k x y (Denom c) (Amount c) (bank s) b"
    by (auto simp: moved_def bal amt)
  ultimately show ?thesis by blast
qed

lemma sendCoin_Ok_iff:
  assumes "CoinValidate k c"
  shows "sendCoin k x y c s = (Ok u, t) \<Longrightarrow>
    Amount c \<le> spendable k x (Denom c) s
    \<and> (\<exists>b. t = s\<lparr>bank := b\<rparr> \<and> moved k x y (Denom c) (Amount c) (bank s) b)"
proof -
  assume run: "sendCoin k x y c s = (Ok u, t)"
  show ?thesis
  proof (cases "Amount c \<le> spendable k x (Denom c) s")
    case True
    then show ?thesis using run sendCoin_ok [OF assms True, of y] by auto
  next
    case False
    then have "0 < Amount c" using spendable_nonneg [of "bank s" x "Denom c"] by (simp add: spendable_def)
    then have "\<exists>e b'. SendCoins k (bank s) x y [c] = (Some e, b')"
      using False assms by (intro SendCoins_fail single_positive) (auto simp: coinsAmount_single spendable_def)
    then show ?thesis
      using run NewCoins_law [OF assms] \<open>0 < Amount c\<close>
      by (auto simp: sendCoin_def Ok_iffs bankM_Ok_iff)
  qed
qed

end

end
