(* ===== verification/Messages.thy ===== *)
theory Messages
  imports Types
begin

text \<open>
  The messages of the module and their stateless validation (\<^verbatim>\<open>types/msgs.go\<close>).
  The lemmas characterise the accepted messages: which conditions on their fields
  \<open>ValidateBasic\<close> establishes for the handlers.
\<close>

record MsgCreateFixedPriceAuction =
  mf_Auctioneer :: string
  mf_StartPrice :: dec
  mf_SellingCoin :: coin
  mf_PayingCoinDenom :: denom
  mf_VestingSchedules :: "VestingSchedule list"
  mf_StartTime :: time
  mf_EndTime :: time

record MsgCreateBatchAuction =
  mb_Auctioneer :: string
  mb_StartPrice :: dec
  mb_MinBidPrice :: dec
  mb_SellingCoin :: coin
  mb_PayingCoinDenom :: denom
  mb_VestingSchedules :: "VestingSchedule list"
  mb_MaxExtendedRound :: uint32
  mb_ExtendedRoundRate :: dec
  mb_StartTime :: time
  mb_EndTime :: time

record MsgCancelAuction =
  mc_Auctioneer :: string
  mc_AuctionId :: uint64

record MsgPlaceBid =
  mp_AuctionId :: uint64
  mp_Bidder :: string
  mp_BidType :: BidType
  mp_Price :: dec
  mp_Coin :: coin

record MsgModifyBid =
  mm_AuctionId :: uint64
  mm_Bidder :: string
  mm_BidId :: uint64
  mm_Price :: dec
  mm_Coin :: coin

record MsgAddAllowedBidder =
  ma_AuctionId :: uint64
  ma_AllowedBidder :: AllowedBidder

section \<open>Constructors\<close>

definition NewMsgCreateFixedPriceAuction ::
    "string \<Rightarrow> dec \<Rightarrow> coin \<Rightarrow> denom \<Rightarrow> VestingSchedule list \<Rightarrow> time \<Rightarrow> time
     \<Rightarrow> MsgCreateFixedPriceAuction" where
  "NewMsgCreateFixedPriceAuction auctioneer startPrice sellingCoin payingCoinDenom vestingSchedules
     startTime endTime =
   \<lparr> mf_Auctioneer = auctioneer, mf_StartPrice = startPrice, mf_SellingCoin = sellingCoin,
     mf_PayingCoinDenom = payingCoinDenom, mf_VestingSchedules = vestingSchedules,
     mf_StartTime = startTime, mf_EndTime = endTime \<rparr>"

definition NewMsgCreateBatchAuction ::
    "string \<Rightarrow> dec \<Rightarrow> dec \<Rightarrow> coin \<Rightarrow> denom \<Rightarrow> VestingSchedule list \<Rightarrow> uint32 \<Rightarrow> dec \<Rightarrow> time \<Rightarrow> time
     \<Rightarrow> MsgCreateBatchAuction" where
  "NewMsgCreateBatchAuction auctioneer startPrice minBidPrice sellingCoin payingCoinDenom
     vestingSchedules maxExtendedRound extendedRoundRate startTime endTime =
   \<lparr> mb_Auctioneer = auctioneer, mb_StartPrice = startPrice, mb_MinBidPrice = minBidPrice,
     mb_SellingCoin = sellingCoin, mb_PayingCoinDenom = payingCoinDenom,
     mb_VestingSchedules = vestingSchedules, mb_MaxExtendedRound = maxExtendedRound,
     mb_ExtendedRoundRate = extendedRoundRate, mb_StartTime = startTime, mb_EndTime = endTime \<rparr>"

definition NewMsgCancelAuction :: "string \<Rightarrow> uint64 \<Rightarrow> MsgCancelAuction" where
  "NewMsgCancelAuction auctioneer auctionId =
   \<lparr> mc_Auctioneer = auctioneer, mc_AuctionId = auctionId \<rparr>"

definition NewMsgPlaceBid :: "uint64 \<Rightarrow> string \<Rightarrow> BidType \<Rightarrow> dec \<Rightarrow> coin \<Rightarrow> MsgPlaceBid" where
  "NewMsgPlaceBid auctionId bidder bidType price c =
   \<lparr> mp_AuctionId = auctionId, mp_Bidder = bidder, mp_BidType = bidType, mp_Price = price,
     mp_Coin = c \<rparr>"

definition NewMsgModifyBid :: "uint64 \<Rightarrow> string \<Rightarrow> uint64 \<Rightarrow> dec \<Rightarrow> coin \<Rightarrow> MsgModifyBid" where
  "NewMsgModifyBid auctionId bidder bidId price c =
   \<lparr> mm_AuctionId = auctionId, mm_Bidder = bidder, mm_BidId = bidId, mm_Price = price,
     mm_Coin = c \<rparr>"

definition NewMsgAddAllowedBidder :: "uint64 \<Rightarrow> AllowedBidder \<Rightarrow> MsgAddAllowedBidder" where
  "NewMsgAddAllowedBidder auctionId allowedBidder =
   \<lparr> ma_AuctionId = auctionId, ma_AllowedBidder = allowedBidder \<rparr>"

section \<open>Signers\<close>

definition mf_GetAuctioneer :: "'a sdk_scheme \<Rightarrow> MsgCreateFixedPriceAuction \<Rightarrow> accAddress option" where
  "mf_GetAuctioneer S m = AccAddressFromBech32 S (mf_Auctioneer m)"

definition mf_GetSigners :: "'a sdk_scheme \<Rightarrow> MsgCreateFixedPriceAuction \<Rightarrow> accAddress list option" where
  "mf_GetSigners S m = map_option (\<lambda>a. [a]) (AccAddressFromBech32 S (mf_Auctioneer m))"

definition mb_GetAuctioneer :: "'a sdk_scheme \<Rightarrow> MsgCreateBatchAuction \<Rightarrow> accAddress option" where
  "mb_GetAuctioneer S m = AccAddressFromBech32 S (mb_Auctioneer m)"

definition mb_GetSigners :: "'a sdk_scheme \<Rightarrow> MsgCreateBatchAuction \<Rightarrow> accAddress list option" where
  "mb_GetSigners S m = map_option (\<lambda>a. [a]) (AccAddressFromBech32 S (mb_Auctioneer m))"

definition mc_GetSigners :: "'a sdk_scheme \<Rightarrow> MsgCancelAuction \<Rightarrow> accAddress list option" where
  "mc_GetSigners S m = map_option (\<lambda>a. [a]) (AccAddressFromBech32 S (mc_Auctioneer m))"

definition mp_GetBidder :: "'a sdk_scheme \<Rightarrow> MsgPlaceBid \<Rightarrow> accAddress option" where
  "mp_GetBidder S m = AccAddressFromBech32 S (mp_Bidder m)"

definition mp_GetSigners :: "'a sdk_scheme \<Rightarrow> MsgPlaceBid \<Rightarrow> accAddress list option" where
  "mp_GetSigners S m = map_option (\<lambda>a. [a]) (AccAddressFromBech32 S (mp_Bidder m))"

definition mm_GetBidder :: "'a sdk_scheme \<Rightarrow> MsgModifyBid \<Rightarrow> accAddress option" where
  "mm_GetBidder S m = AccAddressFromBech32 S (mm_Bidder m)"

definition mm_GetSigners :: "'a sdk_scheme \<Rightarrow> MsgModifyBid \<Rightarrow> accAddress list option" where
  "mm_GetSigners S m = map_option (\<lambda>a. [a]) (AccAddressFromBech32 S (mm_Bidder m))"

definition ma_GetSigners :: "'a sdk_scheme \<Rightarrow> MsgAddAllowedBidder \<Rightarrow> accAddress list option" where
  "ma_GetSigners S m =
     map_option (\<lambda>a. [a]) (AccAddressFromBech32 S (ab_Bidder (ma_AllowedBidder m)))"

section \<open>Stateless validation\<close>

definition mf_ValidateBasic :: "'a sdk_scheme \<Rightarrow> MsgCreateFixedPriceAuction \<Rightarrow> unit res" where
  "mf_ValidateBasic S m =
     bindR (check (AccAddressFromBech32 S (mf_Auctioneer m) = None) ErrInvalidAddress) (\<lambda>_.
     bindR (check (\<not> DecIsPositive (mf_StartPrice m)) ErrInvalidRequest) (\<lambda>_.
     bindR (check (\<not> CoinValidate S (mf_SellingCoin m)) ErrInvalidRequest) (\<lambda>_.
     bindR (check (\<not> 0 < Amount (mf_SellingCoin m)) ErrInvalidRequest) (\<lambda>_.
     bindR (check (Denom (mf_SellingCoin m) = mf_PayingCoinDenom m) ErrInvalidRequest) (\<lambda>_.
     bindR (check (\<not> ValidateDenom S (mf_PayingCoinDenom m)) ErrInvalidRequest) (\<lambda>_.
     bindR (check (\<not> mf_StartTime m < mf_EndTime m) ErrInvalidRequest) (\<lambda>_.
     ValidateVestingSchedules S (mf_VestingSchedules m) (mf_EndTime m))))))))"

definition mb_ValidateBasic :: "'a sdk_scheme \<Rightarrow> MsgCreateBatchAuction \<Rightarrow> unit res" where
  "mb_ValidateBasic S m =
     bindR (check (AccAddressFromBech32 S (mb_Auctioneer m) = None) ErrInvalidAddress) (\<lambda>_.
     bindR (check (\<not> DecIsPositive (mb_StartPrice m)) ErrInvalidRequest) (\<lambda>_.
     bindR (check (\<not> DecIsPositive (mb_MinBidPrice m)) ErrInvalidRequest) (\<lambda>_.
     bindR (check (\<not> CoinValidate S (mb_SellingCoin m)) ErrInvalidRequest) (\<lambda>_.
     bindR (check (\<not> 0 < Amount (mb_SellingCoin m)) ErrInvalidRequest) (\<lambda>_.
     bindR (check (Denom (mb_SellingCoin m) = mb_PayingCoinDenom m) ErrInvalidRequest) (\<lambda>_.
     bindR (check (\<not> ValidateDenom S (mb_PayingCoinDenom m)) ErrInvalidRequest) (\<lambda>_.
     bindR (check (\<not> mb_StartTime m < mb_EndTime m) ErrInvalidRequest) (\<lambda>_.
     bindR (ValidateVestingSchedules S (mb_VestingSchedules m) (mb_EndTime m)) (\<lambda>_.
     check (\<not> DecIsPositive (mb_ExtendedRoundRate m)) ErrInvalidRequest)))))))))"

definition mc_ValidateBasic :: "'a sdk_scheme \<Rightarrow> MsgCancelAuction \<Rightarrow> unit res" where
  "mc_ValidateBasic S m = check (AccAddressFromBech32 S (mc_Auctioneer m) = None) ErrInvalidAddress"

definition mp_ValidateBasic :: "'a sdk_scheme \<Rightarrow> MsgPlaceBid \<Rightarrow> unit res" where
  "mp_ValidateBasic S m =
     bindR (check (AccAddressFromBech32 S (mp_Bidder m) = None) ErrInvalidAddress) (\<lambda>_.
     bindR (check (\<not> DecIsPositive (mp_Price m)) ErrInvalidRequest) (\<lambda>_.
     bindR (check (\<not> CoinValidate S (mp_Coin m)) ErrInvalidRequest) (\<lambda>_.
     bindR (check (\<not> 0 < Amount (mp_Coin m)) ErrInvalidRequest) (\<lambda>_.
     check (mp_BidType m \<noteq> BidTypeFixedPrice \<and> mp_BidType m \<noteq> BidTypeBatchWorth
            \<and> mp_BidType m \<noteq> BidTypeBatchMany) ErrInvalidRequest))))"

definition mm_ValidateBasic :: "'a sdk_scheme \<Rightarrow> MsgModifyBid \<Rightarrow> unit res" where
  "mm_ValidateBasic S m =
     bindR (check (AccAddressFromBech32 S (mm_Bidder m) = None) ErrInvalidAddress) (\<lambda>_.
     bindR (check (\<not> DecIsPositive (mm_Price m)) ErrInvalidRequest) (\<lambda>_.
     bindR (check (\<not> CoinValidate S (mm_Coin m)) ErrInvalidRequest) (\<lambda>_.
     check (\<not> 0 < Amount (mm_Coin m)) ErrInvalidRequest)))"

definition ma_ValidateBasic :: "'a sdk_scheme \<Rightarrow> MsgAddAllowedBidder \<Rightarrow> unit res" where
  "ma_ValidateBasic S m =
     check (AccAddressFromBech32 S (ab_Bidder (ma_AllowedBidder m)) = None) ErrInvalidAddress"

section \<open>Accepted messages\<close>

locale msg_laws = dec_laws S + coin_laws S for S :: "'a sdk_scheme"
begin

lemma mf_ValidateBasic_Ok:
  "mf_ValidateBasic S m = Ok u \<longleftrightarrow>
     (\<exists>a. AccAddressFromBech32 S (mf_Auctioneer m) = Some a)
   \<and> 0 < mant (mf_StartPrice m) \<and> ValidateDenom S (Denom (mf_SellingCoin m))
   \<and> 0 < Amount (mf_SellingCoin m) \<and> Denom (mf_SellingCoin m) \<noteq> mf_PayingCoinDenom m
   \<and> ValidateDenom S (mf_PayingCoinDenom m) \<and> mf_StartTime m < mf_EndTime m
   \<and> validSchedules (mf_VestingSchedules m) (mf_EndTime m)"
  by (auto simp: mf_ValidateBasic_def bindR_Ok_iff DecIsPositive_def CoinValidate_law
      ValidateVestingSchedules_Ok_iff)

lemma mb_ValidateBasic_Ok:
  "mb_ValidateBasic S m = Ok u \<longleftrightarrow>
     (\<exists>a. AccAddressFromBech32 S (mb_Auctioneer m) = Some a)
   \<and> 0 < mant (mb_StartPrice m) \<and> 0 < mant (mb_MinBidPrice m)
   \<and> ValidateDenom S (Denom (mb_SellingCoin m)) \<and> 0 < Amount (mb_SellingCoin m)
   \<and> Denom (mb_SellingCoin m) \<noteq> mb_PayingCoinDenom m \<and> ValidateDenom S (mb_PayingCoinDenom m)
   \<and> mb_StartTime m < mb_EndTime m \<and> validSchedules (mb_VestingSchedules m) (mb_EndTime m)
   \<and> 0 < mant (mb_ExtendedRoundRate m)"
  by (auto simp: mb_ValidateBasic_def bindR_Ok_iff DecIsPositive_def CoinValidate_law
      ValidateVestingSchedules_Ok_iff)

lemma mp_ValidateBasic_Ok:
  "mp_ValidateBasic S m = Ok u \<longleftrightarrow>
     (\<exists>a. AccAddressFromBech32 S (mp_Bidder m) = Some a) \<and> 0 < mant (mp_Price m)
   \<and> ValidateDenom S (Denom (mp_Coin m)) \<and> 0 < Amount (mp_Coin m) \<and> mp_BidType m \<noteq> BidTypeNil"
  by (cases "mp_BidType m")
    (auto simp: mp_ValidateBasic_def bindR_Ok_iff DecIsPositive_def CoinValidate_law)

lemma mm_ValidateBasic_Ok:
  "mm_ValidateBasic S m = Ok u \<longleftrightarrow>
     (\<exists>a. AccAddressFromBech32 S (mm_Bidder m) = Some a) \<and> 0 < mant (mm_Price m)
   \<and> ValidateDenom S (Denom (mm_Coin m)) \<and> 0 < Amount (mm_Coin m)"
  by (auto simp: mm_ValidateBasic_def bindR_Ok_iff DecIsPositive_def CoinValidate_law)

end

end
