(* ===== verification/Auctions.thy ===== *)
theory Auctions
  imports Store Messages
begin

text \<open>
  Creating and cancelling auctions and managing their allowed bidders (\<^verbatim>\<open>keeper/auction.go\<close>, first
  part).
\<close>

section \<open>Events\<close>

definition baseAttributes :: "BaseAuction \<Rightarrow> (string \<times> attribute) list" where
  "baseAttributes ba =
   [(''auction_id'', AttrUint (ba_Id ba)),
    (''auctioneer_address'', AttrStr (ba_Auctioneer ba)),
    (''selling_pool_address'', AttrStr (ba_SellingReserveAddress ba)),
    (''paying_pool_address'', AttrStr (ba_PayingReserveAddress ba)),
    (''start_price'', AttrDec (ba_StartPrice ba)),
    (''selling_coin'', AttrCoin (ba_SellingCoin ba)),
    (''paying_coin_denom'', AttrStr (ba_PayingCoinDenom ba)),
    (''vesting_pool_address'', AttrStr (ba_VestingReserveAddress ba))]"

section \<open>Creation\<close>

definition CreateFixedPriceAuction ::
    "('b, 'z) keeper_scheme \<Rightarrow> MsgCreateFixedPriceAuction \<Rightarrow> ('b, AuctionI) kcomp" where
  "CreateFixedPriceAuction k msg =
     bindM (getsM BlockTime) (\<lambda>now.
     bindM (guardM (mf_EndTime msg < now) ErrInvalidRequest) (\<lambda>_.
     bindM (guardM (MaxNumVestingSchedules < length (mf_VestingSchedules msg)) ErrInvalidRequest) (\<lambda>_.
     bindM GetNextAuctionIdWithUpdate (\<lambda>nextId.
     bindM (liftR (orPanic (mf_GetAuctioneer k msg))) (\<lambda>auctioneer.
     bindM (PayCreationFee k auctioneer) (\<lambda>_.
     bindM (ReserveSellingCoin k nextId auctioneer (mf_SellingCoin msg)) (\<lambda>_.
     let ba = NewBaseAuction nextId AuctionTypeFixedPrice (mf_Auctioneer msg)
           (AccAddressString k (SellingReserveAddress k nextId))
           (AccAddressString k (PayingReserveAddress k nextId))
           (mf_StartPrice msg) (mf_SellingCoin msg) (mf_PayingCoinDenom msg)
           (AccAddressString k (VestingReserveAddress k nextId))
           (mf_VestingSchedules msg) (mf_StartTime msg) [mf_EndTime msg] AuctionStatusStandBy;
         ba' = (if \<not> now < ba_StartTime ba then ba\<lparr>ba_Status := AuctionStatusStarted\<rparr> else ba);
         auction = NewFixedPriceAuction ba' (mf_SellingCoin msg)
     in
     bindM (BeforeFixedPriceAuctionCreated k (ba_Auctioneer ba') (ba_StartPrice ba')
       (ba_SellingCoin ba') (ba_PayingCoinDenom ba') (ba_VestingSchedules ba') (ba_StartTime ba')
       (mf_EndTime msg)) (\<lambda>_.
     bindM (modifyM (SetAuction auction)) (\<lambda>_.
     bindM (AfterFixedPriceAuctionCreated k (ba_Id ba') (ba_Auctioneer ba') (ba_StartPrice ba')
       (ba_SellingCoin ba') (ba_PayingCoinDenom ba') (ba_VestingSchedules ba') (ba_StartTime ba')
       (mf_EndTime msg)) (\<lambda>_.
     bindM (EmitEvent \<lparr> ev_Type = ''create_fixed_price_auction'',
       ev_Attributes = baseAttributes ba' @
         [(''remaining_selling_coin'', AttrCoin (RemainingSellingCoin auction)),
          (''start_time'', AttrTime (ba_StartTime ba')),
          (''end_time'', AttrTime (mf_EndTime msg)),
          (''auction_status'', AttrStatus (ba_Status ba'))] \<rparr>) (\<lambda>_.
     returnM auction)))))))))))"

definition CreateBatchAuction ::
    "('b, 'z) keeper_scheme \<Rightarrow> MsgCreateBatchAuction \<Rightarrow> ('b, AuctionI) kcomp" where
  "CreateBatchAuction k msg =
     bindM (getsM BlockTime) (\<lambda>now.
     bindM (guardM (mb_EndTime msg < now) ErrInvalidRequest) (\<lambda>_.
     bindM (guardM (MaxNumVestingSchedules < length (mb_VestingSchedules msg)) ErrInvalidRequest) (\<lambda>_.
     bindM (guardM (MaxExtendedRoundLimit < mb_MaxExtendedRound msg) ErrInvalidRequest) (\<lambda>_.
     bindM GetNextAuctionIdWithUpdate (\<lambda>nextId.
     bindM (liftR (orPanic (mb_GetAuctioneer k msg))) (\<lambda>auctioneer.
     bindM (PayCreationFee k auctioneer) (\<lambda>_.
     bindM (ReserveSellingCoin k nextId auctioneer (mb_SellingCoin msg)) (\<lambda>_.
     let ba = NewBaseAuction nextId AuctionTypeBatch (mb_Auctioneer msg)
           (AccAddressString k (SellingReserveAddress k nextId))
           (AccAddressString k (PayingReserveAddress k nextId))
           (mb_StartPrice msg) (mb_SellingCoin msg) (mb_PayingCoinDenom msg)
           (AccAddressString k (VestingReserveAddress k nextId))
           (mb_VestingSchedules msg) (mb_StartTime msg) [mb_EndTime msg] AuctionStatusStandBy;
         ba' = (if \<not> now < ba_StartTime ba then ba\<lparr>ba_Status := AuctionStatusStarted\<rparr> else ba);
         auction = NewBatchAuction ba' (mb_MinBidPrice msg) (ZeroDec k) (mb_MaxExtendedRound msg)
           (mb_ExtendedRoundRate msg)
     in
     bindM (BeforeBatchAuctionCreated k (ba_Auctioneer ba') (ba_StartPrice ba') (mb_MinBidPrice msg)
       (ba_SellingCoin ba') (ba_PayingCoinDenom ba') (ba_VestingSchedules ba')
       (mb_MaxExtendedRound msg) (mb_ExtendedRoundRate msg) (ba_StartTime ba') (mb_EndTime msg)) (\<lambda>_.
     bindM (modifyM (SetAuction auction)) (\<lambda>_.
     bindM (AfterBatchAuctionCreated k (ba_Id ba') (ba_Auctioneer ba') (ba_StartPrice ba')
       (mb_MinBidPrice msg) (ba_SellingCoin ba') (ba_PayingCoinDenom ba') (ba_VestingSchedules ba')
       (mb_MaxExtendedRound msg) (mb_ExtendedRoundRate msg) (ba_StartTime ba') (mb_EndTime msg)) (\<lambda>_.
     bindM (EmitEvent \<lparr> ev_Type = ''create_batch_auction'',
       ev_Attributes = baseAttributes ba' @
         [(''start_time'', AttrTime (ba_StartTime ba')),
          (''end_time'', AttrTime (mb_EndTime msg)),
          (''auction_status'', AttrStatus (ba_Status ba')),
          (''min_bid_price'', AttrDec (mb_MinBidPrice msg)),
          (''maximum_extended_round'', AttrRound (mb_MaxExtendedRound msg)),
          (''extended_round_rate'', AttrDec (mb_ExtendedRoundRate msg))] \<rparr>) (\<lambda>_.
     returnM auction))))))))))))"

section \<open>Cancellation\<close>

definition CancelAuction :: "('b, 'z) keeper_scheme \<Rightarrow> MsgCancelAuction \<Rightarrow> ('b, unit) kcomp" where
  "CancelAuction k msg =
     bindM (getsM (GetAuction (mc_AuctionId msg))) (\<lambda>found. case found of
       None \<Rightarrow> raiseM ErrNotFound
     | Some auction \<Rightarrow>
     bindM (liftR (orPanic (GetAuctioneer k auction))) (\<lambda>auctioneer.
     bindM (guardM (AccAddressString k auctioneer \<noteq> mc_Auctioneer msg) ErrUnauthorized) (\<lambda>_.
     bindM (guardM (GetStatus auction \<noteq> AuctionStatusStandBy) ErrInvalidAuctionStatus) (\<lambda>_.
     bindM (liftR (orPanic (GetSellingReserveAddress k auction))) (\<lambda>sellingReserveAddr.
     let sellingCoinDenom = Denom (GetSellingCoin auction) in
     bindM (getsM (spendable k sellingReserveAddr sellingCoinDenom)) (\<lambda>amt.
     bindM (liftR (orPanic (NewCoin k sellingCoinDenom amt))) (\<lambda>releaseCoin.
     bindM (sendCoin k sellingReserveAddr auctioneer releaseCoin) (\<lambda>_.
     bindM (BeforeAuctionCanceled k (mc_AuctionId msg) (mc_Auctioneer msg)) (\<lambda>_.
     bindM (if GetType auction = AuctionTypeFixedPrice
            then (case auction of
                FixedPriceAuction ba _ \<Rightarrow>
                  bindM (liftR (orPanic (NewCoin k sellingCoinDenom 0)))
                    (\<lambda>c. returnM (FixedPriceAuction ba c))
              | BatchAuction _ _ _ _ _ \<Rightarrow> panicM)
            else returnM auction) (\<lambda>auction'.
     bindM (modifyM (SetAuction (SetStatus AuctionStatusCancelled auction'))) (\<lambda>_.
     EmitEvent \<lparr> ev_Type = ''cancel_auction'',
       ev_Attributes = [(''auction_id'', AttrUint (GetId auction'))] \<rparr>)))))))))))"

section \<open>Allowed bidders\<close>

definition addAllowedBidder ::
    "('b, 'z) keeper_scheme \<Rightarrow> uint64 \<Rightarrow> AuctionI \<Rightarrow> AllowedBidder \<Rightarrow> ('b, unit) kcomp" where
  "addAllowedBidder k auctionId auction ab =
     bindM (liftR (AllowedBidder_Validate k ab)) (\<lambda>_.
     bindM (liftR (orPanic (ab_MaxBidAmount ab))) (\<lambda>maxBidAmount.
     bindM (guardM (Amount (GetSellingCoin auction) < maxBidAmount) ErrInsufficientRemainingAmount) (\<lambda>_.
     SetAllowedBidder k auctionId ab)))"

definition AddAllowedBidders ::
    "('b, 'z) keeper_scheme \<Rightarrow> uint64 \<Rightarrow> AllowedBidder list \<Rightarrow> ('b, unit) kcomp" where
  "AddAllowedBidders k auctionId allowedBidders =
     bindM (guardM (length allowedBidders = 0) ErrEmptyAllowedBidders) (\<lambda>_.
     bindM (getsM (GetAuction auctionId)) (\<lambda>found. case found of
       None \<Rightarrow> raiseM ErrNotFound
     | Some auction \<Rightarrow>
     bindM (BeforeAllowedBiddersAdded k allowedBidders) (\<lambda>_.
     foreachM (addAllowedBidder k auctionId auction) allowedBidders)))"

definition UpdateAllowedBidder ::
    "('b, 'z) keeper_scheme \<Rightarrow> uint64 \<Rightarrow> accAddress \<Rightarrow> int option \<Rightarrow> ('b, unit) kcomp" where
  "UpdateAllowedBidder k auctionId bidder maxBidAmount =
     bindM (getsM (GetAuction auctionId)) (\<lambda>found.
     bindM (guardM (found = None) ErrNotFound) (\<lambda>_.
     bindM (getsM (GetAllowedBidder auctionId bidder)) (\<lambda>found.
     bindM (guardM (found = None) ErrNotFound) (\<lambda>_.
     let allowedBidder = NewAllowedBidder k bidder maxBidAmount in
     bindM (liftR (AllowedBidder_Validate k allowedBidder)) (\<lambda>_.
     bindM (BeforeAllowedBidderUpdated k auctionId bidder maxBidAmount) (\<lambda>_.
     SetAllowedBidder k auctionId allowedBidder))))))"

end
