(* ===== verification/Bidding.thy ===== *)
theory Bidding
  imports Auctions
begin

text \<open>
  Placing and modifying bids (\<^verbatim>\<open>keeper/bid.go\<close>).
\<close>

section \<open>Validation of a bid against its auction\<close>

definition ValidateFixedPriceBid ::
    "('b, 'z) keeper_scheme \<Rightarrow> AuctionI \<Rightarrow> Bid \<Rightarrow> ('b, unit) kcomp" where
  "ValidateFixedPriceBid k auction b =
     bindM (guardM (GetType auction \<noteq> AuctionTypeFixedPrice) ErrIncorrectAuctionType) (\<lambda>_.
     bindM (guardM (Denom (bid_Coin b) \<noteq> GetPayingCoinDenom auction
       \<and> Denom (bid_Coin b) \<noteq> Denom (GetSellingCoin auction)) ErrIncorrectCoinDenom) (\<lambda>_.
     bindM (guardM (bid_Price b \<noteq> GetStartPrice auction) ErrInvalidStartPrice) (\<lambda>_.
     let bidAmt = ConvertToSellingAmount k b (GetPayingCoinDenom auction) in
     bindM (liftR (orPanic (NewCoin k (Denom (GetSellingCoin auction)) bidAmt))) (\<lambda>bidCoin.
     case auction of BatchAuction _ _ _ _ _ \<Rightarrow> panicM | FixedPriceAuction _ remainingCoin \<Rightarrow>
     bindM (liftR (orPanic (CoinIsLT k remainingCoin bidCoin))) (\<lambda>lt.
     bindM (guardM lt ErrInsufficientRemainingAmount) (\<lambda>_.
     bindM (liftR (orPanic (Bid_GetBidder k b))) (\<lambda>bidder.
     bindM (getsM (GetBidsByBidder bidder)) (\<lambda>bs.
     let totalBidAmt = sum_list (map (\<lambda>b'. ConvertToSellingAmount k b' (GetPayingCoinDenom auction))
           (filter (\<lambda>b'. bid_AuctionId b' = GetId auction) bs)) in
     bindM (getsM (GetAllowedBidder (bid_AuctionId b) bidder)) (\<lambda>found. case found of
       None \<Rightarrow> raiseM ErrNotFound
     | Some allowedBidder \<Rightarrow>
     bindM (liftR (orPanic (ab_MaxBidAmount allowedBidder))) (\<lambda>maxBidAmount.
     guardM (maxBidAmount < totalBidAmt + bidAmt) ErrOverMaxBidAmountLimit))))))))))"

text \<open>The common tail of the two batch validations: the bid alone may not exceed the limit.\<close>

definition checkMaxBidAmount ::
    "('b, 'z) keeper_scheme \<Rightarrow> AuctionI \<Rightarrow> Bid \<Rightarrow> ('b, unit) kcomp" where
  "checkMaxBidAmount k auction b =
     bindM (liftR (orPanic (Bid_GetBidder k b))) (\<lambda>bidder.
     bindM (getsM (GetAllowedBidder (bid_AuctionId b) bidder)) (\<lambda>found. case found of
       None \<Rightarrow> raiseM ErrNotFound
     | Some allowedBidder \<Rightarrow>
     bindM (liftR (orPanic (ab_MaxBidAmount allowedBidder))) (\<lambda>maxBidAmount.
     guardM (maxBidAmount < ConvertToSellingAmount k b (GetPayingCoinDenom auction))
       ErrOverMaxBidAmountLimit)))"

definition ValidateBatchWorthBid ::
    "('b, 'z) keeper_scheme \<Rightarrow> AuctionI \<Rightarrow> Bid \<Rightarrow> ('b, unit) kcomp" where
  "ValidateBatchWorthBid k auction b =
     bindM (guardM (GetType auction \<noteq> AuctionTypeBatch) ErrIncorrectAuctionType) (\<lambda>_.
     bindM (guardM (Denom (bid_Coin b) \<noteq> GetPayingCoinDenom auction) ErrIncorrectCoinDenom) (\<lambda>_.
     checkMaxBidAmount k auction b))"

definition ValidateBatchManyBid ::
    "('b, 'z) keeper_scheme \<Rightarrow> AuctionI \<Rightarrow> Bid \<Rightarrow> ('b, unit) kcomp" where
  "ValidateBatchManyBid k auction b =
     bindM (guardM (GetType auction \<noteq> AuctionTypeBatch) ErrIncorrectAuctionType) (\<lambda>_.
     bindM (guardM (Denom (bid_Coin b) \<noteq> Denom (GetSellingCoin auction)) ErrIncorrectCoinDenom) (\<lambda>_.
     checkMaxBidAmount k auction b))"

section \<open>Placing a bid\<close>

text \<open>The switch on the bid type: validate, reserve the paying coin and, at a fixed price, take the
  amount from what remains. The result is the bid to store.\<close>

definition placeFixedPriceBid ::
    "('b, 'z) keeper_scheme \<Rightarrow> AuctionI \<Rightarrow> accAddress \<Rightarrow> Bid \<Rightarrow> ('b, Bid) kcomp" where
  "placeFixedPriceBid k auction bidder b =
     bindM (ValidateFixedPriceBid k auction b) (\<lambda>_.
     case auction of BatchAuction _ _ _ _ _ \<Rightarrow> panicM | FixedPriceAuction ba remaining \<Rightarrow>
     bindM (liftR (orPanic (NewCoin k (GetPayingCoinDenom auction)
       (ConvertToPayingAmount k b (GetPayingCoinDenom auction))))) (\<lambda>bidPayingCoin.
     bindM (ReservePayingCoin k (bid_AuctionId b) bidder bidPayingCoin) (\<lambda>_.
     bindM (liftR (orPanic (NewCoin k (Denom (GetSellingCoin auction))
       (ConvertToSellingAmount k b (GetPayingCoinDenom auction))))) (\<lambda>bidSellingCoin.
     bindM (liftR (orPanic (CoinSub k remaining bidSellingCoin))) (\<lambda>remaining'.
     bindM (modifyM (SetAuction (FixedPriceAuction ba remaining'))) (\<lambda>_.
     returnM (SetMatched True b)))))))"

definition placeBatchWorthBid ::
    "('b, 'z) keeper_scheme \<Rightarrow> AuctionI \<Rightarrow> accAddress \<Rightarrow> Bid \<Rightarrow> ('b, Bid) kcomp" where
  "placeBatchWorthBid k auction bidder b =
     bindM (ValidateBatchWorthBid k auction b) (\<lambda>_.
     bindM (ReservePayingCoin k (bid_AuctionId b) bidder (bid_Coin b)) (\<lambda>_.
     returnM b))"

definition placeBatchManyBid ::
    "('b, 'z) keeper_scheme \<Rightarrow> AuctionI \<Rightarrow> accAddress \<Rightarrow> Bid \<Rightarrow> ('b, Bid) kcomp" where
  "placeBatchManyBid k auction bidder b =
     bindM (ValidateBatchManyBid k auction b) (\<lambda>_.
     bindM (liftR (orPanic (NewCoin k (GetPayingCoinDenom auction)
       (ConvertToPayingAmount k b (GetPayingCoinDenom auction))))) (\<lambda>reserveCoin.
     bindM (ReservePayingCoin k (bid_AuctionId b) bidder reserveCoin) (\<lambda>_.
     returnM b)))"

definition placeByType ::
    "('b, 'z) keeper_scheme \<Rightarrow> AuctionI \<Rightarrow> accAddress \<Rightarrow> Bid \<Rightarrow> ('b, Bid) kcomp" where
  "placeByType k auction bidder b =
     (case bid_Type b of
        BidTypeFixedPrice \<Rightarrow> placeFixedPriceBid k auction bidder b
      | BidTypeBatchWorth \<Rightarrow> placeBatchWorthBid k auction bidder b
      | BidTypeBatchMany \<Rightarrow> placeBatchManyBid k auction bidder b
      | BidTypeNil \<Rightarrow> returnM b)"

definition PlaceBid :: "('b, 'z) keeper_scheme \<Rightarrow> MsgPlaceBid \<Rightarrow> ('b, Bid) kcomp" where
  "PlaceBid k msg =
     bindM (getsM (GetAuction (mp_AuctionId msg))) (\<lambda>found. case found of
       None \<Rightarrow> raiseM ErrNotFound
     | Some auction \<Rightarrow>
     bindM (guardM (GetStatus auction \<noteq> AuctionStatusStarted) ErrInvalidAuctionStatus) (\<lambda>_.
     bindM (if GetType auction = AuctionTypeBatch
            then (case auction of
                BatchAuction _ minBidPrice _ _ _ \<Rightarrow>
                  guardM (mp_Price msg < minBidPrice) ErrInsufficientMinBidPrice
              | FixedPriceAuction _ _ \<Rightarrow> panicM)
            else returnM ()) (\<lambda>_.
     bindM (liftR (orPanic (mp_GetBidder k msg))) (\<lambda>bidder.
     bindM (getsM (GetAllowedBidder (GetId auction) bidder)) (\<lambda>allowed.
     bindM (guardM (allowed = None) ErrNotAllowedBidder) (\<lambda>_.
     bindM (PayPlaceBidFee k bidder) (\<lambda>_.
     bindM (GetNextBidIdWithUpdate (GetId auction)) (\<lambda>bidId.
     let b = \<lparr> bid_AuctionId = mp_AuctionId msg, bid_Bidder = mp_Bidder msg, bid_Id = bidId,
               bid_Type = mp_BidType msg, bid_Price = mp_Price msg, bid_Coin = mp_Coin msg,
               bid_IsMatched = False \<rparr> in
     bindM (placeByType k auction bidder b) (\<lambda>b'.
     bindM (BeforeBidPlaced k (bid_AuctionId b') (bid_Id b') (bid_Bidder b') (bid_Type b')
       (bid_Price b') (bid_Coin b')) (\<lambda>_.
     bindM (SetBid k b') (\<lambda>_.
     bindM (EmitEvent \<lparr> ev_Type = ''place_bid'', ev_Attributes =
       [(''auction_id'', AttrUint (GetId auction)),
        (''bidder_address'', AttrStr (AccAddressString k bidder)),
        (''bid_price'', AttrDec (mp_Price msg)),
        (''bid_coin'', AttrCoin (mp_Coin msg))] \<rparr>) (\<lambda>_.
     returnM b'))))))))))))"

section \<open>Modifying a bid\<close>

text \<open>The switch on the type of the stored bid: reserve the difference.\<close>

definition reserveDifference ::
    "('b, 'z) keeper_scheme \<Rightarrow> AuctionI \<Rightarrow> accAddress \<Rightarrow> Bid \<Rightarrow> MsgModifyBid \<Rightarrow> ('b, unit) kcomp" where
  "reserveDifference k auction bidder b msg =
     (case bid_Type b of
        BidTypeBatchWorth \<Rightarrow>
          bindM (liftR (orPanic (CoinSub k (mm_Coin msg) (bid_Coin b)))) (\<lambda>diffReserveCoin.
          if 0 < Amount diffReserveCoin
          then ReservePayingCoin k (mm_AuctionId msg) bidder diffReserveCoin else returnM ())
      | BidTypeBatchMany \<Rightarrow>
          (let prevReserveAmt =
                 DecCeil k (DecMul k (NewDecFromInt k (Amount (bid_Coin b))) (bid_Price b));
               currReserveAmt =
                 DecCeil k (DecMul k (NewDecFromInt k (Amount (mm_Coin msg))) (mm_Price msg));
               diffReserveAmt = DecTruncateInt k (DecSub k currReserveAmt prevReserveAmt)
           in bindM (liftR (orPanic (NewCoin k (GetPayingCoinDenom auction) diffReserveAmt)))
             (\<lambda>diffReserveCoin.
              if 0 < Amount diffReserveCoin
              then ReservePayingCoin k (mm_AuctionId msg) bidder diffReserveCoin else returnM ()))
      | _ \<Rightarrow> returnM ())"

definition ModifyBid :: "('b, 'z) keeper_scheme \<Rightarrow> MsgModifyBid \<Rightarrow> ('b, unit) kcomp" where
  "ModifyBid k msg =
     bindM (getsM (GetAuction (mm_AuctionId msg))) (\<lambda>found. case found of
       None \<Rightarrow> raiseM ErrNotFound
     | Some auction \<Rightarrow>
     bindM (guardM (GetStatus auction \<noteq> AuctionStatusStarted) ErrInvalidAuctionStatus) (\<lambda>_.
     bindM (guardM (GetType auction \<noteq> AuctionTypeBatch) ErrIncorrectAuctionType) (\<lambda>_.
     bindM (getsM (GetBid (mm_AuctionId msg) (mm_BidId msg))) (\<lambda>found. case found of
       None \<Rightarrow> raiseM ErrNotFound
     | Some b \<Rightarrow>
     bindM (liftR (orPanic (Bid_GetBidder k b))) (\<lambda>bidOwner.
     bindM (liftR (orPanic (mm_GetBidder k msg))) (\<lambda>bidder.
     bindM (guardM (bidOwner \<noteq> bidder) ErrUnauthorized) (\<lambda>_.
     bindM (case auction of
         BatchAuction _ minBidPrice _ _ _ \<Rightarrow>
           guardM (mm_Price msg < minBidPrice) ErrInsufficientMinBidPrice
       | FixedPriceAuction _ _ \<Rightarrow> panicM) (\<lambda>_.
     bindM (guardM (Denom (bid_Coin b) \<noteq> Denom (mm_Coin msg)) ErrIncorrectCoinDenom) (\<lambda>_.
     bindM (guardM (mm_Price msg < bid_Price b \<or> Amount (mm_Coin msg) < Amount (bid_Coin b))
       ErrInvalidRequest) (\<lambda>_.
     bindM (guardM (mm_Price msg = bid_Price b \<and> Amount (mm_Coin msg) = Amount (bid_Coin b))
       ErrInvalidRequest) (\<lambda>_.
     bindM (reserveDifference k auction bidder b msg) (\<lambda>_.
     let b' = b\<lparr> bid_Price := mm_Price msg, bid_Coin := mm_Coin msg \<rparr> in
     bindM (BeforeBidModified k (bid_AuctionId b') (bid_Id b') (bid_Bidder b') (bid_Type b')
       (bid_Price b') (bid_Coin b')) (\<lambda>_.
     SetBid k b')))))))))))))"

end
