(* ===== verification/Settlement.thy ===== *)
theory Settlement
  imports Bidding
begin

text \<open>
  What happens to an auction over time: allocation, refund, vesting, extension, closing
  (\<^verbatim>\<open>keeper/match.go\<close>, the second part of \<^verbatim>\<open>keeper/auction.go\<close>, \<^verbatim>\<open>keeper/vesting.go\<close>,
  \<^verbatim>\<open>keeper/execution.go\<close>) and the begin blocker (\<^verbatim>\<open>abci.go\<close>).
\<close>

section \<open>Matching information\<close>

record MatchingInfo =
  mi_MatchedLen :: int
  mi_MatchedPrice :: "dec option"
  mi_TotalMatchedAmount :: int
  mi_AllocationMap :: "(string, int) omap"
  mi_ReservedMatchedMap :: "(string, int) omap"
  mi_RefundMap :: "(string, int) omap"

text \<open>\<open>m[key] = m[key] + n\<close>, where a missing entry counts as zero.\<close>

definition addTo :: "string \<Rightarrow> int \<Rightarrow> (string, int) omap \<Rightarrow> (string, int) omap" where
  "addTo x n m = oset x ((case oget m x of None \<Rightarrow> 0 | Some v \<Rightarrow> v) + n) m"

definition CalculateFixedPriceAllocation ::
    "'a sdk_math_scheme \<Rightarrow> AuctionI \<Rightarrow> 'b state \<Rightarrow> MatchingInfo" where
  "CalculateFixedPriceAllocation S auction s =
     fold (\<lambda>b mInfo.
         let bidAmt = ConvertToSellingAmount S b (GetPayingCoinDenom auction)
         in mInfo\<lparr> mi_AllocationMap := addTo (bid_Bidder b) bidAmt (mi_AllocationMap mInfo),
                   mi_TotalMatchedAmount := mi_TotalMatchedAmount mInfo + bidAmt,
                   mi_MatchedLen := mi_MatchedLen mInfo + 1 \<rparr>)
       (GetBidsByAuctionId (GetId auction) s)
       \<lparr> mi_MatchedLen = 0, mi_MatchedPrice = Some (GetStartPrice auction), mi_TotalMatchedAmount = 0,
         mi_AllocationMap = [], mi_ReservedMatchedMap = [], mi_RefundMap = [] \<rparr>"

definition reservedAmtByBidder :: "'a sdk_math_scheme \<Rightarrow> denom \<Rightarrow> Bid list \<Rightarrow> (string, int) omap" where
  "reservedAmtByBidder S pd bids =
     fold (\<lambda>b m. addTo (bid_Bidder b) (ConvertToPayingAmount S b pd) m) bids []"

text \<open>The two loops over the bidders: first nothing is allocated and everything is refunded, then
  the matched bidders are overwritten. A matched bidder without a reserved amount is a nil
  dereference.\<close>

definition initialInfo :: "MatchResult \<Rightarrow> (string, int) omap \<Rightarrow> MatchingInfo" where
  "initialInfo matchRes reserved =
   \<lparr> mi_MatchedLen = int (length (mr_MatchedBids matchRes)),
     mi_MatchedPrice = mr_MatchPrice matchRes,
     mi_TotalMatchedAmount = mr_MatchedAmount matchRes,
     mi_AllocationMap = map (\<lambda>e. (fst e, 0)) reserved,
     mi_ReservedMatchedMap = map (\<lambda>e. (fst e, 0)) reserved,
     mi_RefundMap = reserved \<rparr>"

definition setMatchedBidder ::
    "(string, int) omap \<Rightarrow> string \<times> BidderMatchResult \<Rightarrow> MatchingInfo \<Rightarrow> MatchingInfo res" where
  "setMatchedBidder reserved e mInfo =
     bindR (orPanic (oget reserved (fst e))) (\<lambda>reservedAmt.
     Ok (mInfo\<lparr>
       mi_AllocationMap := oset (fst e) (bmr_MatchedAmount (snd e)) (mi_AllocationMap mInfo),
       mi_ReservedMatchedMap := oset (fst e) (bmr_PayingAmount (snd e)) (mi_ReservedMatchedMap mInfo),
       mi_RefundMap := oset (fst e) (reservedAmt - bmr_PayingAmount (snd e)) (mi_RefundMap mInfo) \<rparr>))"

definition CalculateBatchAllocation ::
    "('b, 'z) keeper_scheme \<Rightarrow> AuctionI \<Rightarrow> ('b, MatchingInfo) kcomp" where
  "CalculateBatchAllocation k auction =
     bindM (getsM (GetBidsByAuctionId (GetId auction))) (\<lambda>bids.
     bindM (liftR (BidsByPrice k bids)) (\<lambda>(prices, bidsByPrice).
     let sellingAmt = Amount (GetSellingCoin auction) in
     bindM (getsM (GetAllowedBiddersByAuction (GetId auction))) (\<lambda>allowedBidders.
     bindM (liftR (findMatch k prices bidsByPrice sellingAmt allowedBidders)) (\<lambda>matchRes.
     let reserved = reservedAmtByBidder k (GetPayingCoinDenom auction) (SortBids k bids) in
     bindM (liftR (foldR (setMatchedBidder reserved) (mr_MatchResultByBidder matchRes)
       (initialInfo matchRes reserved))) (\<lambda>mInfo.
     bindM (foreachM (\<lambda>b. SetBid k (SetMatched True b)) (mr_MatchedBids matchRes)) (\<lambda>_.
     bindM (modifyM (SetMatchedBidsLen (GetId auction) (mi_MatchedLen mInfo))) (\<lambda>_.
     returnM mInfo)))))))"

section \<open>Allocation and refund\<close>

text \<open>One transfer per bidder with a non-zero amount, in the order of the bidders' text forms. In
  \<open>AllocateSellingCoin\<close> an undecodable text form gives the empty address, in
  \<open>RefundPayingCoin\<close> an error.\<close>

fun transferList ::
    "('b, 'z) keeper_scheme \<Rightarrow> (string \<Rightarrow> accAddress res) \<Rightarrow> denom \<Rightarrow> (string, int) omap
     \<Rightarrow> (accAddress \<times> coins) list res" where
  "transferList k addr d [] = Ok []"
| "transferList k addr d ((bidder, amt) # m) =
     (if amt = 0 then transferList k addr d m
      else bindR (addr bidder) (\<lambda>a.
        bindR (orPanic (Option.bind (NewCoin k d amt) (\<lambda>c. NewCoins k [c]))) (\<lambda>cs.
        bindR (transferList k addr d m) (\<lambda>rest. Ok ((a, cs) # rest)))))"

definition addrOrEmpty :: "'a sdk_scheme \<Rightarrow> string \<Rightarrow> accAddress res" where
  "addrOrEmpty S x = Ok (case AccAddressFromBech32 S x of None \<Rightarrow> [] | Some a \<Rightarrow> a)"

definition addrOrErr :: "'a sdk_scheme \<Rightarrow> string \<Rightarrow> accAddress res" where
  "addrOrErr S x = (case AccAddressFromBech32 S x of None \<Rightarrow> Err ErrBech32 | Some a \<Rightarrow> Ok a)"

definition AllocateSellingCoin ::
    "('b, 'z) keeper_scheme \<Rightarrow> AuctionI \<Rightarrow> MatchingInfo \<Rightarrow> ('b, unit) kcomp" where
  "AllocateSellingCoin k auction mInfo =
     bindM (BeforeSellingCoinsAllocated k (GetId auction) (mi_AllocationMap mInfo) (mi_RefundMap mInfo)) (\<lambda>_.
     bindM (liftR (orPanic (GetSellingReserveAddress k auction))) (\<lambda>sellingReserveAddr.
     bindM (liftR (transferList k (addrOrEmpty k) (Denom (GetSellingCoin auction))
       (mi_AllocationMap mInfo))) (\<lambda>outputs.
     bankM (\<lambda>b. InputOutputCoins k b (map (\<lambda>x. (sellingReserveAddr, snd x)) outputs) outputs))))"

definition RefundRemainingSellingCoin :: "('b, 'z) keeper_scheme \<Rightarrow> AuctionI \<Rightarrow> ('b, unit) kcomp" where
  "RefundRemainingSellingCoin k auction =
     bindM (liftR (orPanic (GetSellingReserveAddress k auction))) (\<lambda>sellingReserveAddr.
     let sellingCoinDenom = Denom (GetSellingCoin auction) in
     bindM (getsM (spendable k sellingReserveAddr sellingCoinDenom)) (\<lambda>amt.
     bindM (liftR (orPanic (NewCoin k sellingCoinDenom amt))) (\<lambda>releaseCoin.
     bindM (liftR (orPanic (GetAuctioneer k auction))) (\<lambda>auctioneer.
     sendCoin k sellingReserveAddr auctioneer releaseCoin))))"

definition RefundPayingCoin ::
    "('b, 'z) keeper_scheme \<Rightarrow> AuctionI \<Rightarrow> MatchingInfo \<Rightarrow> ('b, unit) kcomp" where
  "RefundPayingCoin k auction mInfo =
     bindM (liftR (orPanic (GetPayingReserveAddress k auction))) (\<lambda>payingReserveAddr.
     bindM (liftR (transferList k (addrOrErr k) (GetPayingCoinDenom auction)
       (mi_RefundMap mInfo))) (\<lambda>outputs.
     bankM (\<lambda>b. InputOutputCoins k b (map (\<lambda>x. (payingReserveAddr, snd x)) outputs) outputs)))"

section \<open>Vesting\<close>

text \<open>The loop over the schedules: each but the last gets its weight of the reserve, rounded down;
  the last gets what is left.\<close>

fun vestingLoop ::
    "('b, 'z) keeper_scheme \<Rightarrow> AuctionI \<Rightarrow> string \<Rightarrow> coin \<Rightarrow> VestingSchedule list \<Rightarrow> coin
     \<Rightarrow> ('b, unit) kcomp" where
  "vestingLoop k auction auctioneer reserveCoin [] remaining = returnM ()"
| "vestingLoop k auction auctioneer reserveCoin (schedule # rest) remaining =
     (let payingAmt =
            (if rest = [] then Amount remaining
             else DecTruncateInt k
               (DecMulTruncate k (NewDecFromInt k (Amount reserveCoin)) (vs_Weight schedule)))
      in bindM (liftR (orPanic (NewCoin k (GetPayingCoinDenom auction) payingAmt))) (\<lambda>c.
         bindM (modifyM (SetVestingQueue
           \<lparr> vq_AuctionId = GetId auction, vq_Auctioneer = auctioneer, vq_PayingCoin = c,
             vq_ReleaseTime = vs_ReleaseTime schedule, vq_Released = False \<rparr>)) (\<lambda>_.
         bindM (liftR (orPanic (CoinSubAmount k remaining payingAmt))) (\<lambda>remaining'.
         vestingLoop k auction auctioneer reserveCoin rest remaining'))))"

definition ApplyVestingSchedules :: "('b, 'z) keeper_scheme \<Rightarrow> AuctionI \<Rightarrow> ('b, unit) kcomp" where
  "ApplyVestingSchedules k auction =
     bindM (liftR (orPanic (GetPayingReserveAddress k auction))) (\<lambda>payingReserveAddr.
     bindM (liftR (orPanic (GetVestingReserveAddress k auction))) (\<lambda>vestingReserveAddr.
     let payingCoinDenom = GetPayingCoinDenom auction in
     bindM (getsM (spendable k payingReserveAddr payingCoinDenom)) (\<lambda>amt.
     bindM (liftR (orPanic (NewCoin k payingCoinDenom amt))) (\<lambda>reserveCoin.
     bindM (liftR (orPanic (GetAuctioneer k auction))) (\<lambda>auctioneer.
     if length (GetVestingSchedules auction) = 0
     then bindM (sendCoin k payingReserveAddr auctioneer reserveCoin) (\<lambda>_.
          modifyM (SetAuction (SetStatus AuctionStatusFinished auction)))
     else bindM (sendCoin k payingReserveAddr vestingReserveAddr reserveCoin) (\<lambda>_.
          bindM (vestingLoop k auction (AccAddressString k auctioneer) reserveCoin
            (GetVestingSchedules auction) reserveCoin) (\<lambda>_.
          modifyM (SetAuction (SetStatus AuctionStatusVesting auction))))))))) "

text \<open>The loop over the vesting queues. Its argument is the auction as the loop variable
  \<open>auction\<close> holds it, whose status the last released queue changes.\<close>

fun releaseLoop ::
    "('b, 'z) keeper_scheme \<Rightarrow> AuctionI \<Rightarrow> VestingQueue list \<Rightarrow> ('b, unit) kcomp" where
  "releaseLoop k auction [] = returnM ()"
| "releaseLoop k auction (q # rest) =
     bindM (getsM BlockTime) (\<lambda>now.
     if ShouldRelease q now
     then bindM (liftR (orPanic (GetVestingReserveAddress k auction))) (\<lambda>vestingReserveAddr.
          bindM (liftR (orPanic (GetAuctioneer k auction))) (\<lambda>auctioneerAddr.
          bindM (sendCoin k vestingReserveAddr auctioneerAddr (vq_PayingCoin q)) (\<lambda>_.
          bindM (modifyM (SetVestingQueue (SetReleased True q))) (\<lambda>_.
          if rest = []
          then modifyM (SetAuction (SetStatus AuctionStatusFinished auction))
          else releaseLoop k auction rest))))
     else releaseLoop k auction rest)"

definition ReleaseVestingPayingCoin :: "('b, 'z) keeper_scheme \<Rightarrow> AuctionI \<Rightarrow> ('b, unit) kcomp" where
  "ReleaseVestingPayingCoin k auction =
     bindM (getsM (GetVestingQueuesByAuctionId (GetId auction))) (\<lambda>vestingQueues.
     releaseLoop k auction vestingQueues)"

section \<open>Closing\<close>

text \<open>\<open>t.AddDate(0, 0, n)\<close> in UTC.\<close>

definition addDays :: "time \<Rightarrow> int \<Rightarrow> time" where
  "addDays t n = t + n * (24 * 60 * 60 * 10 ^ 9)"

definition ExtendRound :: "AuctionI \<Rightarrow> ('b, unit) kcomp" where
  "ExtendRound ba =
     bindM (getsM GetParams) (\<lambda>p.
     bindM (liftR (orPanic (lastTime (GetEndTimes ba)))) (\<lambda>lastEnd.
     let nextEndTime = addDays lastEnd (uint (ExtendedPeriod p)) in
     modifyM (SetAuction (SetEndTimes (GetEndTimes ba @ [nextEndTime]) ba))))"

definition CloseFixedPriceAuction :: "('b, 'z) keeper_scheme \<Rightarrow> AuctionI \<Rightarrow> ('b, unit) kcomp" where
  "CloseFixedPriceAuction k auction =
     bindM (getsM (CalculateFixedPriceAllocation k auction)) (\<lambda>mInfo.
     bindM (mustM (AllocateSellingCoin k auction mInfo)) (\<lambda>_.
     bindM (mustM (RefundRemainingSellingCoin k auction)) (\<lambda>_.
     mustM (ApplyVestingSchedules k auction))))"

text \<open>The four steps that end a batch auction; the source writes them out twice.\<close>

definition finishBatch ::
    "('b, 'z) keeper_scheme \<Rightarrow> AuctionI \<Rightarrow> MatchingInfo \<Rightarrow> ('b, unit) kcomp" where
  "finishBatch k auction mInfo =
     bindM (mustM (AllocateSellingCoin k auction mInfo)) (\<lambda>_.
     bindM (mustM (RefundRemainingSellingCoin k auction)) (\<lambda>_.
     bindM (mustM (RefundPayingCoin k auction mInfo)) (\<lambda>_.
     mustM (ApplyVestingSchedules k auction))))"

definition CloseBatchAuction :: "('b, 'z) keeper_scheme \<Rightarrow> AuctionI \<Rightarrow> ('b, unit) kcomp" where
  "CloseBatchAuction k auction =
     (case auction of FixedPriceAuction _ _ \<Rightarrow> panicM
      | BatchAuction _ _ _ maxExtendedRound extendedRoundRate \<Rightarrow>
     bindM (getsM (GetLastMatchedBidsLen (GetId auction))) (\<lambda>lastMatchedLen.
     bindM (CalculateBatchAllocation k auction) (\<lambda>mInfo.
     if maxExtendedRound + 1 = word_of_nat (length (GetEndTimes auction))
     then finishBatch k auction mInfo
     else if lastMatchedLen = 0 then ExtendRound auction
     else
       let currDec = NewDecFromInt k (mi_MatchedLen mInfo);
           lastDec = NewDecFromInt k lastMatchedLen;
           diff = DecSub k (OneDec k) (DecQuo k currDec lastDec)
       in if extendedRoundRate \<le> diff then ExtendRound auction
          else finishBatch k auction mInfo)))"

section \<open>Execution\<close>

definition ExecuteStandByStatus :: "AuctionI \<Rightarrow> ('b, unit) kcomp" where
  "ExecuteStandByStatus auction =
     bindM (getsM BlockTime) (\<lambda>now.
     if ShouldAuctionStarted auction now
     then modifyM (SetAuction (SetStatus AuctionStatusStarted auction)) else returnM ())"

definition ExecuteStartedStatus :: "('b, 'z) keeper_scheme \<Rightarrow> AuctionI \<Rightarrow> ('b, unit) kcomp" where
  "ExecuteStartedStatus k auction =
     bindM (getsM BlockTime) (\<lambda>now.
     bindM (liftR (orPanic (ShouldAuctionClosed auction now))) (\<lambda>closed.
     if closed
     then (case GetType auction of
         AuctionTypeFixedPrice \<Rightarrow> CloseFixedPriceAuction k auction
       | AuctionTypeBatch \<Rightarrow> CloseBatchAuction k auction
       | AuctionTypeNil \<Rightarrow> returnM ())
     else returnM ()))"

definition ExecuteVestingStatus :: "('b, 'z) keeper_scheme \<Rightarrow> AuctionI \<Rightarrow> ('b, unit) kcomp" where
  "ExecuteVestingStatus k auction = mustM (ReleaseVestingPayingCoin k auction)"

definition executeAuction :: "('b, 'z) keeper_scheme \<Rightarrow> AuctionI \<Rightarrow> ('b, unit) kcomp" where
  "executeAuction k auction =
     (case GetStatus auction of
        AuctionStatusStandBy \<Rightarrow> ExecuteStandByStatus auction
      | AuctionStatusStarted \<Rightarrow> ExecuteStartedStatus k auction
      | AuctionStatusVesting \<Rightarrow> ExecuteVestingStatus k auction
      | _ \<Rightarrow> returnM ())"

text \<open>The list of auctions is read once, before the loop.\<close>

definition BeginBlocker :: "('b, 'z) keeper_scheme \<Rightarrow> ('b, unit) kcomp" where
  "BeginBlocker k = bindM (getsM GetAuctions) (\<lambda>auctions. foreachM (executeAuction k) auctions)"

end
