(* ===== verification/MsgServer.thy ===== *)
theory MsgServer
  imports Settlement
begin

text \<open>
  The message server (\<^verbatim>\<open>keeper/msg_server.go\<close>), the message handler (\<^verbatim>\<open>handler.go\<close>) and the
  module's run-time invariants (\<^verbatim>\<open>keeper/invariants.go\<close>).
\<close>

section \<open>Messages\<close>

datatype Msg =
    CreateFixedPriceAuctionMsg MsgCreateFixedPriceAuction
  | CreateBatchAuctionMsg MsgCreateBatchAuction
  | CancelAuctionMsg MsgCancelAuction
  | PlaceBidMsg MsgPlaceBid
  | ModifyBidMsg MsgModifyBid
  | AddAllowedBidderMsg MsgAddAllowedBidder
  | OtherMsg

text \<open>The stateless validation a message undergoes before it is handled. A message of another
  module is not this module's to check.\<close>

fun Msg_ValidateBasic :: "'a sdk_scheme \<Rightarrow> Msg \<Rightarrow> unit res" where
  "Msg_ValidateBasic S (CreateFixedPriceAuctionMsg m) = mf_ValidateBasic S m"
| "Msg_ValidateBasic S (CreateBatchAuctionMsg m) = mb_ValidateBasic S m"
| "Msg_ValidateBasic S (CancelAuctionMsg m) = mc_ValidateBasic S m"
| "Msg_ValidateBasic S (PlaceBidMsg m) = mp_ValidateBasic S m"
| "Msg_ValidateBasic S (ModifyBidMsg m) = mm_ValidateBasic S m"
| "Msg_ValidateBasic S (AddAllowedBidderMsg m) = ma_ValidateBasic S m"
| "Msg_ValidateBasic S OtherMsg = Ok ()"

section \<open>Message server\<close>

definition msgServer_CreateFixedPriceAuction ::
    "('b, 'z) keeper_scheme \<Rightarrow> MsgCreateFixedPriceAuction \<Rightarrow> ('b, unit) kcomp" where
  "msgServer_CreateFixedPriceAuction k msg = bindM (CreateFixedPriceAuction k msg) (\<lambda>_. returnM ())"

definition msgServer_CreateBatchAuction ::
    "('b, 'z) keeper_scheme \<Rightarrow> MsgCreateBatchAuction \<Rightarrow> ('b, unit) kcomp" where
  "msgServer_CreateBatchAuction k msg = bindM (CreateBatchAuction k msg) (\<lambda>_. returnM ())"

definition msgServer_CancelAuction ::
    "('b, 'z) keeper_scheme \<Rightarrow> MsgCancelAuction \<Rightarrow> ('b, unit) kcomp" where
  "msgServer_CancelAuction k msg = bindM (CancelAuction k msg) (\<lambda>_. returnM ())"

definition msgServer_PlaceBid :: "('b, 'z) keeper_scheme \<Rightarrow> MsgPlaceBid \<Rightarrow> ('b, unit) kcomp" where
  "msgServer_PlaceBid k msg = bindM (PlaceBid k msg) (\<lambda>_. returnM ())"

definition msgServer_ModifyBid :: "('b, 'z) keeper_scheme \<Rightarrow> MsgModifyBid \<Rightarrow> ('b, unit) kcomp" where
  "msgServer_ModifyBid k msg = bindM (ModifyBid k msg) (\<lambda>_. returnM ())"

definition msgServer_AddAllowedBidder ::
    "('b, 'z) keeper_scheme \<Rightarrow> MsgAddAllowedBidder \<Rightarrow> ('b, unit) kcomp" where
  "msgServer_AddAllowedBidder k msg =
     (if EnableAddAllowedBidder k
      then bindM (AddAllowedBidders k (ma_AuctionId msg) [ma_AllowedBidder msg]) (\<lambda>_. returnM ())
      else raiseM ErrInvalidRequest)"

section \<open>Handler\<close>

text \<open>The handler runs the message with an event manager of its own; the result carries the events
  of this message, and the caller's events stay as they were.\<close>

fun handleMsg :: "('b, 'z) keeper_scheme \<Rightarrow> Msg \<Rightarrow> ('b, unit) kcomp" where
  "handleMsg k (CreateFixedPriceAuctionMsg m) = msgServer_CreateFixedPriceAuction k m"
| "handleMsg k (CreateBatchAuctionMsg m) = msgServer_CreateBatchAuction k m"
| "handleMsg k (CancelAuctionMsg m) = msgServer_CancelAuction k m"
| "handleMsg k (PlaceBidMsg m) = msgServer_PlaceBid k m"
| "handleMsg k (ModifyBidMsg m) = msgServer_ModifyBid k m"
| "handleMsg k (AddAllowedBidderMsg m) = msgServer_AddAllowedBidder k m"
| "handleMsg k OtherMsg = raiseM ErrUnknownRequest"

definition NewHandler :: "('b, 'z) keeper_scheme \<Rightarrow> Msg \<Rightarrow> ('b, event list) kcomp" where
  "NewHandler k msg = (\<lambda>s.
     let (r, t) = bindM (handleMsg k msg) (\<lambda>_. getsM events) (s\<lparr>events := []\<rparr>)
     in (r, t\<lparr>events := events s\<rparr>))"

section \<open>Invariants\<close>

text \<open>Each invariant counts the auctions that break it; an auction whose addresses do not decode or
  whose coins cannot be compared is a panic. The message text is left out.\<close>

definition coinOf ::
    "('b, 'z) keeper_scheme \<Rightarrow> 'b state \<Rightarrow> accAddress option \<Rightarrow> denom \<Rightarrow> coin res" where
  "coinOf k s addr d =
     bindR (orPanic addr) (\<lambda>a. orPanic (NewCoin k d (spendable k a d s)))"

definition sellingPoolBroken ::
    "('b, 'z) keeper_scheme \<Rightarrow> 'b state \<Rightarrow> AuctionI \<Rightarrow> nat \<Rightarrow> nat res" where
  "sellingPoolBroken k s auction cnt =
     (if GetStatus auction = AuctionStatusStarted
      then bindR (coinOf k s (GetSellingReserveAddress k auction) (Denom (GetSellingCoin auction)))
             (\<lambda>sellingReserve.
           bindR (orPanic (CoinIsGTE k sellingReserve (GetSellingCoin auction))) (\<lambda>ge.
           Ok (if ge then cnt else cnt + 1)))
      else Ok cnt)"

definition SellingPoolReserveAmountInvariant ::
    "('b, 'z) keeper_scheme \<Rightarrow> 'b state \<Rightarrow> bool res" where
  "SellingPoolReserveAmountInvariant k s =
     bindR (foldR (sellingPoolBroken k s) (GetAuctions s) 0) (\<lambda>cnt. Ok (cnt \<noteq> 0))"

definition addBidAmount ::
    "('b, 'z) keeper_scheme \<Rightarrow> denom \<Rightarrow> Bid \<Rightarrow> coin \<Rightarrow> coin res" where
  "addBidAmount k payingCoinDenom b totalBidCoin =
     bindR (orPanic (NewCoin k payingCoinDenom (ConvertToPayingAmount k b payingCoinDenom))) (\<lambda>c.
     orPanic (CoinAdd k totalBidCoin c))"

definition payingPoolBroken ::
    "('b, 'z) keeper_scheme \<Rightarrow> 'b state \<Rightarrow> AuctionI \<Rightarrow> nat \<Rightarrow> nat res" where
  "payingPoolBroken k s auction cnt =
     (let payingCoinDenom = GetPayingCoinDenom auction in
      bindR (orPanic (NewCoin k payingCoinDenom 0)) (\<lambda>zeroCoin.
      bindR (if GetStatus auction = AuctionStatusStarted
             then foldR (addBidAmount k payingCoinDenom) (GetBidsByAuctionId (GetId auction) s) zeroCoin
             else Ok zeroCoin) (\<lambda>totalBidCoin.
      bindR (coinOf k s (GetPayingReserveAddress k auction) payingCoinDenom) (\<lambda>payingReserve.
      bindR (orPanic (CoinIsGTE k payingReserve totalBidCoin)) (\<lambda>ge.
      Ok (if ge then cnt else cnt + 1))))))"

definition PayingPoolReserveAmountInvariant ::
    "('b, 'z) keeper_scheme \<Rightarrow> 'b state \<Rightarrow> bool res" where
  "PayingPoolReserveAmountInvariant k s =
     bindR (foldR (payingPoolBroken k s) (GetAuctions s) 0) (\<lambda>cnt. Ok (cnt \<noteq> 0))"

definition addUnreleased :: "'a sdk_scheme \<Rightarrow> VestingQueue \<Rightarrow> coin \<Rightarrow> coin res" where
  "addUnreleased S queue totalPayingCoin =
     (if \<not> vq_Released queue then orPanic (CoinAdd S totalPayingCoin (vq_PayingCoin queue))
      else Ok totalPayingCoin)"

definition vestingPoolBroken ::
    "('b, 'z) keeper_scheme \<Rightarrow> 'b state \<Rightarrow> AuctionI \<Rightarrow> nat \<Rightarrow> nat res" where
  "vestingPoolBroken k s auction cnt =
     (let payingCoinDenom = GetPayingCoinDenom auction in
      bindR (orPanic (NewCoin k payingCoinDenom 0)) (\<lambda>zeroCoin.
      bindR (if GetStatus auction = AuctionStatusVesting
             then foldR (addUnreleased k) (GetVestingQueuesByAuctionId (GetId auction) s) zeroCoin
             else Ok zeroCoin) (\<lambda>totalPayingCoin.
      bindR (coinOf k s (GetVestingReserveAddress k auction) payingCoinDenom) (\<lambda>vestingReserve.
      bindR (orPanic (CoinIsGTE k vestingReserve totalPayingCoin)) (\<lambda>ge.
      Ok (if ge then cnt else cnt + 1))))))"

definition VestingPoolReserveAmountInvariant ::
    "('b, 'z) keeper_scheme \<Rightarrow> 'b state \<Rightarrow> bool res" where
  "VestingPoolReserveAmountInvariant k s =
     bindR (foldR (vestingPoolBroken k s) (GetAuctions s) 0) (\<lambda>cnt. Ok (cnt \<noteq> 0))"

definition AllInvariants :: "('b, 'z) keeper_scheme \<Rightarrow> 'b state \<Rightarrow> bool res" where
  "AllInvariants k s =
     bindR (SellingPoolReserveAmountInvariant k s) (\<lambda>stop. if stop then Ok True else
     bindR (PayingPoolReserveAmountInvariant k s) (\<lambda>stop. if stop then Ok True else
     bindR (VestingPoolReserveAmountInvariant k s) (\<lambda>stop. if stop then Ok True else
     Ok False)))"

end
