(* ===== verification/Reference.thy ===== *)
theory Reference
  imports Store Messages
begin

text \<open>
  A reference implementation of the code the module is built on: 18-digit fixed point numbers with
  banker's rounding and their decimal text form, coins, an address codec, \<open>sort.Slice\<close> as insertion
  sort, and a bank that is a table of balances. It is executable, and the interpretations show
  that it satisfies every law the development assumes of that code: the assumptions of the
  properties hold together, and the witnesses evaluate the model on it.
\<close>

section \<open>Fixed point numbers\<close>

definition roundNat :: "int \<Rightarrow> int \<Rightarrow> int" where
  "roundNat a u =
     (let q = a div u; r = a mod u
      in if 2 * r < u \<or> (2 * r = u \<and> even q) then q else q + 1)"

definition bankersRound :: "int \<Rightarrow> int \<Rightarrow> int" where
  "bankersRound a u = (if a < 0 then - roundNat (- a) u else roundNat a u)"

fun fixedDigits :: "nat \<Rightarrow> nat \<Rightarrow> string" where
  "fixedDigits 0 n = []"
| "fixedDigits (Suc w) n = fixedDigits w (n div 10) @ [digit (n mod 10)]"

definition decShow :: "dec \<Rightarrow> string" where
  "decShow x =
     (let n = nat \<bar>mant x\<bar>
      in (if mant x < 0 then ''-'' else []) @ showNat (n div 10 ^ 18) @ ''.''
         @ fixedDigits 18 (n mod 10 ^ 18))"

definition decRead :: "string \<Rightarrow> dec" where
  "decRead t =
     (if t \<noteq> [] \<and> hd t = CHR ''-'' then Dec (- int (readNat (filter (\<lambda>c. c \<noteq> CHR ''.'') (tl t))))
      else Dec (int (readNat (filter (\<lambda>c. c \<noteq> CHR ''.'') t))))"

definition refMath :: sdk_math where
  "refMath = \<lparr>
     ZeroDec = Dec 0,
     OneDec = Dec decUnit,
     NewDecFromInt = (\<lambda>n. Dec (n * decUnit)),
     DecAdd = (\<lambda>x y. Dec (mant x + mant y)),
     DecSub = (\<lambda>x y. Dec (mant x - mant y)),
     DecMul = (\<lambda>x y. Dec (bankersRound (mant x * mant y) decUnit)),
     DecMulInt = (\<lambda>x n. Dec (mant x * n)),
     DecMulTruncate = (\<lambda>x y. Dec (mant x * mant y div decUnit)),
     DecQuo = (\<lambda>x y. Dec (bankersRound (mant x * decUnit) (mant y))),
     DecQuoTruncate = (\<lambda>x y. Dec (mant x * decUnit div mant y)),
     DecCeil = (\<lambda>x. Dec (- (- mant x div decUnit) * decUnit)),
     DecTruncateInt = (\<lambda>x. mant x div decUnit),
     DecString = decShow,
     MustNewDecFromStr = (\<lambda>t. if decShow (decRead t) = t then Some (decRead t) else None),
     MinInt = (\<lambda>m n. case (m, n) of (Some a, Some b) \<Rightarrow> Some (min a b) | _ \<Rightarrow> None) \<rparr>"

section \<open>Coins and addresses\<close>

definition refValidateDenom :: "denom \<Rightarrow> bool" where
  "refValidateDenom d \<longleftrightarrow> 3 \<le> length d \<and> length d \<le> 128"

definition refCoinValidate :: "coin \<Rightarrow> bool" where
  "refCoinValidate c \<longleftrightarrow> refValidateDenom (Denom c) \<and> 0 \<le> Amount c"

definition bytesOf :: "string \<Rightarrow> accAddress" where
  "bytesOf = map (\<lambda>c. word_of_nat (of_char c))"

definition textOf :: "accAddress \<Rightarrow> string" where
  "textOf = map (\<lambda>b. char_of (unat b))"

definition refFromBech32 :: "string \<Rightarrow> accAddress option" where
  "refFromBech32 t = (if usableAddress (bytesOf t) then Some (bytesOf t) else None)"

definition refSdk :: sdk where
  "refSdk = sdk_math.extend refMath \<lparr>
     ValidateDenom = refValidateDenom,
     NewCoin = (\<lambda>d n. if refValidateDenom d \<and> 0 \<le> n then Some (Coin d n) else None),
     CoinValidate = refCoinValidate,
     CoinAdd = (\<lambda>c c'. if Denom c = Denom c' then Some (Coin (Denom c) (Amount c + Amount c')) else None),
     CoinSub = (\<lambda>c c'. if Denom c = Denom c' \<and> 0 \<le> Amount c - Amount c'
       then Some (Coin (Denom c) (Amount c - Amount c')) else None),
     CoinSubAmount = (\<lambda>c n. if 0 \<le> Amount c - n then Some (Coin (Denom c) (Amount c - n)) else None),
     CoinIsLT = (\<lambda>c c'. if Denom c = Denom c' then Some (Amount c < Amount c') else None),
     CoinIsGTE = (\<lambda>c c'. if Denom c = Denom c' then Some (Amount c' \<le> Amount c) else None),
     NewCoins = (\<lambda>cs. if list_all refCoinValidate cs
       then Some (filter (\<lambda>c. Amount c \<noteq> 0) cs) else None),
     CoinsValidate = (\<lambda>cs. list_all (\<lambda>c. refValidateDenom (Denom c) \<and> 0 < Amount c) cs
       \<and> sorted_wrt (<) (map Denom cs)),
     AccAddressFromBech32 = refFromBech32,
     AccAddressString = textOf,
     address_Module = (\<lambda>module name. bytesOf name),
     crypto_AddressHash = (\<lambda>t. take 20 (bytesOf t)) \<rparr>"

section \<open>Sorting\<close>

fun insertBy :: "('a \<Rightarrow> 'a \<Rightarrow> bool) \<Rightarrow> 'a \<Rightarrow> 'a list \<Rightarrow> 'a list" where
  "insertBy lt x [] = [x]"
| "insertBy lt x (y # ys) = (if lt y x then y # insertBy lt x ys else x # y # ys)"

definition insertionSort :: "('a \<Rightarrow> 'a \<Rightarrow> bool) \<Rightarrow> 'a list \<Rightarrow> 'a list" where
  "insertionSort lt xs = foldr (insertBy lt) xs []"

section \<open>A bank\<close>

type_synonym ledger = "accAddress \<Rightarrow> denom \<Rightarrow> nat"

definition covers :: "ledger \<Rightarrow> accAddress \<Rightarrow> coins \<Rightarrow> bool" where
  "covers b x cs \<longleftrightarrow> list_all (\<lambda>c. coinsAmount cs (Denom c) \<le> int (b x (Denom c))) cs"

definition debit :: "ledger \<Rightarrow> accAddress \<Rightarrow> coins \<Rightarrow> ledger" where
  "debit b x cs = b(x := (\<lambda>d. nat (int (b x d) - coinsAmount cs d)))"

definition credit :: "ledger \<Rightarrow> accAddress \<Rightarrow> coins \<Rightarrow> ledger" where
  "credit b x cs = b(x := (\<lambda>d. nat (int (b x d) + coinsAmount cs d)))"

definition refSend :: "ledger \<Rightarrow> accAddress \<Rightarrow> accAddress \<Rightarrow> coins \<Rightarrow> error option \<times> ledger" where
  "refSend b x y cs =
     (if covers b x cs then (None, credit (debit b x cs) y cs) else (Some (ErrExternal 0), b))"

fun takeInputs :: "ledger \<Rightarrow> (accAddress \<times> coins) list \<Rightarrow> ledger option" where
  "takeInputs b [] = Some b"
| "takeInputs b (i # ins) =
     (if covers b (fst i) (snd i) then takeInputs (debit b (fst i) (snd i)) ins else None)"

definition giveOutputs :: "ledger \<Rightarrow> (accAddress \<times> coins) list \<Rightarrow> ledger" where
  "giveOutputs b outs = foldl (\<lambda>b' out. credit b' (fst out) (snd out)) b outs"

definition refInputOutput ::
    "ledger \<Rightarrow> (accAddress \<times> coins) list \<Rightarrow> (accAddress \<times> coins) list \<Rightarrow> error option \<times> ledger" where
  "refInputOutput b ins outs =
     (case takeInputs b ins of
        None \<Rightarrow> (Some (ErrExternal 1), b)
      | Some b' \<Rightarrow> (None, giveOutputs b' outs))"

definition communityPool :: accAddress where
  "communityPool = bytesOf ''distribution''"

definition reference :: "ledger keeper" where
  "reference = golib.extend (sdk.extend refSdk \<lparr> sort_Slice = insertionSort \<rparr>)
     \<lparr> SendCoins = refSend,
       SpendableAmountOf = (\<lambda>b a d. int (b a d)),
       InputOutputCoins = refInputOutput,
       FundCommunityPool = (\<lambda>b cs x. refSend b x communityPool cs),
       khooks = None,
       EnableAddAllowedBidder = True \<rparr>"

lemmas ref_defs = reference_def refSdk_def refMath_def golib.defs sdk.defs sdk_math.defs

lemma reference_math [simp]:
  "ZeroDec reference = Dec 0"
  "OneDec reference = Dec decUnit"
  "NewDecFromInt reference = (\<lambda>n. Dec (n * decUnit))"
  "DecAdd reference = (\<lambda>x y. Dec (mant x + mant y))"
  "DecSub reference = (\<lambda>x y. Dec (mant x - mant y))"
  "DecMul reference = (\<lambda>x y. Dec (bankersRound (mant x * mant y) decUnit))"
  "DecMulInt reference = (\<lambda>x n. Dec (mant x * n))"
  "DecMulTruncate reference = (\<lambda>x y. Dec (mant x * mant y div decUnit))"
  "DecQuo reference = (\<lambda>x y. Dec (bankersRound (mant x * decUnit) (mant y)))"
  "DecQuoTruncate reference = (\<lambda>x y. Dec (mant x * decUnit div mant y))"
  "DecCeil reference = (\<lambda>x. Dec (- (- mant x div decUnit) * decUnit))"
  "DecTruncateInt reference = (\<lambda>x. mant x div decUnit)"
  "DecString reference = decShow"
  "MustNewDecFromStr reference = (\<lambda>t. if decShow (decRead t) = t then Some (decRead t) else None)"
  "MinInt reference = (\<lambda>m n. case (m, n) of (Some a, Some b) \<Rightarrow> Some (min a b) | _ \<Rightarrow> None)"
  by (simp_all add: ref_defs)

lemma reference_coins [simp]:
  "ValidateDenom reference = refValidateDenom"
  "NewCoin reference = (\<lambda>d n. if refValidateDenom d \<and> 0 \<le> n then Some (Coin d n) else None)"
  "CoinValidate reference = refCoinValidate"
  "CoinAdd reference = (\<lambda>c c'. if Denom c = Denom c'
     then Some (Coin (Denom c) (Amount c + Amount c')) else None)"
  "CoinSub reference = (\<lambda>c c'. if Denom c = Denom c' \<and> 0 \<le> Amount c - Amount c'
     then Some (Coin (Denom c) (Amount c - Amount c')) else None)"
  "CoinSubAmount reference = (\<lambda>c n. if 0 \<le> Amount c - n
     then Some (Coin (Denom c) (Amount c - n)) else None)"
  "CoinIsLT reference = (\<lambda>c c'. if Denom c = Denom c' then Some (Amount c < Amount c') else None)"
  "CoinIsGTE reference = (\<lambda>c c'. if Denom c = Denom c' then Some (Amount c' \<le> Amount c) else None)"
  "NewCoins reference = (\<lambda>cs. if list_all refCoinValidate cs
     then Some (filter (\<lambda>c. Amount c \<noteq> 0) cs) else None)"
  "CoinsValidate reference = (\<lambda>cs. list_all (\<lambda>c. refValidateDenom (Denom c) \<and> 0 < Amount c) cs
     \<and> sorted_wrt (<) (map Denom cs))"
  by (simp_all add: ref_defs)

lemma reference_rest [simp]:
  "AccAddressFromBech32 reference = refFromBech32"
  "AccAddressString reference = textOf"
  "address_Module reference = (\<lambda>module name. bytesOf name)"
  "crypto_AddressHash reference = (\<lambda>t. take 20 (bytesOf t))"
  "sort_Slice reference = insertionSort"
  "SendCoins reference = refSend"
  "SpendableAmountOf reference = (\<lambda>b a d. int (b a d))"
  "InputOutputCoins reference = refInputOutput"
  "FundCommunityPool reference = (\<lambda>b cs x. refSend b x communityPool cs)"
  "khooks reference = None"
  "EnableAddAllowedBidder reference = True"
  by (simp_all add: ref_defs)

section \<open>The laws of the numbers\<close>

lemma roundNat_near:
  assumes "0 < u"
  shows "2 * \<bar>roundNat a u * u - a\<bar> \<le> u"
proof -
  define q where "q = a div u"
  define r where "r = a mod u"
  have a: "a = q * u + r" by (simp add: q_def r_def)
  have "0 \<le> r" "r < u" using assms by (simp_all add: r_def)
  moreover have "roundNat a u = (if 2 * r < u \<or> (2 * r = u \<and> even q) then q else q + 1)"
    by (simp add: roundNat_def Let_def q_def r_def)
  ultimately show ?thesis using a by (auto simp: abs_if algebra_simps)
qed

lemma bankersRound_near:
  assumes "0 < u"
  shows "2 * \<bar>bankersRound a u * u - a\<bar> \<le> u"
proof (cases "a < 0")
  case True
  then have "bankersRound a u * u - a = - (roundNat (- a) u * u - (- a))"
    by (simp add: bankersRound_def)
  then have "\<bar>bankersRound a u * u - a\<bar> = \<bar>roundNat (- a) u * u - (- a)\<bar>"
    by (metis abs_minus_cancel)
  then show ?thesis using roundNat_near [OF assms, of "- a"] by simp
next
  case False
  then show ?thesis using roundNat_near [OF assms, of a] by (simp add: bankersRound_def)
qed

lemma readNat_snoc: "m < 10 \<Longrightarrow> readNat (t @ [digit m]) = 10 * readNat t + m"
  by (simp add: readNat_def digit_def)

lemma readNat_fixedDigits:
  "n < 10 ^ w \<Longrightarrow> readNat (t @ fixedDigits w n) = readNat t * 10 ^ w + n"
proof (induction w arbitrary: n)
  case (Suc w)
  then have "n div 10 < 10 ^ w" by (simp add: less_mult_imp_div_less mult.commute)
  then have "readNat ((t @ fixedDigits w (n div 10)) @ [digit (n mod 10)])
      = 10 * (readNat t * 10 ^ w + n div 10) + n mod 10"
    using Suc.IH by (simp add: readNat_snoc del: append_assoc)
  then show ?case by (simp add: algebra_simps)
qed simp

lemma digit_plain: "m < 10 \<Longrightarrow> digit m \<noteq> CHR ''.'' \<and> digit m \<noteq> CHR ''-''"
proof -
  assume "m < 10"
  then have "of_char (digit m) = 48 + m" by (simp add: digit_def)
  then show ?thesis by (auto dest: arg_cong [where f = of_char])
qed

lemma plain_showNat: "c \<in> set (showNat n) \<Longrightarrow> c \<noteq> CHR ''.'' \<and> c \<noteq> CHR ''-''"
proof (induction n rule: showNat.induct)
  case (1 n)
  then show ?case
    by (subst (asm) showNat.simps) (auto simp: digit_plain split: if_splits)
qed

lemma plain_fixedDigits: "c \<in> set (fixedDigits w n) \<Longrightarrow> c \<noteq> CHR ''.''"
proof (induction w arbitrary: n)
  case (Suc w)
  then consider "c \<in> set (fixedDigits w (n div 10))" | "c = digit (n mod 10)" by auto
  then show ?case using Suc.IH digit_plain [of "n mod 10"] by cases auto
qed simp

lemma showNat_not_Nil [simp]: "showNat n \<noteq> []"
  by (simp add: showNat.simps)

lemma decRead_decShow: "decRead (decShow x) = x"
proof -
  define n where "n = nat \<bar>mant x\<bar>"
  let ?t = "showNat (n div 10 ^ 18) @ ''.'' @ fixedDigits 18 (n mod 10 ^ 18)"
  have "filter (\<lambda>c. c \<noteq> CHR ''.'') ?t = showNat (n div 10 ^ 18) @ fixedDigits 18 (n mod 10 ^ 18)"
    by (simp add: filter_id_conv plain_showNat plain_fixedDigits)
  then have r: "readNat (filter (\<lambda>c. c \<noteq> CHR ''.'') ?t) = n"
    by (simp only:) (subst readNat_fixedDigits, simp_all add: readNat_showNat)
  have h: "hd ?t \<noteq> CHR ''-''"
    using plain_showNat [of "hd (showNat (n div 10 ^ 18))" "n div 10 ^ 18"] by simp
  have s: "decShow x = (if mant x < 0 then ''-'' else []) @ ?t"
    by (simp add: decShow_def n_def Let_def)
  show ?thesis
  proof (cases "mant x < 0")
    case True
    then have "decRead (decShow x) = Dec (- int n)" using r by (simp add: decRead_def s)
    then show ?thesis using True by (simp add: n_def dec.expand)
  next
    case False
    then have "decRead (decShow x) = Dec (int n)" using r h by (simp add: decRead_def s)
    then show ?thesis using False by (simp add: n_def dec.expand)
  qed
qed

interpretation ref_dec: dec_laws reference
proof unfold_locales
  fix x y :: dec
  show "2 * \<bar>mant (DecMul reference x y) * decUnit - mant x * mant y\<bar> \<le> decUnit"
    by (simp add: bankersRound_near)
  show "2 * \<bar>mant (DecQuo reference x y) * mant y - mant x * decUnit\<bar> \<le> mant y" if "0 < mant y"
    using that by (simp add: bankersRound_near)
qed (simp_all add: decRead_decShow)

interpretation ref_coin: coin_laws reference
  by unfold_locales (auto simp: refCoinValidate_def)

interpretation ref_msg: msg_laws reference
  by unfold_locales

section \<open>The laws of addresses\<close>

lemma bytesOf_textOf [simp]: "bytesOf (textOf a) = a"
proof -
  have lt: "unat b < 2 ^ LENGTH(8)" for b :: byte by (rule unsigned_less)
  have "word_of_nat (of_char (char_of (unat b) :: char)) = b" for b :: byte
    using lt [of b] by simp
  then show ?thesis by (simp add: bytesOf_def textOf_def comp_def)
qed

lemma textOf_bytesOf [simp]: "textOf (bytesOf t) = t"
proof -
  have "char_of (unat (word_of_nat (of_char c) :: byte)) = c" for c :: char
    by (simp add: unat_of_nat)
  then show ?thesis by (simp add: bytesOf_def textOf_def comp_def)
qed

lemma bytesOf_eq [simp]: "bytesOf t = bytesOf t' \<longleftrightarrow> t = t'"
  by (metis textOf_bytesOf)

lemma length_showNat: "0 < w \<Longrightarrow> n < 10 ^ w \<Longrightarrow> length (showNat n) \<le> w"
proof (induction n arbitrary: w rule: showNat.induct)
  case (1 n)
  show ?case
  proof (cases "n < 10")
    case True
    then show ?thesis using "1.prems" by (simp add: showNat.simps [of n])
  next
    case False
    then obtain v where v: "w = Suc v" "0 < v"
      using "1.prems" by (cases w; cases "w - 1") auto
    then have "n div 10 < 10 ^ v" using "1.prems" by (simp add: less_mult_imp_div_less mult.commute)
    then have "length (showNat (n div 10)) \<le> v" using "1.IH" False v by blast
    then show ?thesis using False v by (simp add: showNat.simps [of n])
  qed
qed

lemma length_Sprint: "length (Sprint i) \<le> 20"
proof -
  have "unat i < 2 ^ LENGTH(64)" by (rule unsigned_less)
  then show ?thesis unfolding Sprint_def by (intro length_showNat) simp_all
qed

lemma reserve_names_short: "n \<in> reserveNames \<Longrightarrow> n \<noteq> [] \<and> length n \<le> 255"
  using length_Sprint by (auto simp: reserveNames_def reserve_name_defs intro!: order_trans [OF length_Sprint])

interpretation ref_addr: reserve_addresses reference
proof unfold_locales
  fix a :: accAddress and t n :: string
  show "AccAddressFromBech32 reference (AccAddressString reference a) = Some a" if "usableAddress a"
    using that by (simp add: refFromBech32_def)
  show "usableAddress a" if "AccAddressFromBech32 reference t = Some a"
    using that by (simp add: refFromBech32_def split: if_splits)
  show "usableAddress (address_Module reference ModuleName n)" if "n \<in> reserveNames"
    using reserve_names_short [OF that] by (simp add: usableAddress_def bytesOf_def)
qed (simp add: inj_on_def)

section \<open>The laws of sorting\<close>

lemma mset_insertBy [simp]: "mset (insertBy lt x ys) = add_mset x (mset ys)"
  by (induction ys) auto

lemma set_insertBy [simp]: "set (insertBy lt x ys) = insert x (set ys)"
  by (induction ys) auto

lemma mset_insertionSort: "mset (insertionSort lt xs) = mset xs"
  by (induction xs) (auto simp: insertionSort_def)

lemma set_insertionSort [simp]: "set (insertionSort lt xs) = set xs"
  by (metis mset_insertionSort set_mset_mset)

lemma strictWeakOrder_subset: "strictWeakOrder lt A \<Longrightarrow> B \<subseteq> A \<Longrightarrow> strictWeakOrder lt B"
  unfolding strictWeakOrder_def by (intro conjI ballI) blast+

lemma sorted_insertBy:
  assumes "strictWeakOrder lt (insert x (set ys))" and "sorted_wrt (\<lambda>a b. \<not> lt b a) ys"
  shows "sorted_wrt (\<lambda>a b. \<not> lt b a) (insertBy lt x ys)"
  using assms
proof (induction ys)
  case (Cons y ys)
  have swo: "strictWeakOrder lt (insert x (set ys))"
    using Cons.prems(1) by (rule strictWeakOrder_subset) auto
  show ?case
  proof (cases "lt y x")
    case True
    have "\<not> lt x y" using True Cons.prems(1) unfolding strictWeakOrder_def
      by (meson insert_iff list.set_intros(1))
    then show ?thesis using True Cons swo by auto
  next
    case False
    have "\<not> lt z x" if "z \<in> set ys" for z
    proof
      assume "lt z x"
      then have "lt z y \<or> lt y x"
        using Cons.prems(1) that unfolding strictWeakOrder_def
        by (meson insert_iff list.set_intros)
      then show False using False Cons.prems(2) that by auto
    qed
    then show ?thesis using False Cons.prems(2) by auto
  qed
qed simp

lemma sorted_insertionSort:
  "strictWeakOrder lt (set xs) \<Longrightarrow> sorted_wrt (\<lambda>a b. \<not> lt b a) (insertionSort lt xs)"
proof (induction xs)
  case (Cons x xs)
  from Cons.prems have "strictWeakOrder lt (set xs)"
    by (rule strictWeakOrder_subset) auto
  moreover have "insertionSort lt (x # xs) = insertBy lt x (insertionSort lt xs)"
    by (simp add: insertionSort_def)
  ultimately show ?case using Cons by (simp add: sorted_insertBy)
qed (simp add: insertionSort_def)

interpretation ref_bids: bid_laws reference
  by unfold_locales (simp_all add: mset_insertionSort sorted_insertionSort)

section \<open>The laws of the bank\<close>

lemma covers_iff:
  assumes "positiveCoins reference cs"
  shows "covers b x cs \<longleftrightarrow> (\<forall>d. coinsAmount cs d \<le> int (b x d))"
proof
  assume cov: "covers b x cs"
  show "\<forall>d. coinsAmount cs d \<le> int (b x d)"
  proof
    fix d
    show "coinsAmount cs d \<le> int (b x d)"
    proof (cases "\<exists>c \<in> set cs. Denom c = d")
      case True
      then show ?thesis using cov by (auto simp: covers_def list_all_iff)
    next
      case False
      then have "filter (\<lambda>c. Denom c = d) cs = []" by (auto simp: filter_empty_conv)
      then show ?thesis by (simp add: coinsAmount_def)
    qed
  qed
qed (simp add: covers_def list_all_iff)

lemma coinsAmount_nonneg: "positiveCoins reference cs \<Longrightarrow> 0 \<le> coinsAmount cs d"
  unfolding coinsAmount_def by (rule sum_list_nonneg_int) (auto simp: positiveCoins_def less_imp_le)

lemma debit_amount:
  "positiveCoins reference cs \<Longrightarrow> covers b x cs \<Longrightarrow>
    int (debit b x cs a d) = int (b a d) - (if a = x then coinsAmount cs d else 0)"
  by (simp add: debit_def covers_iff)

lemma credit_amount:
  "positiveCoins reference cs \<Longrightarrow>
    int (credit b y cs a d) = int (b a d) + (if a = y then coinsAmount cs d else 0)"
  using coinsAmount_nonneg [of cs d] by (simp add: credit_def)

lemma transferAmount_Cons [simp]:
  "transferAmount (x # xs) a d =
    (if fst x = a then coinsAmount (snd x) d else 0) + transferAmount xs a d"
  by (simp add: transferAmount_def)

lemma transferAmount_nonneg: "\<forall>x \<in> set xs. positiveCoins reference (snd x) \<Longrightarrow> 0 \<le> transferAmount xs a d"
  unfolding transferAmount_def by (rule sum_list_nonneg_int) (auto simp: coinsAmount_nonneg)

lemma takeInputs_ok:
  assumes "\<forall>x \<in> set ins. positiveCoins reference (snd x)" and "\<forall>a d. transferAmount ins a d \<le> int (b a d)"
  shows "\<exists>b'. takeInputs b ins = Some b' \<and> (\<forall>a d. int (b' a d) = int (b a d) - transferAmount ins a d)"
  using assms
proof (induction ins arbitrary: b)
  case Nil
  then show ?case by (simp add: transferAmount_def)
next
  case (Cons i ins)
  let ?b = "debit b (fst i) (snd i)"
  have pos: "positiveCoins reference (snd i)" and rest: "\<forall>x \<in> set ins. positiveCoins reference (snd x)"
    using Cons.prems(1) by simp_all
  have "coinsAmount (snd i) d \<le> int (b (fst i) d)" for d
    using Cons.prems(2) [rule_format, of "fst i" d] transferAmount_nonneg [OF rest, of "fst i" d]
    by simp
  then have cov: "covers b (fst i) (snd i)" by (simp add: covers_iff [OF pos])
  have "transferAmount ins a d \<le> int (?b a d)" for a d
    using Cons.prems(2) [rule_format, of a d] by (simp add: debit_amount [OF pos cov] split: if_splits)
  with Cons.IH [OF rest] obtain b' where "takeInputs ?b ins = Some b'"
    and "\<forall>a d. int (b' a d) = int (?b a d) - transferAmount ins a d" by blast
  then show ?case by (auto simp: cov debit_amount [OF pos cov])
qed

lemma giveOutputs_amount:
  "\<forall>x \<in> set outs. positiveCoins reference (snd x) \<Longrightarrow>
    int (giveOutputs b outs a d) = int (b a d) + transferAmount outs a d"
  by (induction outs arbitrary: b)
    (auto simp: giveOutputs_def transferAmount_def credit_amount)

interpretation ref_bank: keeper_laws reference communityPool
proof unfold_locales
  fix b :: ledger and x y a :: accAddress and cs :: coins and d :: denom and b' :: ledger
    and ins outs :: "(accAddress \<times> coins) list"
  show "0 \<le> SpendableAmountOf reference b a d" by simp
  show "\<exists>b'. SendCoins reference b x y cs = (None, b') \<and>
      (\<forall>a d. SpendableAmountOf reference b' a d = SpendableAmountOf reference b a d
         - (if a = x then coinsAmount cs d else 0) + (if a = y then coinsAmount cs d else 0))"
    if "positiveCoins reference cs" and "\<forall>d. coinsAmount cs d \<le> SpendableAmountOf reference b x d"
    using that by (simp add: refSend_def covers_iff debit_amount credit_amount)
  show "\<exists>e b'. SendCoins reference b x y cs = (Some e, b')"
    if "positiveCoins reference cs" and "\<not> (\<forall>d. coinsAmount cs d \<le> SpendableAmountOf reference b x d)"
    using that by (simp add: refSend_def covers_iff)
  show "\<exists>b'. InputOutputCoins reference b ins outs = (None, b') \<and>
      (\<forall>a d. SpendableAmountOf reference b' a d =
         SpendableAmountOf reference b a d - transferAmount ins a d + transferAmount outs a d)"
    if pos: "\<forall>x \<in> set ins \<union> set outs. validTransfer reference x"
      and "\<forall>a d. transferAmount ins a d \<le> SpendableAmountOf reference b a d"
  proof -
    from pos have "\<forall>x \<in> set ins. positiveCoins reference (snd x)"
      and outs: "\<forall>x \<in> set outs. positiveCoins reference (snd x)"
      by (simp_all add: validTransfer_def)
    moreover have "\<forall>a d. transferAmount ins a d \<le> int (b a d)" using that(2) by simp
    ultimately obtain b' where "takeInputs b ins = Some b'"
      and "\<forall>a d. int (b' a d) = int (b a d) - transferAmount ins a d"
      using takeInputs_ok [of ins b] by blast
    then show ?thesis using outs by (simp add: refInputOutput_def giveOutputs_amount)
  qed
  show "SpendableAmountOf reference b' a d = SpendableAmountOf reference b a d"
    if "FundCommunityPool reference b cs x = (None, b')" and "a \<noteq> x" and "a \<noteq> communityPool"
    using that by (auto simp: refSend_def debit_def credit_def split: if_splits)
qed

end
