(* ===== verification/Solvency.thy ===== *)
theory Solvency
  imports MsgServer Reference
begin

text \<open>
  The invariant of the module's state: the store is well formed, every auction is well formed, every
  bid fits its auction and belongs to an allowed bidder, and every auction is solvent. Solvent
  means: before it closes, its selling reserve holds the coins for sale and its paying reserve holds
  what the bids pay; while it vests, its vesting reserve holds what is not yet released.

  The invariant is stated per auction id and reads only that auction's part of the state (its
  slice). An operation on one auction keeps the slices of all others (lemma \<open>auctionInv_frame\<close>),
  so that each preservation proof is about one auction.

  The locale \<open>fundraising\<close> collects the laws of the libraries and keepers and two facts about the
  chain: the community pool is not a reserve address, and registered hooks only observe.
\<close>

section \<open>The invariant\<close>

definition reservesOf :: "'a sdk_scheme \<Rightarrow> uint64 \<Rightarrow> accAddress set" where
  "reservesOf S i = {SellingReserveAddress S i, PayingReserveAddress S i, VestingReserveAddress S i}"

definition reserveSet :: "'a sdk_scheme \<Rightarrow> accAddress set" where
  "reserveSet S = (\<Union>i. reservesOf S i)"

definition auctionOK :: "'a sdk_scheme \<Rightarrow> uint64 \<Rightarrow> AuctionI \<Rightarrow> bool" where
  "auctionOK S i a \<longleftrightarrow>
     ba_Id (base a) = i
   \<and> ba_SellingReserveAddress (base a) = AccAddressString S (SellingReserveAddress S i)
   \<and> ba_PayingReserveAddress (base a) = AccAddressString S (PayingReserveAddress S i)
   \<and> ba_VestingReserveAddress (base a) = AccAddressString S (VestingReserveAddress S i)
   \<and> AccAddressFromBech32 S (ba_Auctioneer (base a)) \<noteq> None
   \<and> ValidateDenom S (Denom (ba_SellingCoin (base a))) \<and> ValidateDenom S (ba_PayingCoinDenom (base a))
   \<and> Denom (ba_SellingCoin (base a)) \<noteq> ba_PayingCoinDenom (base a)
   \<and> 0 < Amount (ba_SellingCoin (base a)) \<and> 0 < mant (ba_StartPrice (base a))
   \<and> ba_EndTimes (base a) \<noteq> []
   \<and> validSchedules (ba_VestingSchedules (base a)) (hd (ba_EndTimes (base a)))
   \<and> (case a of
        FixedPriceAuction b r \<Rightarrow>
          ba_Type b = AuctionTypeFixedPrice \<and> Denom r = Denom (ba_SellingCoin b) \<and> 0 \<le> Amount r
      | BatchAuction b mn _ mx er \<Rightarrow>
          ba_Type b = AuctionTypeBatch \<and> 0 < mant mn \<and> mx \<le> MaxExtendedRoundLimit
          \<and> length (ba_EndTimes b) \<le> unat mx + 1 \<and> 0 < mant er)"

definition bidOK :: "AuctionI \<Rightarrow> Bid \<Rightarrow> bool" where
  "bidOK a b \<longleftrightarrow> 0 < Amount (bid_Coin b) \<and> 0 < mant (bid_Price b)
   \<and> (case a of
        FixedPriceAuction ba _ \<Rightarrow> bid_Type b = BidTypeFixedPrice \<and> bid_Price b = ba_StartPrice ba
          \<and> (Denom (bid_Coin b) = ba_PayingCoinDenom ba \<or> Denom (bid_Coin b) = Denom (ba_SellingCoin ba))
      | BatchAuction ba _ _ _ _ \<Rightarrow>
          (bid_Type b = BidTypeBatchWorth \<and> Denom (bid_Coin b) = ba_PayingCoinDenom ba)
          \<or> (bid_Type b = BidTypeBatchMany \<and> Denom (bid_Coin b) = Denom (ba_SellingCoin ba)))"

definition bidderAllowed :: "'a sdk_scheme \<Rightarrow> 'b state \<Rightarrow> uint64 \<Rightarrow> Bid \<Rightarrow> bool" where
  "bidderAllowed S s i b \<longleftrightarrow>
     (\<exists>addr. AccAddressFromBech32 S (bid_Bidder b) = Some addr \<and> bid_Bidder b = AccAddressString S addr
        \<and> GetAllowedBidder i addr s \<noteq> None)"

definition paidIn :: "'a sdk_math_scheme \<Rightarrow> denom \<Rightarrow> Bid list \<Rightarrow> int" where
  "paidIn S d bids = sum_list (map (\<lambda>b. ConvertToPayingAmount S b d) bids)"

definition soldOut :: "'a sdk_math_scheme \<Rightarrow> denom \<Rightarrow> Bid list \<Rightarrow> int" where
  "soldOut S d bids = sum_list (map (\<lambda>b. ConvertToSellingAmount S b d) bids)"

definition unreleased :: "VestingQueue list \<Rightarrow> int" where
  "unreleased qs = sum_list (map (\<lambda>q. if vq_Released q then 0 else Amount (vq_PayingCoin q)) qs)"

definition isOpen :: "AuctionI \<Rightarrow> bool" where
  "isOpen a \<longleftrightarrow> ba_Status (base a) = AuctionStatusStandBy \<or> ba_Status (base a) = AuctionStatusStarted"

definition fundsOK :: "('b, 'z) keeper_scheme \<Rightarrow> 'b state \<Rightarrow> uint64 \<Rightarrow> AuctionI \<Rightarrow> bool" where
  "fundsOK k s i a \<longleftrightarrow>
     (isOpen a \<longrightarrow>
        GetVestingQueuesByAuctionId i s = []
      \<and> Amount (ba_SellingCoin (base a))
          \<le> spendable k (SellingReserveAddress k i) (Denom (ba_SellingCoin (base a))) s
      \<and> paidIn k (ba_PayingCoinDenom (base a)) (GetBidsByAuctionId i s)
          \<le> spendable k (PayingReserveAddress k i) (ba_PayingCoinDenom (base a)) s
      \<and> (case a of
           FixedPriceAuction b r \<Rightarrow>
             soldOut k (ba_PayingCoinDenom b) (GetBidsByAuctionId i s) + Amount r = Amount (ba_SellingCoin b)
         | BatchAuction _ _ _ _ _ \<Rightarrow> True))
   \<and> (ba_Status (base a) = AuctionStatusVesting \<longrightarrow>
        unreleased (GetVestingQueuesByAuctionId i s)
          \<le> spendable k (VestingReserveAddress k i) (ba_PayingCoinDenom (base a)) s)"

definition auctionInv :: "('b, 'z) keeper_scheme \<Rightarrow> 'b state \<Rightarrow> uint64 \<Rightarrow> bool" where
  "auctionInv k s i \<longleftrightarrow>
     (case GetAuction i s of
        None \<Rightarrow> GetBidsByAuctionId i s = [] \<and> GetVestingQueuesByAuctionId i s = []
      | Some a \<Rightarrow>
          auctionOK k i a \<and> unat i \<le> unat (LastAuctionId s)
        \<and> (\<forall>b \<in> set (GetBidsByAuctionId i s).
             bidOK a b \<and> unat (bid_Id b) \<le> unat (GetLastBidId i s) \<and> bidderAllowed k s i b)
        \<and> (\<forall>q \<in> set (GetVestingQueuesByAuctionId i s).
             Denom (vq_PayingCoin q) = ba_PayingCoinDenom (base a) \<and> 0 \<le> Amount (vq_PayingCoin q))
        \<and> fundsOK k s i a)"

text \<open>The keys of the store agree with the stored values, and the limit of an allowed bidder is a
  positive number.\<close>

definition allowedOK :: "'a sdk_scheme \<Rightarrow> uint64 \<times> addrKey \<Rightarrow> AllowedBidder \<Rightarrow> bool" where
  "allowedOK S key ab \<longleftrightarrow>
     (\<exists>addr n. snd key = addrKey addr \<and> AccAddressFromBech32 S (ab_Bidder ab) = Some addr
        \<and> ab_Bidder ab = AccAddressString S addr \<and> ab_MaxBidAmount ab = Some n \<and> 0 < n)"

definition storeOK :: "'a sdk_scheme \<Rightarrow> 'b state \<Rightarrow> bool" where
  "storeOK S s \<longleftrightarrow>
     owf (Auctions s) \<and> owf (AllowedBidders s) \<and> owf (Bids s) \<and> owf (VestingQueues s)
   \<and> (\<forall>(key, b) \<in> set (Bids s). key = (bid_AuctionId b, bid_Id b))
   \<and> (\<forall>(key, q) \<in> set (VestingQueues s). key = (vq_AuctionId q, vq_ReleaseTime q))
   \<and> (\<forall>(key, ab) \<in> set (AllowedBidders s). allowedOK S key ab)"

definition Inv :: "('b, 'z) keeper_scheme \<Rightarrow> 'b state \<Rightarrow> bool" where
  "Inv k s \<longleftrightarrow> storeOK k s \<and> (\<forall>i. auctionInv k s i)"

lemma InvD:
  assumes "Inv k s"
  shows "storeOK k s"
    and "GetAuction i s = Some a \<Longrightarrow> auctionOK k i a"
    and "GetAuction i s = Some a \<Longrightarrow> unat i \<le> unat (LastAuctionId s)"
    and "GetAuction i s = Some a \<Longrightarrow> b \<in> set (GetBidsByAuctionId i s) \<Longrightarrow>
      bidOK a b \<and> unat (bid_Id b) \<le> unat (GetLastBidId i s) \<and> bidderAllowed k s i b"
    and "GetAuction i s = Some a \<Longrightarrow> q \<in> set (GetVestingQueuesByAuctionId i s) \<Longrightarrow>
      Denom (vq_PayingCoin q) = ba_PayingCoinDenom (base a) \<and> 0 \<le> Amount (vq_PayingCoin q)"
    and "GetAuction i s = Some a \<Longrightarrow> fundsOK k s i a"
    and "GetAuction i s = None \<Longrightarrow> GetBidsByAuctionId i s = [] \<and> GetVestingQueuesByAuctionId i s = []"
  using assms by (auto simp: Inv_def auctionInv_def dest!: spec [of _ i])

lemma bids_of_auction_filter:
  assumes "storeOK S s"
  shows "filter (\<lambda>b. bid_AuctionId b = i) (GetBids s) = GetBidsByAuctionId i s"
proof -
  have "\<forall>(key, b) \<in> set (Bids s). key = (bid_AuctionId b, bid_Id b)" using assms by (simp add: storeOK_def)
  then show ?thesis by (induction "Bids s") (auto simp: GetBids_def GetBidsByAuctionId_def oiter_def filter_map comp_def
      intro!: arg_cong [where f = "map snd"] filter_cong)
qed

lemma auctionInvI:
  assumes "GetAuction i s = Some a" and "auctionOK k i a" and "unat i \<le> unat (LastAuctionId s)"
    and "\<And>b. b \<in> set (GetBidsByAuctionId i s) \<Longrightarrow>
      bidOK a b \<and> unat (bid_Id b) \<le> unat (GetLastBidId i s) \<and> bidderAllowed k s i b"
    and "\<And>q. q \<in> set (GetVestingQueuesByAuctionId i s) \<Longrightarrow>
      Denom (vq_PayingCoin q) = ba_PayingCoinDenom (base a) \<and> 0 \<le> Amount (vq_PayingCoin q)"
    and "fundsOK k s i a"
  shows "auctionInv k s i"
  using assms by (simp add: auctionInv_def)

section \<open>Slices\<close>

text \<open>The part of the state that belongs to one auction is kept, except that its reserves may grow
  and bidders may be added.\<close>

definition sameSlice :: "('b, 'z) keeper_scheme \<Rightarrow> 'b state \<Rightarrow> 'b state \<Rightarrow> uint64 \<Rightarrow> bool" where
  "sameSlice k s t j \<longleftrightarrow>
     GetAuction j t = GetAuction j s
   \<and> GetBidsByAuctionId j t = GetBidsByAuctionId j s
   \<and> GetVestingQueuesByAuctionId j t = GetVestingQueuesByAuctionId j s
   \<and> GetLastBidId j t = GetLastBidId j s
   \<and> unat (LastAuctionId s) \<le> unat (LastAuctionId t)
   \<and> (\<forall>addr. GetAllowedBidder j addr s \<noteq> None \<longrightarrow> GetAllowedBidder j addr t \<noteq> None)
   \<and> (\<forall>x \<in> reservesOf k j. \<forall>d. spendable k x d s \<le> spendable k x d t)"

lemma sameSlice_refl: "sameSlice k s s j"
  by (simp add: sameSlice_def)

lemma sameSlice_trans: "sameSlice k s t j \<Longrightarrow> sameSlice k t u j \<Longrightarrow> sameSlice k s u j"
  unfolding sameSlice_def by (auto intro: order_trans) (meson order_trans)

lemma auctionInv_frame:
  assumes "auctionInv k s j" and "sameSlice k s t j"
  shows "auctionInv k t j"
proof -
  have al: "bidderAllowed k s j b \<Longrightarrow> bidderAllowed k t j b" for b
    using assms(2) by (auto simp: bidderAllowed_def sameSlice_def)
  have fu: "fundsOK k s j a \<Longrightarrow> fundsOK k t j a" for a
    using assms(2) unfolding fundsOK_def sameSlice_def reservesOf_def
    by (auto split: AuctionI.splits intro: order_trans)
  show ?thesis
    using assms al fu unfolding auctionInv_def
    by (cases "GetAuction j s") (auto simp: sameSlice_def intro: order_trans)
qed

text \<open>The invariant of the whole state after an operation on one auction.\<close>

lemma Inv_step:
  assumes "Inv k s" and "storeOK k t" and "\<And>j. j \<noteq> i \<Longrightarrow> sameSlice k s t j" and "auctionInv k t i"
  shows "Inv k t"
proof -
  have "auctionInv k t j" for j
    using assms auctionInv_frame [of k s j t] by (cases "j = i") (auto simp: Inv_def)
  then show ?thesis using assms(2) by (simp add: Inv_def)
qed

section \<open>Writes\<close>

lemmas slice_defs = GetAuction_def GetBidsByAuctionId_def GetVestingQueuesByAuctionId_def
  GetLastBidId_def GetAllowedBidder_def spendable_def

lemma storeOK_cong:
  "Auctions t = Auctions s \<Longrightarrow> AllowedBidders t = AllowedBidders s \<Longrightarrow> Bids t = Bids s \<Longrightarrow>
   VestingQueues t = VestingQueues s \<Longrightarrow> storeOK S t = storeOK S s"
  by (simp add: storeOK_def)

lemma storeOK_SetAuction: "storeOK S s \<Longrightarrow> storeOK S (SetAuction a s)"
  by (simp add: storeOK_def SetAuction_def)

lemma storeOK_Bids:
  "storeOK S s \<Longrightarrow> storeOK S (s\<lparr>Bids := oset (bid_AuctionId b, bid_Id b) b (Bids s)\<rparr>)"
  using set_oset_subset [of "(bid_AuctionId b, bid_Id b)" b "Bids s"] by (auto simp: storeOK_def)

lemma storeOK_SetVestingQueue: "storeOK S s \<Longrightarrow> storeOK S (SetVestingQueue q s)"
  using set_oset_subset [of "(vq_AuctionId q, vq_ReleaseTime q)" q "VestingQueues s"]
  by (auto simp: storeOK_def SetVestingQueue_def)

lemma storeOK_AllowedBidders:
  "storeOK S s \<Longrightarrow> allowedOK S key ab \<Longrightarrow>
    storeOK S (s\<lparr>AllowedBidders := oset key ab (AllowedBidders s)\<rparr>)"
  using set_oset_subset [of key ab "AllowedBidders s"] by (auto simp: storeOK_def)

text \<open>The bids of an auction are those stored under its id.\<close>

lemma storeOK_bids:
  assumes "storeOK S s" and "b \<in> set (GetBidsByAuctionId i s)"
  shows "bid_AuctionId b = i" and "GetBid i (bid_Id b) s = Some b"
proof -
  have wf: "owf (Bids s)" using assms(1) by (simp add: storeOK_def)
  then obtain key where k: "fst key = i" "oget (Bids s) key = Some b"
    using assms(2) by (auto simp: GetBidsByAuctionId_def set_oiter)
  then have "(key, b) \<in> set (Bids s)" by (simp add: oget_mem [OF wf])
  then have "key = (bid_AuctionId b, bid_Id b)" using assms(1) by (auto simp: storeOK_def)
  then show "bid_AuctionId b = i" and "GetBid i (bid_Id b) s = Some b"
    using k by (auto simp: GetBid_def)
qed

lemma storeOK_bid:
  assumes "storeOK S s" and "GetBid i j s = Some b"
  shows "b \<in> set (GetBidsByAuctionId i s)" and "bid_AuctionId b = i" and "bid_Id b = j"
proof -
  have wf: "owf (Bids s)" using assms(1) by (simp add: storeOK_def)
  then have "((i, j), b) \<in> set (Bids s)" using assms(2) by (simp add: GetBid_def oget_mem)
  then show "bid_AuctionId b = i" and "bid_Id b = j" using assms(1) by (auto simp: storeOK_def)
  show "b \<in> set (GetBidsByAuctionId i s)"
    using assms(2) wf by (auto simp: GetBidsByAuctionId_def set_oiter GetBid_def intro!: exI [of _ "(i, j)"])
qed

lemma storeOK_allowed:
  assumes "storeOK S s" and "GetAllowedBidder i addr s = Some ab"
  obtains n where "ab_Bidder ab = AccAddressString S addr" and "ab_MaxBidAmount ab = Some n" and "0 < n"
    and "AccAddressFromBech32 S (ab_Bidder ab) = Some addr"
proof -
  have "((i, addrKey addr), ab) \<in> set (AllowedBidders s)"
    using assms by (simp add: storeOK_def GetAllowedBidder_def oget_mem)
  then have "allowedOK S (i, addrKey addr) ab" using assms(1) by (auto simp: storeOK_def)
  then show thesis using that by (auto simp: allowedOK_def)
qed

section \<open>The laws the module runs under\<close>

locale fundraising = bid_laws k + keeper_laws k pool + reserve_addresses k
  for k :: "('b, 'z) keeper_scheme" and pool :: accAddress +
  assumes pool_not_reserve: "pool \<notin> reserveSet k"
    and hooks_observe: "khooks k = Some h \<Longrightarrow> h c s = s"
begin

lemma callHook_run: "callHook k c s = (Ok (), s)"
  by (cases "khooks k") (simp_all add: callHook_def returnM_def modifyM_def hooks_observe)

lemma callHook_Ok_iff: "callHook k c s = (Ok u, t) \<longleftrightarrow> t = s"
  by (auto simp: callHook_run)

lemmas run_Ok = Ok_iffs callHook_Ok_iff hook_defs bankM_Ok_iff

text \<open>Only the reserves of its own auction are debited.\<close>

lemma reservesOf_disjoint: "i \<noteq> j \<Longrightarrow> reservesOf k i \<inter> reservesOf k j = {}"
  by (auto simp: reservesOf_def reserve_simps)

lemma moved_mono:
  assumes "moved k x y d n (bank s) (bank t)" and "0 \<le> n" and "x \<notin> reservesOf k j"
  shows "\<forall>a \<in> reservesOf k j. \<forall>e. spendable k a e s \<le> spendable k a e t"
  using assms by (auto simp: moved_def spendable_def)

lemma fee_frame:
  assumes "FundCommunityPool k (bank s) cs x = (None, b)" and "x \<notin> reserveSet k" and "a \<in> reserveSet k"
  shows "SpendableAmountOf k b a d = spendable k a d s"
  using FundCommunityPool_frame [OF assms(1)] assms(2,3) pool_not_reserve by (metis spendable_def)

lemma reservesOf_subset: "reservesOf k i \<subseteq> reserveSet k"
  by (auto simp: reserveSet_def)

end

text \<open>These laws include the ones that the validation of messages rests on.\<close>

sublocale fundraising \<subseteq> msg_laws k
  by unfold_locales

interpretation ref_fund: fundraising reference communityPool
proof unfold_locales
  have "communityPool \<noteq> bytesOf n" if "n \<in> reserveNames" for n
    using that by (auto simp: communityPool_def reserveNames_def reserve_name_defs)
  then show "communityPool \<notin> reserveSet reference"
    by (auto simp: reserveSet_def reservesOf_def reserve_address_alt)
qed simp

end
