(* ===== verification/Preservation.thy ===== *)
theory Preservation
  imports Solvency
begin

text \<open>
  Every message keeps the invariant. For each operation a first lemma reads off what a successful run
  did to the state, a second one shows the invariant of the state it leaves.
\<close>

section \<open>Placing a bid\<close>

text \<open>What the switch on the bid type does: at a fixed price the amount the bid buys is taken from what
  remains, and the bid counts as matched.\<close>

definition afterPlacing :: "'a sdk_math_scheme \<Rightarrow> AuctionI \<Rightarrow> Bid \<Rightarrow> 'b state \<Rightarrow> 'b state" where
  "afterPlacing S a b s =
     (case a of
        FixedPriceAuction ba r \<Rightarrow>
          SetAuction (FixedPriceAuction ba
            (Coin (Denom r) (Amount r - ConvertToSellingAmount S b (ba_PayingCoinDenom ba)))) s
      | BatchAuction _ _ _ _ _ \<Rightarrow> s)"

definition placedBid :: "AuctionI \<Rightarrow> Bid \<Rightarrow> Bid" where
  "placedBid a b = (case a of FixedPriceAuction _ _ \<Rightarrow> SetMatched True b | BatchAuction _ _ _ _ _ \<Rightarrow> b)"

lemma afterPlacing_fields [simp]:
  "Bids (afterPlacing S a b s) = Bids s" "AllowedBidders (afterPlacing S a b s) = AllowedBidders s"
  "VestingQueues (afterPlacing S a b s) = VestingQueues s" "bank (afterPlacing S a b s) = bank s"
  "LastBidIds (afterPlacing S a b s) = LastBidIds s"
  "LastAuctionId (afterPlacing S a b s) = LastAuctionId s"
  by (simp_all add: afterPlacing_def SetAuction_def split: AuctionI.splits)

lemma afterPlacing_other:
  "ba_Id (base a) \<noteq> j \<Longrightarrow> GetAuction j (afterPlacing S a b s) = GetAuction j s"
  by (auto simp: afterPlacing_def SetAuction_def GetAuction_def split: AuctionI.splits)

lemma storeOK_afterPlacing: "storeOK S s \<Longrightarrow> storeOK S (afterPlacing S' a b s)"
  by (simp add: afterPlacing_def storeOK_SetAuction split: AuctionI.splits)

definition bidOf :: "MsgPlaceBid \<Rightarrow> uint64 \<Rightarrow> Bid" where
  "bidOf msg n =
   \<lparr> bid_AuctionId = mp_AuctionId msg, bid_Bidder = mp_Bidder msg, bid_Id = n,
     bid_Type = mp_BidType msg, bid_Price = mp_Price msg, bid_Coin = mp_Coin msg,
     bid_IsMatched = False \<rparr>"

lemma placedBid_simps [simp]:
  "bid_AuctionId (placedBid a b) = bid_AuctionId b" "bid_Id (placedBid a b) = bid_Id b"
  "bid_Bidder (placedBid a b) = bid_Bidder b" "bid_Type (placedBid a b) = bid_Type b"
  "bid_Price (placedBid a b) = bid_Price b" "bid_Coin (placedBid a b) = bid_Coin b"
  by (simp_all add: placedBid_def SetMatched_def split: AuctionI.splits)

lemma bidOK_placedBid [simp]: "bidOK a (placedBid a' b) = bidOK a b"
  by (cases a) (simp_all add: bidOK_def)

lemma Convert_placedBid [simp]:
  "ConvertToPayingAmount S (placedBid a b) d = ConvertToPayingAmount S b d"
  "ConvertToSellingAmount S (placedBid a b) d = ConvertToSellingAmount S b d"
  by (simp_all add: ConvertToPayingAmount_def ConvertToSellingAmount_def)

text \<open>A quantity of the bid that a new bid replaces, zero if there is none.\<close>

definition before :: "'b state \<Rightarrow> Bid \<Rightarrow> (Bid \<Rightarrow> int) \<Rightarrow> int" where
  "before s b f = (case GetBid (bid_AuctionId b) (bid_Id b) s of None \<Rightarrow> 0 | Some c \<Rightarrow> f c)"

context fundraising
begin

lemma fee_Ok:
  assumes "PayPlaceBidFee k x s = (Ok u, t)"
  obtains b where "t = s\<lparr>bank := b\<rparr>"
    and "FundCommunityPool k (bank s) (PlaceBidFee (params s)) x = (None, b)"
  using assms by (auto simp: PayPlaceBidFee_def run_Ok GetParams_def)

lemma reserve_paying_Ok:
  assumes "ReservePayingCoin k i x c s = (Ok u, t)" and "CoinValidate k c"
  obtains b where "t = s\<lparr>bank := b\<rparr>"
    and "moved k x (PayingReserveAddress k i) (Denom c) (Amount c) (bank s) b"
  using assms sendCoin_Ok_iff unfolding ReservePayingCoin_def by blast

lemma ValidateFixedPriceBid_Ok:
  assumes "ValidateFixedPriceBid k a b s = (Ok u, t)"
  obtains ba r where "t = s" and "a = FixedPriceAuction ba r" and "ba_Type ba = AuctionTypeFixedPrice"
    and "Denom (bid_Coin b) = ba_PayingCoinDenom ba \<or> Denom (bid_Coin b) = Denom (ba_SellingCoin ba)"
    and "bid_Price b = ba_StartPrice ba" and "Denom r = Denom (ba_SellingCoin ba)"
    and "ConvertToSellingAmount k b (ba_PayingCoinDenom ba) \<le> Amount r"
  using assms
  by (auto simp: ValidateFixedPriceBid_def run_Ok Let_def NewCoin_Some CoinIsLT_law
      split: AuctionI.splits option.splits if_splits)

lemma ValidateBatch_Ok:
  "ValidateBatchWorthBid k a b s = (Ok u, t) \<Longrightarrow>
    t = s \<and> ba_Type (base a) = AuctionTypeBatch \<and> Denom (bid_Coin b) = ba_PayingCoinDenom (base a)"
  "ValidateBatchManyBid k a b s = (Ok u, t) \<Longrightarrow>
    t = s \<and> ba_Type (base a) = AuctionTypeBatch \<and> Denom (bid_Coin b) = Denom (ba_SellingCoin (base a))"
  by (auto simp: ValidateBatchWorthBid_def ValidateBatchManyBid_def checkMaxBidAmount_def run_Ok
      split: option.splits)

lemma placeByType_Ok:
  assumes "placeByType k a x b s = (Ok b', t)" and "auctionOK k i a" and "bid_AuctionId b = i"
    and "bid_Type b \<noteq> BidTypeNil" and "CoinValidate k (bid_Coin b)" and "0 < Amount (bid_Coin b)"
    and "0 < mant (bid_Price b)"
  obtains bk where "bidOK a b" and "b' = placedBid a b" and "t = afterPlacing k a b (s\<lparr>bank := bk\<rparr>)"
    and "moved k x (PayingReserveAddress k i) (ba_PayingCoinDenom (base a))
      (ConvertToPayingAmount k b (ba_PayingCoinDenom (base a))) (bank s) bk"
    and "\<And>ba r. a = FixedPriceAuction ba r \<Longrightarrow>
      ConvertToSellingAmount k b (ba_PayingCoinDenom ba) \<le> Amount r"
proof (cases "bid_Type b")
  case BidTypeNil
  then show ?thesis using assms(4) by simp
next
  case BidTypeFixedPrice
  from assms(1) BidTypeFixedPrice have run: "placeFixedPriceBid k a x b s = (Ok b', t)"
    by (simp add: placeByType_def)
  then have "ValidateFixedPriceBid k a b s = (Ok (), s)"
    by (auto simp: placeFixedPriceBid_def run_Ok elim: ValidateFixedPriceBid_Ok)
  then obtain ba r where a: "a = FixedPriceAuction ba r" and d: "Denom r = Denom (ba_SellingCoin ba)"
    and ok: "Denom (bid_Coin b) = ba_PayingCoinDenom ba \<or> Denom (bid_Coin b) = Denom (ba_SellingCoin ba)"
      "bid_Price b = ba_StartPrice ba"
    and le: "ConvertToSellingAmount k b (ba_PayingCoinDenom ba) \<le> Amount r"
    by (auto elim: ValidateFixedPriceBid_Ok)
  obtain c u where c: "NewCoin k (ba_PayingCoinDenom ba) (ConvertToPayingAmount k b (ba_PayingCoinDenom ba)) = Some c"
    and res: "ReservePayingCoin k i x c s = (Ok (), u)"
    and t: "t = SetAuction (FixedPriceAuction ba
        (Coin (Denom r) (Amount r - ConvertToSellingAmount k b (ba_PayingCoinDenom ba)))) u"
      "b' = SetMatched True b"
    using run a assms(3)
    by (auto simp: placeFixedPriceBid_def run_Ok NewCoin_Some CoinSub_law split: if_splits
        elim!: ValidateFixedPriceBid_Ok)
  from c have "CoinValidate k c" by (auto simp: NewCoin_Some CoinValidate_law)
  with res obtain bk where "u = s\<lparr>bank := bk\<rparr>"
    and "moved k x (PayingReserveAddress k i) (Denom c) (Amount c) (bank s) bk"
    by (rule reserve_paying_Ok)
  then show ?thesis
    using t c a ok le assms(6,7) BidTypeFixedPrice
    by (intro that [of bk]) (auto simp: afterPlacing_def placedBid_def bidOK_def NewCoin_Some)
next
  case BidTypeBatchWorth
  then obtain u where v: "ValidateBatchWorthBid k a b s = (Ok (), u)"
    and res: "ReservePayingCoin k i x (bid_Coin b) u = (Ok (), t)" and b': "b' = b"
    using assms(1,3) by (auto simp: placeByType_def placeBatchWorthBid_def run_Ok)
  note v = ValidateBatch_Ok(1) [OF v]
  with assms(2) obtain ba mn mp mx er where a: "a = BatchAuction ba mn mp mx er"
    by (cases a) (auto simp: auctionOK_def)
  from res assms(5) obtain bk where "t = u\<lparr>bank := bk\<rparr>"
    and "moved k x (PayingReserveAddress k i) (Denom (bid_Coin b)) (Amount (bid_Coin b)) (bank u) bk"
    by (rule reserve_paying_Ok)
  then show ?thesis
    using v a b' assms(6,7) BidTypeBatchWorth
    by (intro that [of bk])
      (auto simp: afterPlacing_def placedBid_def bidOK_def ConvertToPayingAmount_def)
next
  case BidTypeBatchMany
  then obtain u c where v: "ValidateBatchManyBid k a b s = (Ok (), u)"
    and c: "NewCoin k (ba_PayingCoinDenom (base a)) (ConvertToPayingAmount k b (ba_PayingCoinDenom (base a))) = Some c"
    and res: "ReservePayingCoin k i x c u = (Ok (), t)" and b': "b' = b"
    using assms(1,3) by (auto simp: placeByType_def placeBatchManyBid_def run_Ok)
  note v = ValidateBatch_Ok(2) [OF v]
  with assms(2) obtain ba mn mp mx er where a: "a = BatchAuction ba mn mp mx er"
    by (cases a) (auto simp: auctionOK_def)
  from c have "CoinValidate k c" by (auto simp: NewCoin_Some CoinValidate_law)
  with res obtain bk where "t = u\<lparr>bank := bk\<rparr>"
    and "moved k x (PayingReserveAddress k i) (Denom c) (Amount c) (bank u) bk"
    by (rule reserve_paying_Ok)
  then show ?thesis
    using v a b' c assms(6,7) BidTypeBatchMany
    by (intro that [of bk]) (auto simp: afterPlacing_def placedBid_def bidOK_def NewCoin_Some)
qed

lemma SetBid_Ok:
  "SetBid k b s = (Ok u, t) \<longleftrightarrow>
    (\<exists>x. AccAddressFromBech32 k (bid_Bidder b) = Some x
       \<and> t = s\<lparr>Bids := oset (bid_AuctionId b, bid_Id b) b (Bids s),
               BidIndex := oset (addrKey x, bid_AuctionId b, bid_Id b) () (BidIndex s)\<rparr>)"
  by (auto simp: SetBid_def run_Ok Bid_GetBidder_def)

lemma PlaceBid_Ok:
  assumes run: "PlaceBid k msg s = (Ok b', t)" and inv: "Inv k s"
    and valid: "mp_ValidateBasic k msg = Ok ()"
  obtains a x n b bk bk' bi ev where "GetAuction (mp_AuctionId msg) s = Some a"
    and "ba_Status (base a) = AuctionStatusStarted" and "auctionOK k (mp_AuctionId msg) a"
    and "AccAddressFromBech32 k (mp_Bidder msg) = Some x"
    and "GetAllowedBidder (mp_AuctionId msg) x s \<noteq> None"
    and "n = GetLastBidId (mp_AuctionId msg) s + 1" and "b = bidOf msg n"
    and "bidOK a b" and "b' = placedBid a b"
    and "FundCommunityPool k (bank s) (PlaceBidFee (params s)) x = (None, bk)"
    and "moved k x (PayingReserveAddress k (mp_AuctionId msg)) (ba_PayingCoinDenom (base a))
      (ConvertToPayingAmount k b (ba_PayingCoinDenom (base a))) bk bk'"
    and "\<forall>ba r. a = FixedPriceAuction ba r \<longrightarrow>
      ConvertToSellingAmount k b (ba_PayingCoinDenom ba) \<le> Amount r"
    and "t = (afterPlacing k a b (s\<lparr>bank := bk', LastBidIds := oset (mp_AuctionId msg) n (LastBidIds s)\<rparr>))
      \<lparr>Bids := oset (mp_AuctionId msg, n) b' (Bids s), BidIndex := bi, events := ev\<rparr>"
proof -
  let ?i = "mp_AuctionId msg"
  obtain a where a: "GetAuction ?i s = Some a"
    using run by (cases "GetAuction ?i s") (auto simp: PlaceBid_def run_Ok)
  have ok: "auctionOK k ?i a" using inv a by (auto simp: Inv_def auctionInv_def split: option.splits)
  then have ida: "ba_Id (base a) = ?i" by (simp add: auctionOK_def)
  have started: "ba_Status (base a) = AuctionStatusStarted"
    using run a by (auto simp: PlaceBid_def run_Ok)
  obtain x s1 s2 s3 ev where x: "AccAddressFromBech32 k (mp_Bidder msg) = Some x"
    and al: "GetAllowedBidder ?i x s \<noteq> None"
    and s1: "PayPlaceBidFee k x s = (Ok (), s1)"
    and s2: "placeByType k a x (bidOf msg (GetLastBidId ?i s1 + 1))
        (SetBidId ?i (GetLastBidId ?i s1 + 1) s1) = (Ok b', s2)"
    and s3: "SetBid k b' s2 = (Ok (), s3)" and t: "t = s3\<lparr>events := ev\<rparr>"
    using run a ida unfolding bidOf_def
    by (auto simp: PlaceBid_def run_Ok GetNextBidIdWithUpdate_def EmitEvent_def mp_GetBidder_def Let_def
        split: if_splits AuctionI.splits)
  from s1 obtain bk where bk: "s1 = s\<lparr>bank := bk\<rparr>"
    and fee: "FundCommunityPool k (bank s) (PlaceBidFee (params s)) x = (None, bk)" by (rule fee_Ok)
  define n where "n = GetLastBidId ?i s + 1"
  define b where "b = bidOf msg n"
  have n: "GetLastBidId ?i s1 + 1 = n" by (simp add: n_def bk GetLastBidId_def)
  have msg: "mp_BidType msg \<noteq> BidTypeNil" "CoinValidate k (mp_Coin msg)" "0 < Amount (mp_Coin msg)"
      "0 < mant (mp_Price msg)"
    using valid by (auto simp: mp_ValidateBasic_Ok CoinValidate_law)
  from s2 have "placeByType k a x b (SetBidId ?i n s1) = (Ok b', s2)" by (simp add: n b_def)
  then obtain bk' where bOK: "bidOK a b" and b': "b' = placedBid a b"
    and s2': "s2 = afterPlacing k a b ((SetBidId ?i n s1)\<lparr>bank := bk'\<rparr>)"
    and mv: "moved k x (PayingReserveAddress k ?i) (ba_PayingCoinDenom (base a))
      (ConvertToPayingAmount k b (ba_PayingCoinDenom (base a))) (bank (SetBidId ?i n s1)) bk'"
    and le: "\<And>ba r. a = FixedPriceAuction ba r \<Longrightarrow>
      ConvertToSellingAmount k b (ba_PayingCoinDenom ba) \<le> Amount r"
    by (rule placeByType_Ok [OF _ ok]) (simp_all add: b_def bidOf_def msg)
  have bank: "bank (SetBidId ?i n s1) = bk" "(SetBidId ?i n s1)\<lparr>bank := bk'\<rparr>
      = s\<lparr>bank := bk', LastBidIds := oset ?i n (LastBidIds s)\<rparr>"
    by (simp_all add: SetBidId_def bk)
  have idb: "bid_AuctionId b = ?i" "bid_Id b = n" by (simp_all add: b_def bidOf_def)
  have "\<exists>bi. t = s2\<lparr>Bids := oset (?i, n) b' (Bids s), BidIndex := bi, events := ev\<rparr>"
    using s3 t idb by (auto simp: SetBid_Ok b' s2' bank)
  then show ?thesis
    using that [OF a started ok x al n_def b_def bOK b' fee] le mv by (auto simp: s2' bank)
qed

text \<open>The auction after a bid: only what remains has changed.\<close>

lemma afterPlacing_auction:
  assumes "auctionOK k i a" and "bidOK a b" and "GetAuction i s = Some a"
    and "\<And>ba r. a = FixedPriceAuction ba r \<Longrightarrow> ConvertToSellingAmount k b (ba_PayingCoinDenom ba) \<le> Amount r"
  obtains a' where "GetAuction i (afterPlacing k a b s) = Some a'" and "auctionOK k i a'" and "base a' = base a"
    and "\<And>c. bidOK a' c = bidOK a c"
    and "case a' of FixedPriceAuction ba r' \<Rightarrow> (\<exists>r. a = FixedPriceAuction ba r
        \<and> Amount r' = Amount r - ConvertToSellingAmount k b (ba_PayingCoinDenom ba))
      | BatchAuction _ _ _ _ _ \<Rightarrow> a' = a"
proof (cases a)
  case (FixedPriceAuction ba r)
  then show ?thesis
    using assms
    by (intro that [of "FixedPriceAuction ba
          (Coin (Denom r) (Amount r - ConvertToSellingAmount k b (ba_PayingCoinDenom ba)))"])
      (auto simp: auctionOK_def bidOK_def afterPlacing_def SetAuction_def GetAuction_def)
next
  case BatchAuction
  then show ?thesis using assms by (intro that [of a]) (auto simp: afterPlacing_def)
qed

lemma fresh_bid:
  assumes "Inv k s" and "GetAuction i s = Some a" and "unat (GetLastBidId i s) + 1 < 2 ^ 64"
  shows "GetBid i (GetLastBidId i s + 1) s = None"
proof (rule ccontr)
  assume "GetBid i (GetLastBidId i s + 1) s \<noteq> None"
  then obtain c where c: "GetBid i (GetLastBidId i s + 1) s = Some c" by blast
  note mem = storeOK_bid [OF InvD(1) [OF assms(1)] c]
  have "unat (GetLastBidId i s + 1) \<le> unat (GetLastBidId i s)"
    using InvD(4) [OF assms(1,2) mem(1)] mem(3) by simp
  then show False using assms(3) by (simp add: unat_plus_if')
qed

text \<open>Storing a bid for a started auction: if its place was empty or held an earlier form of it, and the
  paying reserve grew by the difference of what they pay, the invariant is kept.\<close>

lemma stored_bids_sum:
  assumes "storeOK k s" and "bid_AuctionId b = i" and "Bids t = oset (i, bid_Id b) b (Bids s)"
  shows "sum_list (map f (GetBidsByAuctionId i t)) =
    sum_list (map f (GetBidsByAuctionId i s)) + f b - before s b f"
  using oiter_sum_oset [of "Bids s" "\<lambda>key. fst key = i" "(i, bid_Id b)" f b] assms
  by (simp add: GetBidsByAuctionId_def before_def GetBid_def storeOK_def)

lemma stored_bids_all:
  assumes "storeOK k s" and "bid_AuctionId b = i" and "Bids t = oset (i, bid_Id b) b (Bids s)"
    and "\<And>c. c \<in> set (GetBidsByAuctionId i s) \<Longrightarrow> Q c" and "Q b"
  shows "c \<in> set (GetBidsByAuctionId i t) \<Longrightarrow> Q c"
  using omap.iter_all_put [of "Bids s" "\<lambda>key. fst key = i" Q "(i, bid_Id b)" b] assms
  by (simp add: GetBidsByAuctionId_def storeOK_def)

lemma stored_bid_Inv:
  assumes inv: "Inv k s" and a: "GetAuction i s = Some a" and st: "ba_Status (base a) = AuctionStatusStarted"
    and a': "GetAuction i t = Some a'" "auctionOK k i a'" "base a' = base a" "\<And>c. bidOK a' c = bidOK a c"
    and b: "bid_AuctionId b = i" "bidOK a b" "bidderAllowed k s i b"
    and maps: "Bids t = oset (i, bid_Id b) b (Bids s)" "AllowedBidders t = AllowedBidders s"
      "VestingQueues t = VestingQueues s" "LastAuctionId t = LastAuctionId s" "owf (Auctions t)"
    and ids: "unat (GetLastBidId i s) \<le> unat (GetLastBidId i t)" "unat (bid_Id b) \<le> unat (GetLastBidId i t)"
    and others: "\<And>j. j \<noteq> i \<Longrightarrow> GetAuction j t = GetAuction j s \<and> GetLastBidId j t = GetLastBidId j s"
    and pays: "before s b (\<lambda>c. ConvertToPayingAmount k c (ba_PayingCoinDenom (base a)))
        \<le> ConvertToPayingAmount k b (ba_PayingCoinDenom (base a))"
    and bal: "\<And>y d. y \<in> reserveSet k \<Longrightarrow> spendable k y d t = spendable k y d s
        + (if y = PayingReserveAddress k i \<and> d = ba_PayingCoinDenom (base a)
           then ConvertToPayingAmount k b d - before s b (\<lambda>c. ConvertToPayingAmount k c d) else 0)"
    and sold: "case a' of FixedPriceAuction ba r' \<Rightarrow> (\<exists>r. a = FixedPriceAuction ba r
        \<and> Amount r' = Amount r - ConvertToSellingAmount k b (ba_PayingCoinDenom ba)
             + before s b (\<lambda>c. ConvertToSellingAmount k c (ba_PayingCoinDenom ba)))
      | BatchAuction _ _ _ _ _ \<Rightarrow> True"
  shows "Inv k t"
proof -
  let ?pd = "ba_PayingCoinDenom (base a)"
  have store: "storeOK k s" by (rule InvD(1) [OF inv])
  note sum = stored_bids_sum [OF store b(1) maps(1)]
  have al: "bidderAllowed k t i c = bidderAllowed k s i c" for c
    by (simp add: bidderAllowed_def GetAllowedBidder_def maps(2))
  have bids: "bidOK a' c \<and> unat (bid_Id c) \<le> unat (GetLastBidId i t) \<and> bidderAllowed k t i c"
    if "c \<in> set (GetBidsByAuctionId i t)" for c
    by (rule stored_bids_all [OF store b(1) maps(1) _ _ that])
      (use InvD(4) [OF inv a] b ids in \<open>auto simp: a'(4) al intro: order_trans\<close>)
  have qs: "GetVestingQueuesByAuctionId j t = GetVestingQueuesByAuctionId j s" for j
    by (simp add: GetVestingQueuesByAuctionId_def maps(3))
  have grow: "spendable k y d s \<le> spendable k y d t" if "y \<in> reserveSet k" for y d
    using bal [OF that, of d] pays by simp
  have selling: "SellingReserveAddress k i \<in> reserveSet k" and paying: "PayingReserveAddress k i \<in> reserveSet k"
    by (auto simp: reserveSet_def reservesOf_def)
  have open': "isOpen a" "isOpen a'" using st by (simp_all add: isOpen_def a'(3))
  note fo = InvD(6) [OF inv a]
  have "fundsOK k t i a'"
    using fo open' grow [OF selling] sold sum [of "\<lambda>c. ConvertToSellingAmount k c ?pd"]
      bal [OF paying, of ?pd] sum [of "\<lambda>c. ConvertToPayingAmount k c ?pd"] st
    by (auto simp: fundsOK_def qs a'(3) paidIn_def soldOut_def split: AuctionI.splits intro: order_trans)
  then have "auctionInv k t i"
    using auctionInvI [OF a'(1,2)] InvD(3,5) [OF inv a] bids by (simp add: maps(4) qs a'(3))
  moreover have "storeOK k t"
    using storeOK_Bids [OF store, of b] b(1) maps by (simp add: storeOK_def)
  moreover have "sameSlice k s t j" if "j \<noteq> i" for j
    using others [OF that] grow reservesOf_subset [of j] that maps
    by (auto simp: sameSlice_def qs GetBidsByAuctionId_def GetAllowedBidder_def)
  ultimately show ?thesis using inv by (blast intro: Inv_step)
qed

lemma PlaceBid_Inv:
  assumes run: "PlaceBid k msg s = (Ok b', t)" and inv: "Inv k s"
    and valid: "mp_ValidateBasic k msg = Ok ()"
    and signer: "\<And>x. AccAddressFromBech32 k (mp_Bidder msg) = Some x \<Longrightarrow>
      x \<notin> reserveSet k \<and> AccAddressString k x = mp_Bidder msg"
    and room: "unat (GetLastBidId (mp_AuctionId msg) s) + 1 < 2 ^ 64"
  shows "Inv k t"
proof -
  let ?i = "mp_AuctionId msg"
  from run inv valid obtain a x n b bk bk' bi ev where a: "GetAuction ?i s = Some a"
    and st: "ba_Status (base a) = AuctionStatusStarted" and ok: "auctionOK k ?i a"
    and x: "AccAddressFromBech32 k (mp_Bidder msg) = Some x"
    and al: "GetAllowedBidder ?i x s \<noteq> None"
    and n: "n = GetLastBidId ?i s + 1" and b: "b = bidOf msg n"
    and bOK: "bidOK a b" and b': "b' = placedBid a b"
    and fee: "FundCommunityPool k (bank s) (PlaceBidFee (params s)) x = (None, bk)"
    and mv: "moved k x (PayingReserveAddress k ?i) (ba_PayingCoinDenom (base a))
      (ConvertToPayingAmount k b (ba_PayingCoinDenom (base a))) bk bk'"
    and le: "\<forall>ba r. a = FixedPriceAuction ba r \<longrightarrow>
      ConvertToSellingAmount k b (ba_PayingCoinDenom ba) \<le> Amount r"
    and t: "t = (afterPlacing k a b (s\<lparr>bank := bk', LastBidIds := oset ?i n (LastBidIds s)\<rparr>))
      \<lparr>Bids := oset (?i, n) b' (Bids s), BidIndex := bi, events := ev\<rparr>"
    by (rule PlaceBid_Ok)
  let ?s = "s\<lparr>bank := bk', LastBidIds := oset ?i n (LastBidIds s)\<rparr>"
  have idb: "bid_AuctionId b' = ?i" "bid_Id b' = n" by (simp_all add: b' b bidOf_def)
  have fresh: "before s (placedBid a b) f = 0" for f
    using fresh_bid [OF inv a room] idb by (simp add: before_def b' n)
  obtain a' where a': "GetAuction ?i (afterPlacing k a b ?s) = Some a'" "auctionOK k ?i a'" "base a' = base a"
      "\<And>c. bidOK a' c = bidOK a c"
    and rem: "case a' of FixedPriceAuction ba r' \<Rightarrow> (\<exists>r. a = FixedPriceAuction ba r
        \<and> Amount r' = Amount r - ConvertToSellingAmount k b (ba_PayingCoinDenom ba))
      | BatchAuction _ _ _ _ _ \<Rightarrow> a' = a"
    by (rule afterPlacing_auction [OF ok bOK, of ?s]) (use a le in \<open>auto simp: GetAuction_def\<close>)
  have "storeOK k (afterPlacing k a b ?s)"
    using InvD(1) [OF inv] by (intro storeOK_afterPlacing) (simp add: storeOK_def)
  then have wf: "owf (Auctions t)" by (simp add: t storeOK_def)
  show ?thesis
  proof (rule stored_bid_Inv [OF inv a st, of t a' b'])
    show "spendable k y d t = spendable k y d s
        + (if y = PayingReserveAddress k ?i \<and> d = ba_PayingCoinDenom (base a)
           then ConvertToPayingAmount k b' d - before s b' (\<lambda>c. ConvertToPayingAmount k c d) else 0)"
      if "y \<in> reserveSet k" for y d
      using mv fee_frame [OF fee _ that, of d] that signer [OF x]
      by (auto simp: moved_def fresh b' t spendable_def)
    show "unat (GetLastBidId ?i s) \<le> unat (GetLastBidId ?i t)"
    proof -
      have "GetLastBidId ?i t = GetLastBidId ?i s + 1" by (simp add: t n GetLastBidId_def)
      then show ?thesis using room by (simp add: unat_plus_if')
    qed
    show "GetAuction j t = GetAuction j s \<and> GetLastBidId j t = GetLastBidId j s" if "j \<noteq> ?i" for j
      using that afterPlacing_other [of a j k b ?s] ok by (auto simp: t slice_defs auctionOK_def)
    show "case a' of FixedPriceAuction ba r' \<Rightarrow> (\<exists>r. a = FixedPriceAuction ba r
        \<and> Amount r' = Amount r - ConvertToSellingAmount k b' (ba_PayingCoinDenom ba)
             + before s b' (\<lambda>c. ConvertToSellingAmount k c (ba_PayingCoinDenom ba)))
      | BatchAuction _ _ _ _ _ \<Rightarrow> True"
      using rem by (auto simp: fresh b' split: AuctionI.splits)
    show "GetAuction ?i t = Some a'" using a'(1) by (simp add: t GetAuction_def)
    show "bidderAllowed k s ?i b'"
      using al signer [OF x] x by (auto simp: bidderAllowed_def b' b bidOf_def)
    show "before s b' (\<lambda>c. ConvertToPayingAmount k c (ba_PayingCoinDenom (base a)))
        \<le> ConvertToPayingAmount k b' (ba_PayingCoinDenom (base a))"
      using bOK by (simp add: fresh b') (intro ConvertToPayingAmount_nonneg, auto simp: bidOK_def)
  qed (use a'(2-4) idb bOK wf in \<open>simp_all add: b' t GetLastBidId_def\<close>)
qed

section \<open>Modifying a bid\<close>

lemma moved_zero: "moved k x y d 0 b b"
  by (simp add: moved_def)

lemma reserve_positive_Ok:
  assumes "(if 0 < Amount c then ReservePayingCoin k i x c else returnM ()) s = (Ok u, t)"
    and "CoinValidate k c"
  obtains b where "t = s\<lparr>bank := b\<rparr>"
    and "moved k x (PayingReserveAddress k i) (Denom c) (Amount c) (bank s) b"
proof (cases "0 < Amount c")
  case True
  with assms show ?thesis by (auto elim: reserve_paying_Ok intro: that)
next
  case False
  with assms have "Amount c = 0" and "t = s" by (auto simp: CoinValidate_law run_Ok)
  then show ?thesis using moved_zero by (intro that [of "bank s"]) simp_all
qed

text \<open>The difference of two reserves in whole coins is what the modified bid pays more.\<close>

lemma reserve_difference_amount:
  assumes "0 \<le> n" and "0 \<le> mant p" and "n \<le> n'" and "mant p \<le> mant p'"
  shows "DecTruncateInt k (DecSub k (DecCeil k (DecMul k (NewDecFromInt k n') p'))
      (DecCeil k (DecMul k (NewDecFromInt k n) p)))
    = - (- (n' * mant p') div decUnit) - - (- (n * mant p) div decUnit)"
    and "- (- (n * mant p) div decUnit) \<le> - (- (n' * mant p') div decUnit)"
proof -
  have "n * mant p \<le> n' * mant p'" using assms by (intro mult_mono) auto
  then show le: "- (- (n * mant p) div decUnit) \<le> - (- (n' * mant p') div decUnit)"
    by (rule ceil_div_mono [OF decUnit_pos(1)])
  let ?c = "- (- (n' * mant p') div decUnit) - - (- (n * mant p) div decUnit)"
  have "DecSub k (DecCeil k (DecMul k (NewDecFromInt k n') p')) (DecCeil k (DecMul k (NewDecFromInt k n) p))
      = Dec (?c * decUnit)"
    by (simp add: NewDecFromInt_law DecMul_whole DecCeil_law DecSub_law) (simp add: algebra_simps)
  moreover have "0 \<le> ?c * decUnit" using le by simp
  ultimately show "DecTruncateInt k (DecSub k (DecCeil k (DecMul k (NewDecFromInt k n') p'))
      (DecCeil k (DecMul k (NewDecFromInt k n) p))) = ?c"
    by (simp only: DecTruncateInt_law dec.sel) simp
qed

lemma reserveDifference_Ok:
  assumes run: "reserveDifference k (BatchAuction ba mn mp mx er) x b msg s = (Ok u, t)"
    and ok: "auctionOK k i (BatchAuction ba mn mp mx er)" "mm_AuctionId msg = i"
      "bidOK (BatchAuction ba mn mp mx er) b" "Denom (mm_Coin msg) = Denom (bid_Coin b)"
    and ge: "bid_Price b \<le> mm_Price msg" "Amount (bid_Coin b) \<le> Amount (mm_Coin msg)"
    and b': "b' = b\<lparr>bid_Price := mm_Price msg, bid_Coin := mm_Coin msg\<rparr>"
  obtains bk where "t = s\<lparr>bank := bk\<rparr>"
    and "ConvertToPayingAmount k b (ba_PayingCoinDenom ba) \<le> ConvertToPayingAmount k b' (ba_PayingCoinDenom ba)"
    and "moved k x (PayingReserveAddress k i) (ba_PayingCoinDenom ba)
      (ConvertToPayingAmount k b' (ba_PayingCoinDenom ba) - ConvertToPayingAmount k b (ba_PayingCoinDenom ba))
      (bank s) bk"
proof (cases "bid_Type b = BidTypeBatchWorth")
  case True
  then have d: "Denom (bid_Coin b) = ba_PayingCoinDenom ba" using ok(3) by (simp add: bidOK_def)
  from run True ok(2,4) ge(2) obtain c where c: "c = Coin (ba_PayingCoinDenom ba) (Amount (mm_Coin msg) - Amount (bid_Coin b))"
    and "(if 0 < Amount c then ReservePayingCoin k i x c else returnM ()) s = (Ok (), t)"
    by (auto simp: reserveDifference_def run_Ok CoinSub_law d split: if_splits)
  moreover have "CoinValidate k c" using ok(1) ge(2) by (simp add: c CoinValidate_law auctionOK_def)
  ultimately obtain bk where "t = s\<lparr>bank := bk\<rparr>"
    and "moved k x (PayingReserveAddress k i) (Denom c) (Amount c) (bank s) bk"
    by (elim reserve_positive_Ok)
  then show ?thesis
    using d ok(4) ge(2) by (intro that [of bk]) (simp_all add: c b' ConvertToPayingAmount_def)
next
  case False
  then have many: "bid_Type b = BidTypeBatchMany" and d: "Denom (bid_Coin b) \<noteq> ba_PayingCoinDenom ba"
    using ok(1,3) by (auto simp: bidOK_def auctionOK_def)
  let ?c = "\<lambda>b. ConvertToPayingAmount k b (ba_PayingCoinDenom ba)"
  have conv: "?c b = - (- (Amount (bid_Coin b) * mant (bid_Price b)) div decUnit)"
      "?c b' = - (- (Amount (mm_Coin msg) * mant (mm_Price msg)) div decUnit)"
    using d ok(3,4) ge by (simp_all add: ConvertToPayingAmount_eq b' bidOK_def less_eq_dec_def)
  note diff = reserve_difference_amount [of "Amount (bid_Coin b)" "bid_Price b" "Amount (mm_Coin msg)" "mm_Price msg"]
  have le: "?c b \<le> ?c b'" unfolding conv
    by (rule diff(2)) (use ok(3) ge in \<open>auto simp: bidOK_def less_eq_dec_def\<close>)
  have "DecTruncateInt k (DecSub k (DecCeil k (DecMul k (NewDecFromInt k (Amount (mm_Coin msg))) (mm_Price msg)))
      (DecCeil k (DecMul k (NewDecFromInt k (Amount (bid_Coin b))) (bid_Price b)))) = ?c b' - ?c b"
    unfolding conv by (rule diff(1)) (use ok(3) ge in \<open>auto simp: bidOK_def less_eq_dec_def\<close>)
  with run many ok(2) obtain c where c: "NewCoin k (ba_PayingCoinDenom ba) (?c b' - ?c b) = Some c"
    and "(if 0 < Amount c then ReservePayingCoin k i x c else returnM ()) s = (Ok (), t)"
    by (auto simp: reserveDifference_def run_Ok Let_def)
  moreover have "CoinValidate k c" using c by (auto simp: NewCoin_Some CoinValidate_law)
  ultimately obtain bk where "t = s\<lparr>bank := bk\<rparr>"
    and "moved k x (PayingReserveAddress k i) (Denom c) (Amount c) (bank s) bk"
    by (elim reserve_positive_Ok)
  then show ?thesis using c le by (intro that [of bk]) (auto simp: NewCoin_Some)
qed

lemma ModifyBid_Ok:
  assumes run: "ModifyBid k msg s = (Ok u, t)" and inv: "Inv k s"
  obtains ba mn mp mx er b x b' bk bi where
      "GetAuction (mm_AuctionId msg) s = Some (BatchAuction ba mn mp mx er)"
    and "ba_Status ba = AuctionStatusStarted"
    and "GetBid (mm_AuctionId msg) (mm_BidId msg) s = Some b"
    and "AccAddressFromBech32 k (bid_Bidder b) = Some x"
    and "AccAddressFromBech32 k (mm_Bidder msg) = Some x" and "mn \<le> mm_Price msg"
    and "Denom (mm_Coin msg) = Denom (bid_Coin b)"
    and "bid_Price b \<le> mm_Price msg" and "Amount (bid_Coin b) \<le> Amount (mm_Coin msg)"
    and "mm_Price msg \<noteq> bid_Price b \<or> Amount (mm_Coin msg) \<noteq> Amount (bid_Coin b)"
    and "b' = b\<lparr>bid_Price := mm_Price msg, bid_Coin := mm_Coin msg\<rparr>"
    and "ConvertToPayingAmount k b (ba_PayingCoinDenom ba) \<le> ConvertToPayingAmount k b' (ba_PayingCoinDenom ba)"
    and "moved k x (PayingReserveAddress k (mm_AuctionId msg)) (ba_PayingCoinDenom ba)
      (ConvertToPayingAmount k b' (ba_PayingCoinDenom ba) - ConvertToPayingAmount k b (ba_PayingCoinDenom ba))
      (bank s) bk"
    and "t = s\<lparr>bank := bk, Bids := oset (mm_AuctionId msg, mm_BidId msg) b' (Bids s), BidIndex := bi\<rparr>"
proof -
  let ?i = "mm_AuctionId msg"
  obtain a where a: "GetAuction ?i s = Some a"
    using run by (cases "GetAuction ?i s") (auto simp: ModifyBid_def run_Ok)
  have ty: "ba_Type (base a) = AuctionTypeBatch" using run a by (auto simp: ModifyBid_def run_Ok)
  have ok: "auctionOK k ?i a" by (rule InvD(2) [OF inv a])
  with ty obtain ba mn mp mx er where ba: "a = BatchAuction ba mn mp mx er"
    by (cases a) (auto simp: auctionOK_def)
  obtain b where b: "GetBid ?i (mm_BidId msg) s = Some b"
    using run a by (cases "GetBid ?i (mm_BidId msg) s") (auto simp: ModifyBid_def run_Ok)
  define b' where "b' = b\<lparr>bid_Price := mm_Price msg, bid_Coin := mm_Coin msg\<rparr>"
  obtain x s1 where st: "ba_Status ba = AuctionStatusStarted"
    and x: "AccAddressFromBech32 k (bid_Bidder b) = Some x" "AccAddressFromBech32 k (mm_Bidder msg) = Some x"
    and mn: "mn \<le> mm_Price msg" and d: "Denom (mm_Coin msg) = Denom (bid_Coin b)"
    and ge: "bid_Price b \<le> mm_Price msg" "Amount (bid_Coin b) \<le> Amount (mm_Coin msg)"
    and ne: "mm_Price msg \<noteq> bid_Price b \<or> Amount (mm_Coin msg) \<noteq> Amount (bid_Coin b)"
    and s1: "reserveDifference k a x b msg s = (Ok (), s1)" and t: "SetBid k b' s1 = (Ok (), t)"
    using run a b
    by (auto simp: ModifyBid_def run_Ok Let_def ba b'_def Bid_GetBidder_def mm_GetBidder_def not_less)
  note mem = storeOK_bid [OF InvD(1) [OF inv] b]
  have "bidOK a b" using InvD(4) [OF inv a mem(1)] by simp
  with s1 ok obtain bk where "s1 = s\<lparr>bank := bk\<rparr>"
    and "ConvertToPayingAmount k b (ba_PayingCoinDenom ba) \<le> ConvertToPayingAmount k b' (ba_PayingCoinDenom ba)"
    and "moved k x (PayingReserveAddress k ?i) (ba_PayingCoinDenom ba)
      (ConvertToPayingAmount k b' (ba_PayingCoinDenom ba) - ConvertToPayingAmount k b (ba_PayingCoinDenom ba))
      (bank s) bk"
    unfolding ba by (elim reserveDifference_Ok [OF _ _ refl _ d ge b'_def])
  then show ?thesis
    using that [OF a [unfolded ba] st b x mn d ge ne b'_def] t mem
    by (auto simp: SetBid_Ok b'_def)
qed

lemma ModifyBid_Inv:
  assumes run: "ModifyBid k msg s = (Ok u, t)" and inv: "Inv k s"
    and signer: "\<And>x. AccAddressFromBech32 k (mm_Bidder msg) = Some x \<Longrightarrow> x \<notin> reserveSet k"
  shows "Inv k t"
proof -
  let ?i = "mm_AuctionId msg"
  from run inv obtain ba mn mp mx er b x b' bk bi where
      a: "GetAuction ?i s = Some (BatchAuction ba mn mp mx er)"
    and st: "ba_Status ba = AuctionStatusStarted" and b: "GetBid ?i (mm_BidId msg) s = Some b"
    and x: "AccAddressFromBech32 k (bid_Bidder b) = Some x" "AccAddressFromBech32 k (mm_Bidder msg) = Some x"
    and mn: "mn \<le> mm_Price msg" and d: "Denom (mm_Coin msg) = Denom (bid_Coin b)"
    and ge: "bid_Price b \<le> mm_Price msg" "Amount (bid_Coin b) \<le> Amount (mm_Coin msg)"
    and ne: "mm_Price msg \<noteq> bid_Price b \<or> Amount (mm_Coin msg) \<noteq> Amount (bid_Coin b)"
    and b': "b' = b\<lparr>bid_Price := mm_Price msg, bid_Coin := mm_Coin msg\<rparr>"
    and le: "ConvertToPayingAmount k b (ba_PayingCoinDenom ba) \<le> ConvertToPayingAmount k b' (ba_PayingCoinDenom ba)"
    and mv: "moved k x (PayingReserveAddress k ?i) (ba_PayingCoinDenom ba)
      (ConvertToPayingAmount k b' (ba_PayingCoinDenom ba) - ConvertToPayingAmount k b (ba_PayingCoinDenom ba))
      (bank s) bk"
    and t: "t = s\<lparr>bank := bk, Bids := oset (?i, mm_BidId msg) b' (Bids s), BidIndex := bi\<rparr>"
    by (rule ModifyBid_Ok)
  let ?a = "BatchAuction ba mn mp mx er"
  note mem = storeOK_bid [OF InvD(1) [OF inv] b] and old = InvD(4) [OF inv a]
  have id': "bid_AuctionId b' = ?i" "bid_Id b' = mm_BidId msg" "bid_Bidder b' = bid_Bidder b"
    using mem by (simp_all add: b')
  have was: "before s b' f = f b" for f by (simp add: before_def id' b)
  have "storeOK k s" by (rule InvD(1) [OF inv])
  then have wf: "owf (Auctions t)" by (simp add: t storeOK_def)
  show ?thesis
  proof (rule stored_bid_Inv [OF inv a, of t ?a b'])
    show "spendable k y e t = spendable k y e s
        + (if y = PayingReserveAddress k ?i \<and> e = ba_PayingCoinDenom (base ?a)
           then ConvertToPayingAmount k b' e - before s b' (\<lambda>c. ConvertToPayingAmount k c e) else 0)"
      if "y \<in> reserveSet k" for y e
      using mv that signer [OF x(2)] by (auto simp: moved_def was t spendable_def)
    show "bidOK ?a b'"
      using old [OF mem(1)] d ge by (auto simp: bidOK_def b' less_eq_dec_def)
    show "bidderAllowed k s ?i b'" using old [OF mem(1)] by (simp add: bidderAllowed_def id')
    show "unat (bid_Id b') \<le> unat (GetLastBidId ?i t)"
      using old [OF mem(1)] mem(3) by (simp add: id' t GetLastBidId_def)
  qed (use InvD(2) [OF inv a] a st wf le in \<open>simp_all add: t id' was GetAuction_def GetLastBidId_def\<close>)
qed

section \<open>Creating an auction\<close>

lemma fresh_auction:
  assumes "Inv k s" and "unat (LastAuctionId s) + 1 < 2 ^ 64"
  shows "GetAuction (LastAuctionId s + 1) s = None"
proof (rule ccontr)
  assume "GetAuction (LastAuctionId s + 1) s \<noteq> None"
  then obtain a where "GetAuction (LastAuctionId s + 1) s = Some a" by blast
  then have "unat (LastAuctionId s + 1) \<le> unat (LastAuctionId s)" by (rule InvD(3) [OF assms(1)])
  then show False using assms(2) by (simp add: unat_plus_if')
qed

text \<open>A new auction under the next id, whose coins for sale have been reserved.\<close>

lemma created_Inv:
  assumes inv: "Inv k s" and room: "unat (LastAuctionId s) + 1 < 2 ^ 64" and i: "i = LastAuctionId s + 1"
    and t: "t = (SetAuction a (s\<lparr>LastAuctionId := i, bank := bk'\<rparr>))\<lparr>events := ev\<rparr>"
    and ok: "auctionOK k i a" and op: "isOpen a"
    and rem: "\<And>b r. a = FixedPriceAuction b r \<Longrightarrow> r = ba_SellingCoin b"
    and fee: "FundCommunityPool k (bank s) fees x = (None, bk)" and x: "x \<notin> reserveSet k"
    and mv: "moved k x (SellingReserveAddress k i) (Denom (ba_SellingCoin (base a)))
      (Amount (ba_SellingCoin (base a))) bk bk'"
  shows "Inv k t"
proof -
  let ?c = "ba_SellingCoin (base a)"
  have new: "GetAuction i s = None" using fresh_auction [OF inv room] i by simp
  have ida: "ba_Id (base a) = i" and pos: "0 < Amount ?c" using ok by (simp_all add: auctionOK_def)
  have none: "GetBidsByAuctionId i t = []" "GetVestingQueuesByAuctionId i t = []"
    using InvD(7) [OF inv new] by (simp_all add: t SetAuction_def GetBidsByAuctionId_def GetVestingQueuesByAuctionId_def)
  have bal: "spendable k y d t = spendable k y d s
      + (if y = SellingReserveAddress k i \<and> d = Denom ?c then Amount ?c else 0)"
    if "y \<in> reserveSet k" for y d
    using mv fee_frame [OF fee x that, of d] that x by (auto simp: moved_def t SetAuction_def spendable_def)
  have selling: "SellingReserveAddress k i \<in> reserveSet k" and paying: "PayingReserveAddress k i \<in> reserveSet k"
    by (auto simp: reserveSet_def reservesOf_def)
  have nonneg: "0 \<le> spendable k y d u" for y d u by (simp add: spendable_def spendable_nonneg)
  have "fundsOK k t i a"
    using bal [OF selling, of "Denom ?c"] nonneg [of "SellingReserveAddress k i" "Denom ?c" s] rem op
      nonneg [of "PayingReserveAddress k i" _ t]
    by (auto simp: fundsOK_def none paidIn_def soldOut_def isOpen_def split: AuctionI.splits)
  then have "auctionInv k t i"
    using ok none by (intro auctionInvI) (simp_all add: t SetAuction_def GetAuction_def ida)
  moreover have "storeOK k t = storeOK k (SetAuction a s)"
    by (rule storeOK_cong) (simp_all add: t SetAuction_def)
  then have "storeOK k t" using storeOK_SetAuction [OF InvD(1) [OF inv]] by simp
  moreover have "sameSlice k s t j" if "j \<noteq> i" for j
    using that room bal reservesOf_subset [of j] pos ida
    by (auto simp: sameSlice_def t SetAuction_def GetAuction_def GetBidsByAuctionId_def
        GetVestingQueuesByAuctionId_def GetLastBidId_def GetAllowedBidder_def i unat_plus_if')
  ultimately show ?thesis using inv by (blast intro: Inv_step)
qed

lemma creation_Ok:
  assumes "PayCreationFee k x s = (Ok u, s1)" and "ReserveSellingCoin k i x c s1 = (Ok u', t)"
    and "CoinValidate k c"
  obtains bk bk' where "t = s\<lparr>bank := bk'\<rparr>"
    and "FundCommunityPool k (bank s) (AuctionCreationFee (params s)) x = (None, bk)"
    and "moved k x (SellingReserveAddress k i) (Denom c) (Amount c) bk bk'"
proof -
  from assms(1) obtain bk where "s1 = s\<lparr>bank := bk\<rparr>"
    and "FundCommunityPool k (bank s) (AuctionCreationFee (params s)) x = (None, bk)"
    by (auto simp: PayCreationFee_def run_Ok GetParams_def)
  then show ?thesis
    using sendCoin_Ok_iff [OF assms(3)] assms(2) that unfolding ReserveSellingCoin_def
    by fastforce
qed

text \<open>The auctions the two messages describe.\<close>

end

definition baseFor ::
    "'a sdk_scheme \<Rightarrow> AuctionType \<Rightarrow> string \<Rightarrow> dec \<Rightarrow> coin \<Rightarrow> denom \<Rightarrow> VestingSchedule list \<Rightarrow> time \<Rightarrow> time
     \<Rightarrow> uint64 \<Rightarrow> time \<Rightarrow> BaseAuction" where
  "baseFor S ty auctioneer price c pd vs start end' i now =
   \<lparr> ba_Id = i, ba_Type = ty, ba_Auctioneer = auctioneer,
     ba_SellingReserveAddress = AccAddressString S (SellingReserveAddress S i),
     ba_PayingReserveAddress = AccAddressString S (PayingReserveAddress S i),
     ba_StartPrice = price, ba_SellingCoin = c, ba_PayingCoinDenom = pd,
     ba_VestingReserveAddress = AccAddressString S (VestingReserveAddress S i),
     ba_VestingSchedules = vs, ba_StartTime = start, ba_EndTimes = [end'],
     ba_Status = (if now < start then AuctionStatusStandBy else AuctionStatusStarted) \<rparr>"

lemma NewBaseAuction_StartTime [simp]:
  "ba_StartTime (NewBaseAuction i ty au sr pr price c pd vr vs start ends st) = start"
  by (simp add: NewBaseAuction_def)

lemma baseFor_eq:
  "(if start \<le> now
    then (NewBaseAuction i ty auctioneer (AccAddressString S (SellingReserveAddress S i))
      (AccAddressString S (PayingReserveAddress S i)) price c pd
      (AccAddressString S (VestingReserveAddress S i)) vs start [end'] AuctionStatusStandBy)
        \<lparr>ba_Status := AuctionStatusStarted\<rparr>
    else NewBaseAuction i ty auctioneer (AccAddressString S (SellingReserveAddress S i))
      (AccAddressString S (PayingReserveAddress S i)) price c pd
      (AccAddressString S (VestingReserveAddress S i)) vs start [end'] AuctionStatusStandBy)
    = baseFor S ty auctioneer price c pd vs start end' i now"
  by (auto simp: NewBaseAuction_def baseFor_def)

lemmas base_if = baseFor_eq baseFor_eq [folded not_less]

definition fixedAuctionOf :: "'a sdk_scheme \<Rightarrow> MsgCreateFixedPriceAuction \<Rightarrow> uint64 \<Rightarrow> time \<Rightarrow> AuctionI" where
  "fixedAuctionOf S msg i now =
     FixedPriceAuction (baseFor S AuctionTypeFixedPrice (mf_Auctioneer msg) (mf_StartPrice msg)
       (mf_SellingCoin msg) (mf_PayingCoinDenom msg) (mf_VestingSchedules msg) (mf_StartTime msg)
       (mf_EndTime msg) i now) (mf_SellingCoin msg)"

definition batchAuctionOf :: "'a sdk_scheme \<Rightarrow> MsgCreateBatchAuction \<Rightarrow> uint64 \<Rightarrow> time \<Rightarrow> AuctionI" where
  "batchAuctionOf S msg i now =
     BatchAuction (baseFor S AuctionTypeBatch (mb_Auctioneer msg) (mb_StartPrice msg)
       (mb_SellingCoin msg) (mb_PayingCoinDenom msg) (mb_VestingSchedules msg) (mb_StartTime msg)
       (mb_EndTime msg) i now) (mb_MinBidPrice msg) (ZeroDec S) (mb_MaxExtendedRound msg)
       (mb_ExtendedRoundRate msg)"

context fundraising
begin

lemma CreateFixedPriceAuction_Ok:
  assumes run: "CreateFixedPriceAuction k msg s = (Ok a, t)" and valid: "mf_ValidateBasic k msg = Ok ()"
  obtains i x bk bk' ev where "i = LastAuctionId s + 1" and "BlockTime s \<le> mf_EndTime msg"
    and "length (mf_VestingSchedules msg) \<le> MaxNumVestingSchedules"
    and "AccAddressFromBech32 k (mf_Auctioneer msg) = Some x"
    and "a = fixedAuctionOf k msg i (BlockTime s)"
    and "FundCommunityPool k (bank s) (AuctionCreationFee (params s)) x = (None, bk)"
    and "moved k x (SellingReserveAddress k i) (Denom (mf_SellingCoin msg)) (Amount (mf_SellingCoin msg)) bk bk'"
    and "t = (SetAuction a (s\<lparr>LastAuctionId := i, bank := bk'\<rparr>))\<lparr>events := ev\<rparr>"
proof -
  define i where "i = LastAuctionId s + 1"
  let ?s = "s\<lparr>LastAuctionId := i\<rparr>"
  have c: "CoinValidate k (mf_SellingCoin msg)"
    using valid by (auto simp: mf_ValidateBasic_Ok CoinValidate_law)
  obtain x s1 s2 ev where g: "BlockTime s \<le> mf_EndTime msg" "length (mf_VestingSchedules msg) \<le> MaxNumVestingSchedules"
    and x: "AccAddressFromBech32 k (mf_Auctioneer msg) = Some x"
    and fee: "PayCreationFee k x ?s = (Ok (), s1)"
    and res: "ReserveSellingCoin k i x (mf_SellingCoin msg) s1 = (Ok (), s2)"
    and a: "a = fixedAuctionOf k msg i (BlockTime s)" and t: "t = (SetAuction a s2)\<lparr>events := ev\<rparr>"
    using run
    by (auto simp: CreateFixedPriceAuction_def run_Ok GetNextAuctionIdWithUpdate_def EmitEvent_def
        mf_GetAuctioneer_def Let_def i_def GetLastAuctionId_def SetAuctionId_def fixedAuctionOf_def
        base_if NewFixedPriceAuction_def)
  obtain bk bk' where "s2 = ?s\<lparr>bank := bk'\<rparr>"
    and "FundCommunityPool k (bank ?s) (AuctionCreationFee (params ?s)) x = (None, bk)"
    and "moved k x (SellingReserveAddress k i) (Denom (mf_SellingCoin msg)) (Amount (mf_SellingCoin msg)) bk bk'"
    by (rule creation_Ok [OF fee res c])
  then show ?thesis using that [OF i_def g x a] t by simp
qed

lemma CreateBatchAuction_Ok:
  assumes run: "CreateBatchAuction k msg s = (Ok a, t)" and valid: "mb_ValidateBasic k msg = Ok ()"
  obtains i x bk bk' ev where "i = LastAuctionId s + 1" and "BlockTime s \<le> mb_EndTime msg"
    and "length (mb_VestingSchedules msg) \<le> MaxNumVestingSchedules"
    and "mb_MaxExtendedRound msg \<le> MaxExtendedRoundLimit"
    and "AccAddressFromBech32 k (mb_Auctioneer msg) = Some x"
    and "a = batchAuctionOf k msg i (BlockTime s)"
    and "FundCommunityPool k (bank s) (AuctionCreationFee (params s)) x = (None, bk)"
    and "moved k x (SellingReserveAddress k i) (Denom (mb_SellingCoin msg)) (Amount (mb_SellingCoin msg)) bk bk'"
    and "t = (SetAuction a (s\<lparr>LastAuctionId := i, bank := bk'\<rparr>))\<lparr>events := ev\<rparr>"
proof -
  define i where "i = LastAuctionId s + 1"
  let ?s = "s\<lparr>LastAuctionId := i\<rparr>"
  have c: "CoinValidate k (mb_SellingCoin msg)"
    using valid by (auto simp: mb_ValidateBasic_Ok CoinValidate_law)
  obtain x s1 s2 ev where g: "BlockTime s \<le> mb_EndTime msg" "length (mb_VestingSchedules msg) \<le> MaxNumVestingSchedules"
      "mb_MaxExtendedRound msg \<le> MaxExtendedRoundLimit"
    and x: "AccAddressFromBech32 k (mb_Auctioneer msg) = Some x"
    and fee: "PayCreationFee k x ?s = (Ok (), s1)"
    and res: "ReserveSellingCoin k i x (mb_SellingCoin msg) s1 = (Ok (), s2)"
    and a: "a = batchAuctionOf k msg i (BlockTime s)" and t: "t = (SetAuction a s2)\<lparr>events := ev\<rparr>"
    using run
    by (auto simp: CreateBatchAuction_def run_Ok GetNextAuctionIdWithUpdate_def EmitEvent_def
        mb_GetAuctioneer_def Let_def i_def GetLastAuctionId_def SetAuctionId_def batchAuctionOf_def
        base_if NewBatchAuction_def)
  obtain bk bk' where "s2 = ?s\<lparr>bank := bk'\<rparr>"
    and "FundCommunityPool k (bank ?s) (AuctionCreationFee (params ?s)) x = (None, bk)"
    and "moved k x (SellingReserveAddress k i) (Denom (mb_SellingCoin msg)) (Amount (mb_SellingCoin msg)) bk bk'"
    by (rule creation_Ok [OF fee res c])
  then show ?thesis using that [OF i_def g x a] t by simp
qed

lemma CreateFixedPriceAuction_Inv:
  assumes run: "CreateFixedPriceAuction k msg s = (Ok a, t)" and inv: "Inv k s"
    and valid: "mf_ValidateBasic k msg = Ok ()"
    and signer: "\<And>x. AccAddressFromBech32 k (mf_Auctioneer msg) = Some x \<Longrightarrow> x \<notin> reserveSet k"
    and room: "unat (LastAuctionId s) + 1 < 2 ^ 64"
  shows "Inv k t"
proof -
  from run valid obtain i x bk bk' ev where i: "i = LastAuctionId s + 1"
    and x: "AccAddressFromBech32 k (mf_Auctioneer msg) = Some x"
    and a: "a = fixedAuctionOf k msg i (BlockTime s)"
    and fee: "FundCommunityPool k (bank s) (AuctionCreationFee (params s)) x = (None, bk)"
    and mv: "moved k x (SellingReserveAddress k i) (Denom (mf_SellingCoin msg)) (Amount (mf_SellingCoin msg)) bk bk'"
    and t: "t = (SetAuction a (s\<lparr>LastAuctionId := i, bank := bk'\<rparr>))\<lparr>events := ev\<rparr>"
    by (rule CreateFixedPriceAuction_Ok)
  have "auctionOK k i a"
    using valid by (simp add: a fixedAuctionOf_def baseFor_def auctionOK_def mf_ValidateBasic_Ok)
  then show ?thesis
    by (rule created_Inv [OF inv room i t _ _ _ fee signer [OF x]])
      (use mv in \<open>auto simp: a fixedAuctionOf_def baseFor_def isOpen_def\<close>)
qed

lemma CreateBatchAuction_Inv:
  assumes run: "CreateBatchAuction k msg s = (Ok a, t)" and inv: "Inv k s"
    and valid: "mb_ValidateBasic k msg = Ok ()"
    and signer: "\<And>x. AccAddressFromBech32 k (mb_Auctioneer msg) = Some x \<Longrightarrow> x \<notin> reserveSet k"
    and room: "unat (LastAuctionId s) + 1 < 2 ^ 64"
  shows "Inv k t"
proof -
  from run valid obtain i x bk bk' ev where i: "i = LastAuctionId s + 1"
    and mx: "mb_MaxExtendedRound msg \<le> MaxExtendedRoundLimit"
    and x: "AccAddressFromBech32 k (mb_Auctioneer msg) = Some x"
    and a: "a = batchAuctionOf k msg i (BlockTime s)"
    and fee: "FundCommunityPool k (bank s) (AuctionCreationFee (params s)) x = (None, bk)"
    and mv: "moved k x (SellingReserveAddress k i) (Denom (mb_SellingCoin msg)) (Amount (mb_SellingCoin msg)) bk bk'"
    and t: "t = (SetAuction a (s\<lparr>LastAuctionId := i, bank := bk'\<rparr>))\<lparr>events := ev\<rparr>"
    by (rule CreateBatchAuction_Ok)
  have "auctionOK k i a"
    using valid mx by (simp add: a batchAuctionOf_def baseFor_def auctionOK_def mb_ValidateBasic_Ok)
  then show ?thesis
    by (rule created_Inv [OF inv room i t _ _ _ fee signer [OF x]])
      (use mv in \<open>auto simp: a batchAuctionOf_def baseFor_def isOpen_def\<close>)
qed

section \<open>Cancelling an auction\<close>

text \<open>Changing an auction and moving coins out of its own reserves: the other auctions keep what is
  theirs.\<close>

lemma updated_auction_Inv:
  assumes inv: "Inv k s" and a: "GetAuction i s = Some a"
    and a': "GetAuction i t = Some a'" "auctionOK k i a'" "ba_PayingCoinDenom (base a') = ba_PayingCoinDenom (base a)"
      "\<And>c. bidOK a' c = bidOK a c" "fundsOK k t i a'"
    and maps: "Bids t = Bids s" "AllowedBidders t = AllowedBidders s" "LastBidIds t = LastBidIds s"
      "VestingQueues t = VestingQueues s" "LastAuctionId t = LastAuctionId s" "owf (Auctions t)"
    and others: "\<And>j. j \<noteq> i \<Longrightarrow> GetAuction j t = GetAuction j s"
    and bal: "\<And>j y d. j \<noteq> i \<Longrightarrow> y \<in> reservesOf k j \<Longrightarrow> spendable k y d s \<le> spendable k y d t"
  shows "Inv k t"
proof -
  have get: "GetBidsByAuctionId j t = GetBidsByAuctionId j s" "GetLastBidId j t = GetLastBidId j s"
      "GetVestingQueuesByAuctionId j t = GetVestingQueuesByAuctionId j s"
      "GetAllowedBidder j y t = GetAllowedBidder j y s" for j y
    by (simp_all add: GetBidsByAuctionId_def GetLastBidId_def GetVestingQueuesByAuctionId_def
        GetAllowedBidder_def maps)
  have "auctionInv k t i"
    using auctionInvI [OF a'(1,2) _ _ _ a'(5)] InvD(3-5) [OF inv a]
    by (simp add: get maps a'(3,4) bidderAllowed_def)
  moreover have "storeOK k t" using InvD(1) [OF inv] maps by (simp add: storeOK_def)
  moreover have "sameSlice k s t j" if "j \<noteq> i" for j
    using that others bal by (simp add: sameSlice_def get maps)
  ultimately show ?thesis using inv by (blast intro: Inv_step)
qed

text \<open>A cancelled auction, as the cancellation leaves it.\<close>

end

definition cancelled :: "AuctionI \<Rightarrow> AuctionI" where
  "cancelled a = SetStatus AuctionStatusCancelled
     (case a of FixedPriceAuction b r \<Rightarrow> FixedPriceAuction b (Coin (Denom (ba_SellingCoin b)) 0)
      | BatchAuction _ _ _ _ _ \<Rightarrow> a)"

context fundraising
begin

lemma reserve_decodes:
  assumes "auctionOK k i a"
  shows "GetSellingReserveAddress k a = Some (SellingReserveAddress k i)"
    and "GetPayingReserveAddress k a = Some (PayingReserveAddress k i)"
    and "GetVestingReserveAddress k a = Some (VestingReserveAddress k i)"
  using assms by (simp_all add: auctionOK_def GetSellingReserveAddress_def GetPayingReserveAddress_def
      GetVestingReserveAddress_def reserve_decode)

lemma CancelAuction_Ok:
  assumes run: "CancelAuction k msg s = (Ok u, t)" and inv: "Inv k s"
  obtains a x bk ev where "GetAuction (mc_AuctionId msg) s = Some a"
    and "GetAuctioneer k a = Some x" and "AccAddressString k x = mc_Auctioneer msg"
    and "ba_Status (base a) = AuctionStatusStandBy"
    and "moved k (SellingReserveAddress k (mc_AuctionId msg)) x (Denom (ba_SellingCoin (base a)))
      (spendable k (SellingReserveAddress k (mc_AuctionId msg)) (Denom (ba_SellingCoin (base a))) s) (bank s) bk"
    and "t = (SetAuction (cancelled a) (s\<lparr>bank := bk\<rparr>))\<lparr>events := ev\<rparr>"
proof -
  let ?i = "mc_AuctionId msg"
  obtain a where a: "GetAuction ?i s = Some a"
    using run by (cases "GetAuction ?i s") (auto simp: CancelAuction_def run_Ok)
  have ok: "auctionOK k ?i a" by (rule InvD(2) [OF inv a])
  let ?d = "Denom (ba_SellingCoin (base a))" and ?r = "SellingReserveAddress k ?i"
  have d: "ValidateDenom k ?d" using ok by (simp add: auctionOK_def)
  obtain x s1 ev where x: "GetAuctioneer k a = Some x" "AccAddressString k x = mc_Auctioneer msg"
    and st: "ba_Status (base a) = AuctionStatusStandBy"
    and send: "sendCoin k ?r x (Coin ?d (spendable k ?r ?d s)) s = (Ok (), s1)"
    and t: "t = (SetAuction (cancelled a) s1)\<lparr>events := ev\<rparr>"
    using run a reserve_decodes(1) [OF ok] ok
    by (auto simp: CancelAuction_def run_Ok Let_def NewCoin_Some EmitEvent_def cancelled_def auctionOK_def
        split: if_splits AuctionI.splits)
  have "CoinValidate k (Coin ?d (spendable k ?r ?d s))"
    using d spendable_nonneg by (simp add: CoinValidate_law spendable_def)
  from sendCoin_Ok_iff [OF this send] obtain bk where "s1 = s\<lparr>bank := bk\<rparr>"
    and "moved k ?r x ?d (spendable k ?r ?d s) (bank s) bk" by auto
  then show ?thesis using that [OF a x st] t by simp
qed

lemma CancelAuction_Inv:
  assumes run: "CancelAuction k msg s = (Ok u, t)" and inv: "Inv k s"
  shows "Inv k t"
proof -
  let ?i = "mc_AuctionId msg"
  from run inv obtain a x bk ev where a: "GetAuction ?i s = Some a"
    and mv: "moved k (SellingReserveAddress k ?i) x (Denom (ba_SellingCoin (base a)))
      (spendable k (SellingReserveAddress k ?i) (Denom (ba_SellingCoin (base a))) s) (bank s) bk"
    and t: "t = (SetAuction (cancelled a) (s\<lparr>bank := bk\<rparr>))\<lparr>events := ev\<rparr>"
    by (rule CancelAuction_Ok)
  have ok: "auctionOK k ?i a" by (rule InvD(2) [OF inv a])
  have ok': "auctionOK k ?i (cancelled a)"
    using ok by (cases a) (simp_all add: cancelled_def auctionOK_def SetStatus_def)
  then have ida: "ba_Id (base (cancelled a)) = ?i" by (simp add: auctionOK_def)
  show ?thesis
  proof (rule updated_auction_Inv [OF inv a, of t "cancelled a"])
    show "bidOK (cancelled a) c = bidOK a c" for c
      by (cases a) (simp_all add: cancelled_def bidOK_def SetStatus_def)
    show "ba_PayingCoinDenom (base (cancelled a)) = ba_PayingCoinDenom (base a)"
      by (cases a) (simp_all add: cancelled_def)
    show "fundsOK k t ?i (cancelled a)"
      by (cases a) (simp_all add: cancelled_def fundsOK_def isOpen_def)
    show "spendable k y d s \<le> spendable k y d t" if "j \<noteq> ?i" "y \<in> reservesOf k j" for j y d
      using that mv spendable_nonneg
      by (auto simp: t SetAuction_def spendable_def moved_def reservesOf_def reserve_simps)
    show "owf (Auctions t)"
      using storeOK_SetAuction [OF InvD(1) [OF inv], of "cancelled a"] by (simp add: t SetAuction_def storeOK_def)
  qed (use ok' ida in \<open>simp_all add: t SetAuction_def GetAuction_def\<close>)
qed

section \<open>Allowed bidders\<close>

text \<open>Adding or replacing an allowed bidder with a positive limit.\<close>

lemma allowed_Inv:
  assumes inv: "Inv k s" and ab: "AccAddressFromBech32 k (ab_Bidder ab) = Some x"
      "ab_Bidder ab = AccAddressString k x" "ab_MaxBidAmount ab = Some n" "0 < n"
  shows "Inv k (s\<lparr>AllowedBidders := oset (i, addrKey x) ab (AllowedBidders s)\<rparr>)"
    (is "Inv k ?t")
proof -
  have "allowedOK k (i, addrKey x) ab" using ab by (simp add: allowedOK_def)
  then have "storeOK k ?t" by (rule storeOK_AllowedBidders [OF InvD(1) [OF inv]])
  moreover have "sameSlice k s ?t j" for j
    by (simp add: sameSlice_def slice_defs)
  then have "auctionInv k ?t j" for j
    using inv by (metis Inv_def auctionInv_frame)
  ultimately show ?thesis by (simp add: Inv_def)
qed

lemma SetAllowedBidder_Ok:
  "SetAllowedBidder k i ab s = (Ok u, t) \<longleftrightarrow>
    (\<exists>x. AccAddressFromBech32 k (ab_Bidder ab) = Some x
       \<and> t = s\<lparr>AllowedBidders := oset (i, addrKey x) ab (AllowedBidders s)\<rparr>)"
  by (auto simp: SetAllowedBidder_def run_Ok AllowedBidder_GetBidder_def)

lemma AllowedBidder_Validate_Ok:
  "AllowedBidder_Validate k ab = Ok u \<longleftrightarrow>
    AccAddressFromBech32 k (ab_Bidder ab) \<noteq> None \<and> (\<exists>n. ab_MaxBidAmount ab = Some n \<and> 0 < n)"
  by (auto simp: AllowedBidder_Validate_def bindR_Ok_iff split: option.splits)

lemma AddAllowedBidders_Inv:
  assumes run: "AddAllowedBidders k i bidders s = (Ok u, t)" and inv: "Inv k s"
    and canonical: "\<And>ab x. ab \<in> set bidders \<Longrightarrow> AccAddressFromBech32 k (ab_Bidder ab) = Some x \<Longrightarrow>
      AccAddressString k x = ab_Bidder ab"
  shows "Inv k t"
proof -
  from run obtain a where loop: "foreachM (addAllowedBidder k i a) bidders s = (Ok u, t)"
    by (auto simp: AddAllowedBidders_def run_Ok split: option.splits)
  show ?thesis
  proof (rule foreachM_invariant [where P = "Inv k", OF loop inv])
    fix ab s t u
    assume mem: "ab \<in> set bidders" and inv: "Inv k s" and step: "addAllowedBidder k i a ab s = (Ok u, t)"
    from step obtain x n where x: "AccAddressFromBech32 k (ab_Bidder ab) = Some x"
      and n: "ab_MaxBidAmount ab = Some n" "0 < n"
      and t: "t = s\<lparr>AllowedBidders := oset (i, addrKey x) ab (AllowedBidders s)\<rparr>"
      by (auto simp: addAllowedBidder_def run_Ok SetAllowedBidder_Ok AllowedBidder_Validate_Ok)
    show "Inv k t" unfolding t
      by (rule allowed_Inv [OF inv x canonical [OF mem x, symmetric] n])
  qed
qed

lemma UpdateAllowedBidder_Inv:
  assumes run: "UpdateAllowedBidder k i x m s = (Ok u, t)" and inv: "Inv k s"
  shows "Inv k t"
proof -
  from run obtain ab where "GetAllowedBidder i x s = Some ab"
    by (auto simp: UpdateAllowedBidder_def run_Ok Let_def)
  then have usable: "usableAddress x"
    using storeOK_allowed [OF InvD(1) [OF inv]] bech32_usable by metis
  then have dec: "AccAddressFromBech32 k (AccAddressString k x) = Some x" by (rule bech32_roundtrip)
  from run obtain n where n: "m = Some n" "0 < n"
    and t: "t = s\<lparr>AllowedBidders := oset (i, addrKey x) (NewAllowedBidder k x m) (AllowedBidders s)\<rparr>"
    by (auto simp: UpdateAllowedBidder_def run_Ok Let_def SetAllowedBidder_Ok AllowedBidder_Validate_Ok
        NewAllowedBidder_def dec)
  show ?thesis unfolding t
    by (rule allowed_Inv [OF inv, of _ x n]) (simp_all add: NewAllowedBidder_def dec n)
qed

end

end
