(* ===== verification/Payouts.thy ===== *)
theory Payouts
  imports Preservation
begin

text \<open>
  The begin blocker never panics and keeps the invariant.

  Every step that the begin blocker takes on an auction is shown to succeed on a state that
  satisfies the invariant, with its exact effect on the balances: the transfers to the bidders, the
  refund of what was not sold, the vesting queues, the releases. The amounts that the matching
  computes are shown to be covered by the reserves of the auction.
\<close>

section \<open>Ordered maps as finite functions\<close>

lemma omap_sum:
  fixes m :: "('k::linorder, int) omap"
  assumes "owf m"
  shows "sum_list (map snd m) = (\<Sum>x \<in> fst ` set m. case oget m x of None \<Rightarrow> 0 | Some n \<Rightarrow> n)"
  using assms
proof (induction m)
  case (Cons e m)
  then have fresh: "fst e \<notin> fst ` set m" by (auto simp: owf_Cons)
  have "(\<Sum>x \<in> fst ` set m. case oget (e # m) x of None \<Rightarrow> 0 | Some n \<Rightarrow> n)
      = (\<Sum>x \<in> fst ` set m. case oget m x of None \<Rightarrow> 0 | Some n \<Rightarrow> n)"
    by (rule sum.cong [OF refl]) (use fresh in \<open>cases e, force\<close>)
  then show ?case using Cons fresh by (cases e) (simp add: owf_Cons)
qed simp

text \<open>Totals of a map that is filled by \<open>addTo\<close>.\<close>

lemma oget_addTo:
  "oget (addTo x n m) y = (if y = x then Some ((case oget m x of None \<Rightarrow> 0 | Some v \<Rightarrow> v) + n) else oget m y)"
  by (simp add: addTo_def)

lemma owf_fold_addTo: "owf m \<Longrightarrow> owf (fold (\<lambda>b. addTo (f b) (g b)) bs m)"
  by (induction bs arbitrary: m) (auto simp: addTo_def)

lemma oget_fold_addTo:
  "oget (fold (\<lambda>b. addTo (f b) (g b)) bs m) x =
    (if x \<in> f ` set bs
     then Some ((case oget m x of None \<Rightarrow> 0 | Some v \<Rightarrow> v) + sum_list (map g (filter (\<lambda>b. f b = x) bs)))
     else oget m x)"
proof (induction bs arbitrary: m)
  case (Cons b bs)
  have "filter (\<lambda>b. f b = x) bs = []" if "x \<notin> f ` set bs"
    using that by (auto simp: filter_empty_conv)
  then show ?case
    using Cons [of "addTo (f b) (g b) m"] by (auto simp: oget_addTo)
qed simp

lemma keys_fold_addTo: "fst ` set (fold (\<lambda>b. addTo (f b) (g b)) bs m) = fst ` set m \<union> f ` set bs"
  by (induction bs arbitrary: m) (auto simp: addTo_def)

lemma sum_list_by_key:
  fixes g :: "'a \<Rightarrow> int"
  assumes "finite A" and "f ` set bs \<subseteq> A"
  shows "(\<Sum>x \<in> A. sum_list (map g (filter (\<lambda>b. f b = x) bs))) = sum_list (map g bs)"
  using assms(2)
proof (induction bs)
  case (Cons b bs)
  have "(\<Sum>x \<in> A. sum_list (map g (filter (\<lambda>b. f b = x) (b # bs))))
      = (\<Sum>x \<in> A. (if x = f b then g b else 0) + sum_list (map g (filter (\<lambda>b. f b = x) bs)))"
    by (rule sum.cong) auto
  also have "\<dots> = g b + (\<Sum>x \<in> A. sum_list (map g (filter (\<lambda>b. f b = x) bs)))"
    using Cons.prems assms(1) by (simp add: sum.distrib)
  finally show ?case using Cons by simp
qed simp

lemma sum_fold_addTo:
  fixes f :: "'a \<Rightarrow> string"
  shows "sum_list (map snd (fold (\<lambda>b. addTo (f b) (g b)) bs [])) = sum_list (map g bs)"
proof -
  have "sum_list (map snd (fold (\<lambda>b. addTo (f b) (g b)) bs []))
      = (\<Sum>x \<in> f ` set bs. sum_list (map g (filter (\<lambda>b. f b = x) bs)))"
    by (subst omap_sum) (auto simp: owf_fold_addTo keys_fold_addTo oget_fold_addTo intro!: sum.cong)
  then show ?thesis by (simp add: sum_list_by_key)
qed

lemma nonneg_fold_addTo:
  fixes f :: "'a \<Rightarrow> string"
  assumes "\<And>b. b \<in> set bs \<Longrightarrow> 0 \<le> g b" and "(x, n) \<in> set (fold (\<lambda>b. addTo (f b) (g b)) bs [])"
  shows "0 \<le> n"
proof -
  have "oget (fold (\<lambda>b. addTo (f b) (g b)) bs []) x = Some n"
    using assms(2) oget_mem owf_fold_addTo owf_Nil by metis
  then show ?thesis using assms(1)
    by (auto simp: oget_fold_addTo split: if_splits intro!: sum_list_nonneg_int)
qed

section \<open>Paying many bidders\<close>

text \<open>What an address receives from a list of transfers in one denomination.\<close>

definition received :: "'a sdk_scheme \<Rightarrow> (string, int) omap \<Rightarrow> accAddress \<Rightarrow> int" where
  "received S m y =
     sum_list (map snd (filter (\<lambda>e. AccAddressFromBech32 S (fst e) = Some y) m))"

text \<open>A map of payments that can be made: every payee decodes, no amount is negative.\<close>

definition payable :: "'a sdk_scheme \<Rightarrow> (string, int) omap \<Rightarrow> bool" where
  "payable S m \<longleftrightarrow> (\<forall>(x, n) \<in> set m. AccAddressFromBech32 S x \<noteq> None \<and> 0 \<le> n)"

lemma received_nonneg: "payable S m \<Longrightarrow> 0 \<le> received S m y"
  unfolding received_def payable_def by (rule sum_list_nonneg_int) auto

text \<open>Balances after a payment out of one reserve: no other account loses.\<close>

definition spent :: "('b, 'z) keeper_scheme \<Rightarrow> accAddress \<Rightarrow> denom \<Rightarrow> int \<Rightarrow> 'b \<Rightarrow> 'b \<Rightarrow> bool" where
  "spent k r d n b b' \<longleftrightarrow>
     (\<forall>y e. SpendableAmountOf k b y e - (if y = r \<and> e = d then n else 0) \<le> SpendableAmountOf k b' y e)"

lemma moved_spent: "moved k x y d n b b' \<Longrightarrow> 0 \<le> n \<Longrightarrow> spent k x d n b b'"
  by (auto simp: moved_def spent_def)

context fundraising
begin

lemma transferList_ok:
  assumes "payable k m" and "ValidateDenom k d"
    and "\<forall>x y. AccAddressFromBech32 k x = Some y \<longrightarrow> addr x = Ok y"
  shows "\<exists>outs. transferList k addr d m = Ok outs \<and> (\<forall>z \<in> set outs. validTransfer k z)
    \<and> (\<forall>e. sum_list (map (\<lambda>z. coinsAmount (snd z) e) outs) = (if e = d then sum_list (map snd m) else 0))
    \<and> (\<forall>y e. transferAmount outs y e = (if e = d then received k m y else 0))"
  using assms(1)
proof (induction m)
  case Nil
  then show ?case by (simp add: transferAmount_def received_def)
next
  case (Cons p m)
  obtain x n where p: "p = (x, n)" by (cases p)
  from Cons.prems obtain y where y: "AccAddressFromBech32 k x = Some y" and n: "0 \<le> n"
    by (auto simp: payable_def p)
  from Cons obtain outs where outs: "transferList k addr d m = Ok outs"
    "\<forall>z \<in> set outs. validTransfer k z"
    "\<forall>e. sum_list (map (\<lambda>z. coinsAmount (snd z) e) outs) = (if e = d then sum_list (map snd m) else 0)"
    "\<forall>y e. transferAmount outs y e = (if e = d then received k m y else 0)"
    by (auto simp: payable_def)
  show ?case
  proof (cases "n = 0")
    case True
    with outs show ?thesis by (simp add: p received_def)
  next
    case False
    have c: "NewCoin k d n = Some (Coin d n)" using n assms(2) by (simp add: NewCoin_law)
    have cs: "NewCoins k [Coin d n] = Some [Coin d n]"
      using NewCoins_law [of "Coin d n"] n False assms(2) by (simp add: CoinValidate_law)
    have "validTransfer k (y, [Coin d n])"
      using y n False assms(2) bech32_usable by (auto simp: validTransfer_def positiveCoins_def)
    moreover have "transferAmount ((y, [Coin d n]) # outs) y' e =
        (if e = d then received k ((x, n) # m) y' else 0)" for y' e
      using outs(4) y by (auto simp: transferAmount_def received_def coinsAmount_def)
    ultimately show ?thesis
      using outs False by (intro exI [of _ "(y, [Coin d n]) # outs"])
        (auto simp: p c cs assms(3) [rule_format, OF y] coinsAmount_def)
  qed
qed

lemma transfer_inputs:
  "transferAmount (map (\<lambda>z. (r, snd z)) outs) y e =
    (if y = r then sum_list (map (\<lambda>z. coinsAmount (snd z) e) outs) else 0)"
  by (induction outs) (auto simp: transferAmount_def)

text \<open>Payments out of a reserve that holds their total succeed and arrive.\<close>

lemma payout_ok:
  assumes "payable k m" and "ValidateDenom k d"
    and "\<forall>x y. AccAddressFromBech32 k x = Some y \<longrightarrow> addr x = Ok y"
    and "usableAddress r" and "sum_list (map snd m) \<le> spendable k r d s"
  shows "\<exists>outs bk. transferList k addr d m = Ok outs
    \<and> bankM (\<lambda>b. InputOutputCoins k b (map (\<lambda>z. (r, snd z)) outs) outs) s = (Ok (), s\<lparr>bank := bk\<rparr>)
    \<and> (\<forall>y e. SpendableAmountOf k bk y e = spendable k y e s
         - (if y = r \<and> e = d then sum_list (map snd m) else 0) + (if e = d then received k m y else 0))"
proof -
  from transferList_ok [OF assms(1-3)] obtain outs where outs: "transferList k addr d m = Ok outs"
    "\<forall>z \<in> set outs. validTransfer k z"
    "\<forall>e. sum_list (map (\<lambda>z. coinsAmount (snd z) e) outs) = (if e = d then sum_list (map snd m) else 0)"
    "\<forall>y e. transferAmount outs y e = (if e = d then received k m y else 0)"
    by blast
  let ?ins = "map (\<lambda>z. (r, snd z)) outs"
  have "\<forall>z \<in> set ?ins \<union> set outs. validTransfer k z"
    using outs(2) assms(4) by (auto simp: validTransfer_def)
  moreover have "\<forall>e. sum_list (map (\<lambda>z. coinsAmount (snd z) e) ?ins)
      = sum_list (map (\<lambda>z. coinsAmount (snd z) e) outs)"
    by (simp add: comp_def)
  moreover have "\<forall>y e. transferAmount ?ins y e \<le> SpendableAmountOf k (bank s) y e"
    using assms(5) spendable_nonneg by (simp add: transfer_inputs outs(3) spendable_def)
  ultimately obtain bk where "InputOutputCoins k (bank s) ?ins outs = (None, bk)"
    and bal: "\<forall>y e. SpendableAmountOf k bk y e =
      SpendableAmountOf k (bank s) y e - transferAmount ?ins y e + transferAmount outs y e"
    using InputOutputCoins_ok [of ?ins outs "bank s"] by blast
  then have "bankM (\<lambda>b. InputOutputCoins k b ?ins outs) s = (Ok (), s\<lparr>bank := bk\<rparr>)"
    by (simp add: bankM_def)
  moreover have "SpendableAmountOf k bk y e = spendable k y e s
      - (if y = r \<and> e = d then sum_list (map snd m) else 0) + (if e = d then received k m y else 0)" for y e
    using bal by (simp add: transfer_inputs outs(3,4) spendable_def)
  ultimately show ?thesis using outs(1) by blast
qed

lemmas run_simps = bindM_def getsM_def liftR_def modifyM_def returnM_def mustM_def guardM_def
  hook_defs callHook_run

lemma reserves_usable:
  "usableAddress (SellingReserveAddress k i)" "usableAddress (PayingReserveAddress k i)"
  "usableAddress (VestingReserveAddress k i)"
  by (simp_all add: reserve_address_alt Module_usable)

section \<open>The steps of closing an auction\<close>

lemma AllocateSellingCoin_run:
  assumes ok: "auctionOK k i a" and pay: "payable k (mi_AllocationMap mi)"
    and covered: "sum_list (map snd (mi_AllocationMap mi))
      \<le> spendable k (SellingReserveAddress k i) (Denom (ba_SellingCoin (base a))) s"
  shows "\<exists>bk. AllocateSellingCoin k a mi s = (Ok (), s\<lparr>bank := bk\<rparr>)
    \<and> (\<forall>y e. SpendableAmountOf k bk y e = spendable k y e s
         - (if y = SellingReserveAddress k i \<and> e = Denom (ba_SellingCoin (base a))
            then sum_list (map snd (mi_AllocationMap mi)) else 0)
         + (if e = Denom (ba_SellingCoin (base a)) then received k (mi_AllocationMap mi) y else 0))"
proof -
  have d: "ValidateDenom k (Denom (ba_SellingCoin (base a)))" using ok by (simp add: auctionOK_def)
  have addr: "\<forall>x y. AccAddressFromBech32 k x = Some y \<longrightarrow> addrOrEmpty k x = Ok y"
    by (simp add: addrOrEmpty_def)
  from payout_ok [OF pay d addr reserves_usable(1) covered] obtain outs bk where
    outs: "transferList k (addrOrEmpty k) (Denom (ba_SellingCoin (base a))) (mi_AllocationMap mi) = Ok outs"
    and run: "bankM (\<lambda>b. InputOutputCoins k b
      (map (\<lambda>z. (SellingReserveAddress k i, snd z)) outs) outs) s = (Ok (), s\<lparr>bank := bk\<rparr>)"
    and bal: "\<forall>y e. SpendableAmountOf k bk y e = spendable k y e s
         - (if y = SellingReserveAddress k i \<and> e = Denom (ba_SellingCoin (base a))
            then sum_list (map snd (mi_AllocationMap mi)) else 0)
         + (if e = Denom (ba_SellingCoin (base a)) then received k (mi_AllocationMap mi) y else 0)"
    by blast
  have "AllocateSellingCoin k a mi s = (Ok (), s\<lparr>bank := bk\<rparr>)"
    using outs run by (simp add: AllocateSellingCoin_def run_simps reserve_decodes [OF ok])
  with bal show ?thesis by blast
qed

lemma RefundPayingCoin_run:
  assumes ok: "auctionOK k i a" and pay: "payable k (mi_RefundMap mi)"
    and covered: "sum_list (map snd (mi_RefundMap mi))
      \<le> spendable k (PayingReserveAddress k i) (ba_PayingCoinDenom (base a)) s"
  shows "\<exists>bk. RefundPayingCoin k a mi s = (Ok (), s\<lparr>bank := bk\<rparr>)
    \<and> (\<forall>y e. SpendableAmountOf k bk y e = spendable k y e s
         - (if y = PayingReserveAddress k i \<and> e = ba_PayingCoinDenom (base a)
            then sum_list (map snd (mi_RefundMap mi)) else 0)
         + (if e = ba_PayingCoinDenom (base a) then received k (mi_RefundMap mi) y else 0))"
proof -
  have d: "ValidateDenom k (ba_PayingCoinDenom (base a))" using ok by (simp add: auctionOK_def)
  have addr: "\<forall>x y. AccAddressFromBech32 k x = Some y \<longrightarrow> addrOrErr k x = Ok y"
    by (simp add: addrOrErr_def)
  from payout_ok [OF pay d addr reserves_usable(2) covered] obtain outs bk where
    outs: "transferList k (addrOrErr k) (ba_PayingCoinDenom (base a)) (mi_RefundMap mi) = Ok outs"
    and run: "bankM (\<lambda>b. InputOutputCoins k b
      (map (\<lambda>z. (PayingReserveAddress k i, snd z)) outs) outs) s = (Ok (), s\<lparr>bank := bk\<rparr>)"
    and bal: "\<forall>y e. SpendableAmountOf k bk y e = spendable k y e s
         - (if y = PayingReserveAddress k i \<and> e = ba_PayingCoinDenom (base a)
            then sum_list (map snd (mi_RefundMap mi)) else 0)
         + (if e = ba_PayingCoinDenom (base a) then received k (mi_RefundMap mi) y else 0)"
    by blast
  have "RefundPayingCoin k a mi s = (Ok (), s\<lparr>bank := bk\<rparr>)"
    using outs run by (simp add: RefundPayingCoin_def run_simps reserve_decodes [OF ok])
  with bal show ?thesis by blast
qed

text \<open>Sending everything a reserve has always succeeds.\<close>

lemma drain_run:
  assumes "ValidateDenom k d"
  shows "\<exists>bk. sendCoin k r x (Coin d (spendable k r d s)) s = (Ok (), s\<lparr>bank := bk\<rparr>)
    \<and> moved k r x d (spendable k r d s) (bank s) bk"
  using sendCoin_ok [of "Coin d (spendable k r d s)" r s x] assms spendable_nonneg
  by (simp add: CoinValidate_law spendable_def)

lemma auctioneer_decodes:
  assumes "auctionOK k i a"
  obtains x where "GetAuctioneer k a = Some x"
  using assms by (auto simp: auctionOK_def GetAuctioneer_def)

lemma NewCoin_spendable:
  "ValidateDenom k d \<Longrightarrow> NewCoin k d (spendable k r d s) = Some (Coin d (spendable k r d s))"
  using spendable_nonneg by (simp add: NewCoin_law spendable_def)

lemma RefundRemainingSellingCoin_run:
  assumes ok: "auctionOK k i a"
  shows "\<exists>x bk. GetAuctioneer k a = Some x
    \<and> RefundRemainingSellingCoin k a s = (Ok (), s\<lparr>bank := bk\<rparr>)
    \<and> moved k (SellingReserveAddress k i) x (Denom (ba_SellingCoin (base a)))
        (spendable k (SellingReserveAddress k i) (Denom (ba_SellingCoin (base a))) s) (bank s) bk"
proof -
  let ?d = "Denom (ba_SellingCoin (base a))"
  have d: "ValidateDenom k ?d" using ok by (simp add: auctionOK_def)
  obtain x where x: "GetAuctioneer k a = Some x" by (rule auctioneer_decodes [OF ok])
  show ?thesis
    using drain_run [OF d, of "SellingReserveAddress k i" x s] x
    by (auto simp: RefundRemainingSellingCoin_def Let_def run_simps reserve_decodes [OF ok] NewCoin_spendable [OF d])
qed

end

section \<open>Vesting\<close>

text \<open>The amounts of the vesting queues: each schedule but the last gets its weight of the reserve,
  rounded down; the last gets what is left.\<close>

fun vestingAmounts :: "int \<Rightarrow> VestingSchedule list \<Rightarrow> int \<Rightarrow> int list" where
  "vestingAmounts R [] n = []"
| "vestingAmounts R (v # vs) n =
     (if vs = [] then [n]
      else R * mant (vs_Weight v) div decUnit
        # vestingAmounts R vs (n - R * mant (vs_Weight v) div decUnit))"

lemma length_vestingAmounts [simp]: "length (vestingAmounts R vs n) = length vs"
  by (induction vs arbitrary: n) auto

lemma sum_vestingAmounts: "vs \<noteq> [] \<Longrightarrow> sum_list (vestingAmounts R vs n) = n"
  by (induction vs arbitrary: n) auto

lemma nth_vestingAmounts:
  "j + 1 < length vs \<Longrightarrow> vestingAmounts R vs n ! j = R * mant (vs_Weight (vs ! j)) div decUnit"
proof (induction vs arbitrary: n j)
  case (Cons v vs)
  then show ?case by (cases j) auto
qed simp

text \<open>What is left is enough for the remaining weights.\<close>

lemma enough_left:
  assumes "R * (mant w + W) \<le> n * decUnit"
  shows "R * W \<le> (n - R * mant w div decUnit) * decUnit"
proof -
  have "R * mant w div decUnit * decUnit \<le> R * mant w"
    by (simp add: minus_mod_eq_div_mult [symmetric])
  then show ?thesis using assms by (simp add: algebra_simps)
qed

lemma decUnit_sign: "0 \<le> n * decUnit \<longleftrightarrow> 0 \<le> n"
  by (simp add: zero_le_mult_iff decUnit_def)

lemma vestingAmounts_nonneg:
  assumes "0 \<le> R" and "\<forall>v \<in> set vs. 0 < mant (vs_Weight v)"
    and "R * sum_list (map (\<lambda>v. mant (vs_Weight v)) vs) \<le> n * decUnit" and "x \<in> set (vestingAmounts R vs n)"
  shows "0 \<le> x"
  using assms(2-)
proof (induction vs arbitrary: n)
  case (Cons v vs)
  have wt: "0 \<le> R * mant (vs_Weight v)" using assms(1) Cons.prems(1) by simp
  show ?case
  proof (cases "vs = []")
    case True
    then have "0 \<le> n * decUnit" using wt Cons.prems(2) by simp
    then show ?thesis using True Cons.prems(3) by (simp add: decUnit_sign)
  next
    case False
    have "0 \<le> R * mant (vs_Weight v) div decUnit" using wt by (simp add: pos_imp_zdiv_nonneg_iff)
    moreover have "R * sum_list (map (\<lambda>v. mant (vs_Weight v)) vs)
        \<le> (n - R * mant (vs_Weight v) div decUnit) * decUnit"
      using Cons.prems(2) by (intro enough_left) simp
    ultimately show ?thesis using Cons False by auto
  qed
qed simp

definition queueFor :: "AuctionI \<Rightarrow> string \<Rightarrow> VestingSchedule \<Rightarrow> int \<Rightarrow> VestingQueue" where
  "queueFor a auctioneer v n =
   \<lparr> vq_AuctionId = GetId a, vq_Auctioneer = auctioneer, vq_PayingCoin = Coin (ba_PayingCoinDenom (base a)) n,
     vq_ReleaseTime = vs_ReleaseTime v, vq_Released = False \<rparr>"

definition queuesFor :: "AuctionI \<Rightarrow> string \<Rightarrow> int \<Rightarrow> VestingSchedule list \<Rightarrow> int \<Rightarrow> VestingQueue list" where
  "queuesFor a auctioneer R vs n = map (\<lambda>(v, x). queueFor a auctioneer v x) (zip vs (vestingAmounts R vs n))"

lemma queuesFor_times: "map vq_ReleaseTime (queuesFor a x R vs n) = map vs_ReleaseTime vs"
  by (induction vs arbitrary: n) (auto simp: queuesFor_def queueFor_def)

lemma queuesFor_amounts: "map (\<lambda>q. Amount (vq_PayingCoin q)) (queuesFor a x R vs n) = vestingAmounts R vs n"
  by (induction vs arbitrary: n) (auto simp: queuesFor_def queueFor_def)

lemma queuesFor_mem:
  "q \<in> set (queuesFor a x R vs n) \<Longrightarrow>
    vq_AuctionId q = GetId a \<and> Denom (vq_PayingCoin q) = ba_PayingCoinDenom (base a) \<and> \<not> vq_Released q"
  by (auto simp: queuesFor_def queueFor_def)

lemma unreleased_queuesFor:
  assumes "vs \<noteq> []"
  shows "unreleased (queuesFor a x R vs n) = n"
proof -
  have "unreleased (queuesFor a x R vs n) = sum_list (map (\<lambda>q. Amount (vq_PayingCoin q)) (queuesFor a x R vs n))"
    unfolding unreleased_def
    by (rule arg_cong [of _ _ sum_list], rule map_cong) (auto dest: queuesFor_mem)
  then show ?thesis using assms by (simp add: queuesFor_amounts sum_vestingAmounts)
qed

context fundraising
begin

lemma vestingLoop_run:
  assumes "ValidateDenom k (ba_PayingCoinDenom (base a))" and "0 \<le> Amount rc"
    and "\<forall>v \<in> set vs. 0 < mant (vs_Weight v)"
    and "Amount rc * sum_list (map (\<lambda>v. mant (vs_Weight v)) vs) \<le> Amount left * decUnit"
  shows "vestingLoop k a x rc vs left s =
    (Ok (), fold SetVestingQueue (queuesFor a x (Amount rc) vs (Amount left)) s)"
  using assms(3,4)
proof (induction vs arbitrary: left s)
  case Nil
  then show ?case by (simp add: queuesFor_def run_simps)
next
  case (Cons v vs)
  define n where "n = (if vs = [] then Amount left else Amount rc * mant (vs_Weight v) div decUnit)"
  have wt: "0 \<le> Amount rc * mant (vs_Weight v)" using assms(2) Cons.prems(1) by simp
  have "DecMulTruncate k (NewDecFromInt k (Amount rc)) (vs_Weight v) = Dec (Amount rc * mant (vs_Weight v))"
    using assms(2) Cons.prems(1) by (simp add: NewDecFromInt_law DecMulTruncate_law ac_simps)
  then have amt: "(if vs = [] then Amount left else DecTruncateInt k
      (DecMulTruncate k (NewDecFromInt k (Amount rc)) (vs_Weight v))) = n"
    using wt by (simp add: n_def DecTruncateInt_law)
  have rest: "vs \<noteq> [] \<Longrightarrow> Amount rc * sum_list (map (\<lambda>v. mant (vs_Weight v)) vs) \<le> (Amount left - n) * decUnit"
    unfolding n_def using Cons.prems(2) by (simp add: enough_left)
  have n0: "0 \<le> n"
  proof (rule vestingAmounts_nonneg [OF assms(2) Cons.prems])
    show "n \<in> set (vestingAmounts (Amount rc) (v # vs) (Amount left))" by (simp add: n_def)
  qed
  have left0: "0 \<le> Amount left - n"
  proof (cases "vs = []")
    case False
    have "0 \<le> Amount rc * sum_list (map (\<lambda>v. mant (vs_Weight v)) vs)"
      using assms(2) Cons.prems(1) by (intro mult_nonneg_nonneg sum_list_nonneg) auto
    then have "0 \<le> (Amount left - n) * decUnit" using rest [OF False] by simp
    then show ?thesis by (simp add: decUnit_sign)
  qed (simp add: n_def)
  have queues: "queuesFor a x (Amount rc) (v # vs) (Amount left)
      = queueFor a x v n # queuesFor a x (Amount rc) vs (Amount left - n)"
    by (cases "vs = []") (simp_all add: queuesFor_def n_def)
  have IH: "vestingLoop k a x rc vs (Coin (Denom left) (Amount left - n)) s' =
      (Ok (), fold SetVestingQueue (queuesFor a x (Amount rc) vs (Amount left - n)) s')" for s'
    using Cons.IH [of "Coin (Denom left) (Amount left - n)" s'] Cons.prems(1) rest
    by (cases "vs = []") (simp_all add: queuesFor_def run_simps)
  show ?case
    unfolding queues using n0 left0 assms(1)
    by (simp add: amt Let_def run_simps NewCoin_law CoinSubAmount_law IH queueFor_def)
qed

text \<open>What the last step of a close does: all the paying coins move, and the auction is vesting or
  finished.\<close>

lemma ApplyVestingSchedules_run:
  fixes s :: "'b state"
  assumes ok: "auctionOK k i a"
  defines "R \<equiv> spendable k (PayingReserveAddress k i) (ba_PayingCoinDenom (base a)) s"
    and "vs \<equiv> ba_VestingSchedules (base a)"
  shows "\<exists>x bk. GetAuctioneer k a = Some x
    \<and> ApplyVestingSchedules k a s = (Ok (),
        if vs = [] then SetAuction (SetStatus AuctionStatusFinished a) (s\<lparr>bank := bk\<rparr>)
        else SetAuction (SetStatus AuctionStatusVesting a)
          (fold SetVestingQueue (queuesFor a (AccAddressString k x) R vs R) (s\<lparr>bank := bk\<rparr>)))
    \<and> moved k (PayingReserveAddress k i) (if vs = [] then x else VestingReserveAddress k i)
        (ba_PayingCoinDenom (base a)) R (bank s) bk"
proof -
  let ?d = "ba_PayingCoinDenom (base a)"
  have d: "ValidateDenom k ?d" using ok by (simp add: auctionOK_def)
  obtain x where x: "GetAuctioneer k a = Some x" by (rule auctioneer_decodes [OF ok])
  have R0: "0 \<le> R" using spendable_nonneg by (simp add: R_def spendable_def)
  have valid: "\<forall>v \<in> set vs. 0 < mant (vs_Weight v)"
      "vs \<noteq> [] \<Longrightarrow> sum_list (map (\<lambda>v. mant (vs_Weight v)) vs) = decUnit"
    using ok by (auto simp: auctionOK_def validSchedules_def vs_def)
  obtain bk where send: "sendCoin k (PayingReserveAddress k i) (if vs = [] then x else VestingReserveAddress k i)
      (Coin ?d R) s = (Ok (), s\<lparr>bank := bk\<rparr>)"
    and mv: "moved k (PayingReserveAddress k i) (if vs = [] then x else VestingReserveAddress k i) ?d R (bank s) bk"
    using drain_run [OF d] unfolding R_def by blast
  have loop: "vestingLoop k a (AccAddressString k x) (Coin ?d R) vs (Coin ?d R) s' =
      (Ok (), fold SetVestingQueue (queuesFor a (AccAddressString k x) R vs R) s')" if "vs \<noteq> []" for s'
    using vestingLoop_run [of a "Coin ?d R" vs "Coin ?d R" "AccAddressString k x" s'] d R0 valid that by simp
  have c: "NewCoin k ?d R = Some (Coin ?d R)" using R0 d by (simp add: NewCoin_law)
  have "ApplyVestingSchedules k a s = (Ok (),
        if vs = [] then SetAuction (SetStatus AuctionStatusFinished a) (s\<lparr>bank := bk\<rparr>)
        else SetAuction (SetStatus AuctionStatusVesting a)
          (fold SetVestingQueue (queuesFor a (AccAddressString k x) R vs R) (s\<lparr>bank := bk\<rparr>)))"
    using send loop
    by (auto simp: ApplyVestingSchedules_def Let_def run_simps reserve_decodes [OF ok] x c vs_def R_def [symmetric])
  with x mv show ?thesis by blast
qed

end

section \<open>The invariant after a close\<close>

lemma fold_SetVestingQueue_fields [simp]:
  "Auctions (fold SetVestingQueue qs s) = Auctions s"
  "AllowedBidders (fold SetVestingQueue qs s) = AllowedBidders s"
  "Bids (fold SetVestingQueue qs s) = Bids s"
  "LastBidIds (fold SetVestingQueue qs s) = LastBidIds s"
  "LastAuctionId (fold SetVestingQueue qs s) = LastAuctionId s"
  "bank (fold SetVestingQueue qs s) = bank s"
  "BlockTime (fold SetVestingQueue qs s) = BlockTime s"
  by (induction qs arbitrary: s) (simp_all add: SetVestingQueue_def)

lemma storeOK_fold_SetVestingQueue: "storeOK S s \<Longrightarrow> storeOK S (fold SetVestingQueue qs s)"
  by (induction qs arbitrary: s) (simp_all add: storeOK_SetVestingQueue)

lemma other_queues:
  "\<forall>q \<in> set qs. vq_AuctionId q \<noteq> j \<Longrightarrow>
    GetVestingQueuesByAuctionId j (fold SetVestingQueue qs s) = GetVestingQueuesByAuctionId j s"
  by (induction qs arbitrary: s) (simp_all add: SetVestingQueue_def GetVestingQueuesByAuctionId_def)

lemma unreleased_SetVestingQueue:
  assumes "storeOK S s" and "vq_AuctionId q = i"
  shows "unreleased (GetVestingQueuesByAuctionId i (SetVestingQueue q s)) =
    unreleased (GetVestingQueuesByAuctionId i s) + unreleased [q]
      - (case oget (VestingQueues s) (i, vq_ReleaseTime q) of None \<Rightarrow> 0 | Some p \<Rightarrow> unreleased [p])"
  using oiter_sum_oset [of "VestingQueues s" "\<lambda>key. fst key = i" "(i, vq_ReleaseTime q)"
      "\<lambda>q. if vq_Released q then 0 else Amount (vq_PayingCoin q)" q] assms
  by (simp add: unreleased_def SetVestingQueue_def GetVestingQueuesByAuctionId_def storeOK_def cong: option.case_cong)

lemma stored_queues_all:
  assumes "storeOK S s" and "vq_AuctionId q = i" and "\<And>p. p \<in> set (GetVestingQueuesByAuctionId i s) \<Longrightarrow> Q p" and "Q q"
    and "p \<in> set (GetVestingQueuesByAuctionId i (SetVestingQueue q s))"
  shows "Q p"
  using omap.iter_all_put [of "VestingQueues s" "\<lambda>key. fst key = i" Q "(i, vq_ReleaseTime q)" q] assms
  by (simp add: SetVestingQueue_def GetVestingQueuesByAuctionId_def storeOK_def)

text \<open>Filling the empty queue list of an auction.\<close>

lemma new_queues:
  fixes s :: "'b state"
  assumes "storeOK S s" and "\<forall>q \<in> set qs. vq_AuctionId q = i" and "distinct (map vq_ReleaseTime qs)"
    and "\<forall>q \<in> set qs. oget (VestingQueues s) (i, vq_ReleaseTime q) = None"
  shows "unreleased (GetVestingQueuesByAuctionId i (fold SetVestingQueue qs s)) =
      unreleased (GetVestingQueuesByAuctionId i s) + unreleased qs"
    and "\<forall>p \<in> set (GetVestingQueuesByAuctionId i s) \<union> set qs. Q p \<Longrightarrow>
      \<forall>p \<in> set (GetVestingQueuesByAuctionId i (fold SetVestingQueue qs s)). Q p"
  using assms
proof (induction qs arbitrary: s)
  case Nil
  {
    case 1
    show ?case by (simp add: unreleased_def)
  next
    case 2
    then show ?case by simp
  }
next
  case (Cons q qs)
  have other: "storeOK S (SetVestingQueue q s)"
      "\<forall>p \<in> set qs. oget (VestingQueues (SetVestingQueue q s)) (i, vq_ReleaseTime p) = None"
    if "storeOK S s" "distinct (map vq_ReleaseTime (q # qs))"
      "\<forall>q \<in> set (q # qs). oget (VestingQueues s) (i, vq_ReleaseTime q) = None" for s :: "'b state"
    using that storeOK_SetVestingQueue [of S s q]
    by (auto simp: SetVestingQueue_def image_iff)
  {
    case 1
    note q = other [OF 1(1,3,4)]
    have "unreleased (GetVestingQueuesByAuctionId i (fold SetVestingQueue qs (SetVestingQueue q s)))
        = unreleased (GetVestingQueuesByAuctionId i (SetVestingQueue q s)) + unreleased qs"
      using 1 by (intro Cons.IH(1) [OF q(1) _ _ q(2)]) simp_all
    moreover have "unreleased (q # qs) = unreleased [q] + unreleased qs" by (simp add: unreleased_def)
    ultimately show ?case using 1 unreleased_SetVestingQueue [of S s q i] by simp
  next
    case 2
    note q = other [OF 2(2,4,5)]
    have "\<forall>p \<in> set (GetVestingQueuesByAuctionId i (SetVestingQueue q s)). Q p"
      using stored_queues_all [of S s q i Q] 2 by auto
    then have "\<forall>p \<in> set (GetVestingQueuesByAuctionId i (SetVestingQueue q s)) \<union> set qs. Q p"
      using 2(1) by auto
    then have "\<forall>p \<in> set (GetVestingQueuesByAuctionId i (fold SetVestingQueue qs (SetVestingQueue q s))). Q p"
      by (rule Cons.IH(2) [OF _ q(1) _ _ q(2)]) (use 2 in simp_all)
    then show ?case by simp
  }
qed

lemma no_queue:
  assumes "storeOK S s" and "GetVestingQueuesByAuctionId i s = []"
  shows "oget (VestingQueues s) (i, t) = None"
proof (rule ccontr)
  assume "oget (VestingQueues s) (i, t) \<noteq> None"
  then obtain q where "oget (VestingQueues s) (i, t) = Some q" by auto
  then have "q \<in> set (GetVestingQueuesByAuctionId i s)"
    using assms(1) by (auto simp: GetVestingQueuesByAuctionId_def storeOK_def set_oiter intro!: exI [of _ "(i, t)"])
  then show False using assms(2) by simp
qed

lemma auctionOK_SetStatus [simp]: "auctionOK S i (SetStatus st a) = auctionOK S i a"
  by (cases a) (simp_all add: auctionOK_def SetStatus_def)

lemma bidOK_SetStatus [simp]: "bidOK (SetStatus st a) b = bidOK a b"
  by (cases a) (simp_all add: bidOK_def SetStatus_def)

context fundraising
begin

lemma closed_Inv:
  assumes inv: "Inv k s" and a: "GetAuction i s = Some a"
    and a': "GetAuction i t = Some (SetStatus st a)" "st = AuctionStatusFinished \<or> st = AuctionStatusVesting"
    and maps: "Bids t = Bids s" "AllowedBidders t = AllowedBidders s" "LastBidIds t = LastBidIds s"
      "LastAuctionId t = LastAuctionId s" "storeOK k t"
    and others: "\<And>j. j \<noteq> i \<Longrightarrow> GetAuction j t = GetAuction j s
      \<and> GetVestingQueuesByAuctionId j t = GetVestingQueuesByAuctionId j s"
    and queues: "\<And>q. q \<in> set (GetVestingQueuesByAuctionId i t) \<Longrightarrow>
      Denom (vq_PayingCoin q) = ba_PayingCoinDenom (base a) \<and> 0 \<le> Amount (vq_PayingCoin q)"
    and funds: "st = AuctionStatusVesting \<Longrightarrow> unreleased (GetVestingQueuesByAuctionId i t)
      \<le> spendable k (VestingReserveAddress k i) (ba_PayingCoinDenom (base a)) t"
    and bal: "\<And>j y d. j \<noteq> i \<Longrightarrow> y \<in> reservesOf k j \<Longrightarrow> spendable k y d s \<le> spendable k y d t"
  shows "Inv k t"
proof -
  have get: "GetBidsByAuctionId j t = GetBidsByAuctionId j s" "GetLastBidId j t = GetLastBidId j s"
      "GetAllowedBidder j y t = GetAllowedBidder j y s" for j y
    by (simp_all add: GetBidsByAuctionId_def GetLastBidId_def GetAllowedBidder_def maps)
  have fu: "fundsOK k t i (SetStatus st a)" using a'(2) funds by (auto simp: fundsOK_def isOpen_def)
  have "auctionInv k t i"
    by (rule auctionInvI [OF a'(1) _ _ _ _ fu])
      (use InvD(2-4) [OF inv a] queues in \<open>auto simp: get maps bidderAllowed_def\<close>)
  moreover have "sameSlice k s t j" if "j \<noteq> i" for j
    using that others bal by (simp add: sameSlice_def get maps)
  ultimately show ?thesis using inv maps(5) by (blast intro: Inv_step)
qed

end

text \<open>The outcome of a step on one auction: the invariant holds and the other auctions are the same.\<close>

definition othersKept :: "('b, 'z) keeper_scheme \<Rightarrow> uint64 \<Rightarrow> 'b state \<Rightarrow> 'b \<Rightarrow> bool" where
  "othersKept k i s b \<longleftrightarrow>
     (\<forall>j y d. j \<noteq> i \<longrightarrow> y \<in> reservesOf k j \<longrightarrow> spendable k y d s \<le> SpendableAmountOf k b y d)"

definition stepped :: "('b, 'z) keeper_scheme \<Rightarrow> uint64 \<Rightarrow> 'b state \<Rightarrow> 'b state \<Rightarrow> bool" where
  "stepped k i s t \<longleftrightarrow>
     Inv k t \<and> (\<forall>j. j \<noteq> i \<longrightarrow> GetAuction j t = GetAuction j s) \<and> BlockTime t = BlockTime s"

context fundraising
begin

text \<open>The queues that a close creates, in a store that has none for the auction.\<close>

lemma created_queues:
  fixes x :: string
  assumes ok: "auctionOK k i a" and store: "storeOK k s" and none: "GetVestingQueuesByAuctionId i s = []"
    and vs: "ba_VestingSchedules (base a) \<noteq> []" and R: "0 \<le> R"
  defines "u \<equiv> fold SetVestingQueue (queuesFor a x R (ba_VestingSchedules (base a)) R) s"
  shows "unreleased (GetVestingQueuesByAuctionId i u) = R"
    and "\<forall>q \<in> set (GetVestingQueuesByAuctionId i u).
      Denom (vq_PayingCoin q) = ba_PayingCoinDenom (base a) \<and> 0 \<le> Amount (vq_PayingCoin q)"
    and "j \<noteq> i \<Longrightarrow> GetVestingQueuesByAuctionId j u = GetVestingQueuesByAuctionId j s"
proof -
  define qs where "qs = queuesFor a x R (ba_VestingSchedules (base a)) R"
  have "\<forall>q \<in> set qs. vq_AuctionId q = GetId a" using queuesFor_mem unfolding qs_def by blast
  then have mine: "\<forall>q \<in> set qs. vq_AuctionId q = i" using ok by (simp add: auctionOK_def)
  have times: "distinct (map vq_ReleaseTime qs)"
    using ok by (simp add: qs_def queuesFor_times auctionOK_def validSchedules_def strict_sorted_iff)
  have fresh: "\<forall>q \<in> set qs. oget (VestingQueues s) (i, vq_ReleaseTime q) = None"
    using no_queue [OF store none] by simp
  have good: "Denom (vq_PayingCoin q) = ba_PayingCoinDenom (base a) \<and> 0 \<le> Amount (vq_PayingCoin q)"
    if "q \<in> set qs" for q
  proof
    show "Denom (vq_PayingCoin q) = ba_PayingCoinDenom (base a)" using that queuesFor_mem unfolding qs_def by blast
    have "Amount (vq_PayingCoin q) \<in> set (vestingAmounts R (ba_VestingSchedules (base a)) R)"
      using that unfolding qs_def by (metis queuesFor_amounts image_eqI list.set_map)
    then show "0 \<le> Amount (vq_PayingCoin q)"
      by (rule vestingAmounts_nonneg [OF R, rotated 2])
        (use ok vs in \<open>auto simp: auctionOK_def validSchedules_def\<close>)
  qed
  note new = new_queues [OF store mine times fresh]
  show "unreleased (GetVestingQueuesByAuctionId i u) = R"
    using new(1) none unreleased_queuesFor [OF vs, of a x R R]
    by (simp add: u_def qs_def) (simp add: unreleased_def)
  show "\<forall>q \<in> set (GetVestingQueuesByAuctionId i u).
      Denom (vq_PayingCoin q) = ba_PayingCoinDenom (base a) \<and> 0 \<le> Amount (vq_PayingCoin q)"
    unfolding u_def qs_def [symmetric] by (rule new(2)) (use good none in auto)
  show "GetVestingQueuesByAuctionId j u = GetVestingQueuesByAuctionId j s" if "j \<noteq> i"
    unfolding u_def qs_def [symmetric] by (rule other_queues) (use mine that in auto)
qed

lemma ApplyVestingSchedules_Inv:
  assumes inv: "Inv k s" and a: "GetAuction i s = Some a" and op: "isOpen a"
    and bal: "othersKept k i s b"
  shows "\<exists>t. ApplyVestingSchedules k a (s\<lparr>bank := b\<rparr>) = (Ok (), t) \<and> stepped k i s t
    \<and> GetAuction i t = Some (SetStatus
        (if ba_VestingSchedules (base a) = [] then AuctionStatusFinished else AuctionStatusVesting) a)"
proof -
  let ?s = "s\<lparr>bank := b\<rparr>" and ?vs = "ba_VestingSchedules (base a)" and ?d = "ba_PayingCoinDenom (base a)"
  let ?P = "PayingReserveAddress k i" and ?V = "VestingReserveAddress k i"
  let ?R = "spendable k ?P ?d ?s"
  have ok: "auctionOK k i a" by (rule InvD(2) [OF inv a])
  then have ida: "ba_Id (base a) = i" by (simp add: auctionOK_def)
  have noq: "GetVestingQueuesByAuctionId i s = []" using InvD(6) [OF inv a] op by (simp add: fundsOK_def)
  obtain x bk where run: "ApplyVestingSchedules k a ?s = (Ok (),
      if ?vs = [] then SetAuction (SetStatus AuctionStatusFinished a) (?s\<lparr>bank := bk\<rparr>)
      else SetAuction (SetStatus AuctionStatusVesting a)
        (fold SetVestingQueue (queuesFor a (AccAddressString k x) ?R ?vs ?R) (?s\<lparr>bank := bk\<rparr>)))"
    and mv: "moved k ?P (if ?vs = [] then x else ?V) ?d ?R b bk"
    using ApplyVestingSchedules_run [OF ok, of ?s] by auto
  define u where "u = (if ?vs = [] then s\<lparr>bank := bk\<rparr>
    else fold SetVestingQueue (queuesFor a (AccAddressString k x) ?R ?vs ?R) (s\<lparr>bank := bk\<rparr>))"
  define st where "st = (if ?vs = [] then AuctionStatusFinished else AuctionStatusVesting)"
  define t where "t = SetAuction (SetStatus st a) u"
  have run': "ApplyVestingSchedules k a ?s = (Ok (), t)" using run by (simp add: t_def u_def st_def)
  have R0: "0 \<le> ?R" using spendable_nonneg by (simp add: spendable_def)
  have store: "storeOK k (s\<lparr>bank := bk\<rparr>)"
    using InvD(1) [OF inv] by (rule storeOK_cong [THEN iffD2, rotated -1]) simp_all
  have none: "GetVestingQueuesByAuctionId j (s\<lparr>bank := bk\<rparr>) = GetVestingQueuesByAuctionId j s" for j
    by (simp add: GetVestingQueuesByAuctionId_def)
  note created = created_queues [where x = "AccAddressString k x", OF ok store noq [folded none] _ R0]
  have u: "Auctions u = Auctions s" "bank u = bk" "storeOK k u"
    using store by (simp_all add: u_def storeOK_fold_SetVestingQueue)
  have qt: "GetVestingQueuesByAuctionId j t = GetVestingQueuesByAuctionId j u" for j
    by (simp add: t_def SetAuction_def GetVestingQueuesByAuctionId_def)
  have get: "GetAuction j t = (if j = i then Some (SetStatus st a) else GetAuction j s)" for j
    by (simp add: t_def SetAuction_def GetAuction_def ida u)
  have bankt: "bank t = bk" by (simp add: t_def u SetAuction_def)
  have "Inv k t"
  proof (rule closed_Inv [OF inv a])
    show "GetAuction i t = Some (SetStatus st a)" by (simp add: get)
    show "st = AuctionStatusFinished \<or> st = AuctionStatusVesting" by (simp add: st_def)
    show "storeOK k t" unfolding t_def by (rule storeOK_SetAuction [OF u(3)])
    show "GetAuction j t = GetAuction j s \<and> GetVestingQueuesByAuctionId j t = GetVestingQueuesByAuctionId j s"
      if "j \<noteq> i" for j
      using that created(3) by (simp add: get qt) (simp add: u_def none)
    show "Denom (vq_PayingCoin q) = ?d \<and> 0 \<le> Amount (vq_PayingCoin q)"
      if "q \<in> set (GetVestingQueuesByAuctionId i t)" for q
      using that created(2) noq by (auto simp: qt u_def none split: if_splits)
    show "unreleased (GetVestingQueuesByAuctionId i t) \<le> spendable k ?V ?d t" if "st = AuctionStatusVesting"
      using that created(1) mv spendable_nonneg [of b ?V ?d]
      by (auto simp: st_def qt bankt moved_def spendable_def reserve_simps u_def split: if_splits)
    show "spendable k y d s \<le> spendable k y d t" if "j \<noteq> i" "y \<in> reservesOf k j" for j y d
    proof -
      have "y \<noteq> ?P" using that by (auto simp: reservesOf_def reserve_simps)
      then have "SpendableAmountOf k b y d \<le> spendable k y d t"
        using mv R0 by (auto simp: moved_def spendable_def bankt)
      moreover have "spendable k y d s \<le> SpendableAmountOf k b y d"
        using bal that by (simp add: othersKept_def)
      ultimately show ?thesis by simp
    qed
  qed (simp_all add: t_def u_def SetAuction_def)
  moreover have "BlockTime t = BlockTime s" by (simp add: t_def u_def SetAuction_def)
  ultimately show ?thesis using run' get unfolding stepped_def st_def by auto
qed

end

section \<open>Closing a fixed price auction\<close>

lemma fixed_fold:
  "mi_AllocationMap (fold (\<lambda>b mInfo.
         let bidAmt = g b
         in mInfo\<lparr> mi_AllocationMap := addTo (bid_Bidder b) bidAmt (mi_AllocationMap mInfo),
                   mi_TotalMatchedAmount := mi_TotalMatchedAmount mInfo + bidAmt,
                   mi_MatchedLen := mi_MatchedLen mInfo + 1 \<rparr>) bids mi)
    = fold (\<lambda>b. addTo (bid_Bidder b) (g b)) bids (mi_AllocationMap mi)"
  by (induction bids arbitrary: mi) (simp_all add: Let_def)

lemma fixed_allocation:
  "mi_AllocationMap (CalculateFixedPriceAllocation S a s)
    = fold (\<lambda>b. addTo (bid_Bidder b) (ConvertToSellingAmount S b (ba_PayingCoinDenom (base a))))
        (GetBidsByAuctionId (GetId a) s) []"
  unfolding CalculateFixedPriceAllocation_def by (simp add: fixed_fold)

context fundraising
begin

text \<open>Payments to the bidders of an auction can be made.\<close>

lemma bidders_payable:
  assumes "Inv k s" and "GetAuction i s = Some a"
    and "\<And>b. b \<in> set (GetBidsByAuctionId i s) \<Longrightarrow> 0 \<le> g b"
  shows "payable k (fold (\<lambda>b. addTo (bid_Bidder b) (g b)) (GetBidsByAuctionId i s) [])"
proof -
  let ?m = "fold (\<lambda>b. addTo (bid_Bidder b) (g b)) (GetBidsByAuctionId i s) []"
  have "AccAddressFromBech32 k x \<noteq> None \<and> 0 \<le> n" if mem: "(x, n) \<in> set ?m" for x n
  proof
    show "0 \<le> n" by (rule nonneg_fold_addTo [OF _ mem]) (rule assms(3))
    have "x \<in> fst ` set ?m" using mem by (metis fst_conv image_eqI)
    then obtain b where "b \<in> set (GetBidsByAuctionId i s)" and "x = bid_Bidder b"
      by (auto simp: keys_fold_addTo)
    then show "AccAddressFromBech32 k x \<noteq> None"
      using InvD(4) [OF assms(1,2)] by (auto simp: bidderAllowed_def)
  qed
  then show ?thesis by (auto simp: payable_def)
qed

lemma bid_amounts:
  assumes "bidOK a b"
  shows "0 \<le> ConvertToSellingAmount k b d" and "0 \<le> ConvertToPayingAmount k b d"
  using assms by (auto simp: bidOK_def intro!: ConvertToSellingAmount_nonneg ConvertToPayingAmount_nonneg)

text \<open>The first two steps of every close.\<close>

lemma allocate_refund_run:
  assumes ok: "auctionOK k i a" and pay: "payable k (mi_AllocationMap mi)"
    and covered: "sum_list (map snd (mi_AllocationMap mi))
      \<le> spendable k (SellingReserveAddress k i) (Denom (ba_SellingCoin (base a))) s"
  shows "\<exists>b1 b2. AllocateSellingCoin k a mi s = (Ok (), s\<lparr>bank := b1\<rparr>)
    \<and> RefundRemainingSellingCoin k a (s\<lparr>bank := b1\<rparr>) = (Ok (), s\<lparr>bank := b2\<rparr>)
    \<and> (\<forall>y e. y \<noteq> SellingReserveAddress k i \<longrightarrow> spendable k y e s \<le> SpendableAmountOf k b2 y e)"
proof -
  let ?r = "SellingReserveAddress k i" and ?d = "Denom (ba_SellingCoin (base a))"
  obtain b1 where one: "AllocateSellingCoin k a mi s = (Ok (), s\<lparr>bank := b1\<rparr>)"
    and bal: "\<forall>y e. SpendableAmountOf k b1 y e = spendable k y e s
         - (if y = ?r \<and> e = ?d then sum_list (map snd (mi_AllocationMap mi)) else 0)
         + (if e = ?d then received k (mi_AllocationMap mi) y else 0)"
    using AllocateSellingCoin_run [OF assms] by blast
  obtain x b2 where two: "RefundRemainingSellingCoin k a (s\<lparr>bank := b1\<rparr>) = (Ok (), s\<lparr>bank := b2\<rparr>)"
    and mv: "moved k ?r x ?d (spendable k ?r ?d (s\<lparr>bank := b1\<rparr>)) b1 b2"
    using RefundRemainingSellingCoin_run [OF ok, of "s\<lparr>bank := b1\<rparr>"] by auto
  have "spendable k y e s \<le> SpendableAmountOf k b2 y e" if "y \<noteq> ?r" for y e
  proof -
    have "spendable k y e s \<le> SpendableAmountOf k b1 y e"
      using bal that received_nonneg [OF pay, of y] by simp
    also have "\<dots> \<le> SpendableAmountOf k b2 y e"
      using mv that spendable_nonneg [of b1 ?r ?d] by (simp add: moved_def spendable_def)
    finally show ?thesis .
  qed
  with one two show ?thesis by blast
qed

lemma CloseFixedPriceAuction_Inv:
  assumes inv: "Inv k s" and a: "GetAuction i s = Some a" and op: "isOpen a"
    and fx: "a = FixedPriceAuction ba r"
  shows "\<exists>t. CloseFixedPriceAuction k a s = (Ok (), t) \<and> stepped k i s t
    \<and> GetAuction i t = Some (SetStatus
        (if ba_VestingSchedules (base a) = [] then AuctionStatusFinished else AuctionStatusVesting) a)"
proof -
  let ?mi = "CalculateFixedPriceAllocation k a s" and ?d = "Denom (ba_SellingCoin (base a))"
  have ok: "auctionOK k i a" by (rule InvD(2) [OF inv a])
  then have ida: "GetId a = i" by (simp add: auctionOK_def)
  have fu: "fundsOK k s i a" by (rule InvD(6) [OF inv a])
  have bids: "\<And>b d. b \<in> set (GetBidsByAuctionId i s) \<Longrightarrow> 0 \<le> ConvertToSellingAmount k b d"
    using InvD(4) [OF inv a] bid_amounts(1) by blast
  have pay: "payable k (mi_AllocationMap ?mi)"
    unfolding fixed_allocation ida by (rule bidders_payable [OF inv a bids])
  have "sum_list (map snd (mi_AllocationMap ?mi)) = soldOut k (ba_PayingCoinDenom ba) (GetBidsByAuctionId i s)"
    unfolding fixed_allocation ida by (simp add: sum_fold_addTo soldOut_def fx)
  also have "\<dots> \<le> Amount (ba_SellingCoin ba)"
    using fu op ok by (simp add: fundsOK_def auctionOK_def fx)
  also have "\<dots> \<le> spendable k (SellingReserveAddress k i) ?d s"
    using fu op by (simp add: fundsOK_def fx)
  finally have covered: "sum_list (map snd (mi_AllocationMap ?mi))
      \<le> spendable k (SellingReserveAddress k i) ?d s" .
  obtain b1 b2 where one: "AllocateSellingCoin k a ?mi s = (Ok (), s\<lparr>bank := b1\<rparr>)"
    and two: "RefundRemainingSellingCoin k a (s\<lparr>bank := b1\<rparr>) = (Ok (), s\<lparr>bank := b2\<rparr>)"
    and bal: "\<forall>y e. y \<noteq> SellingReserveAddress k i \<longrightarrow> spendable k y e s \<le> SpendableAmountOf k b2 y e"
    using allocate_refund_run [OF ok pay covered] by blast
  have "othersKept k i s b2"
    using bal by (auto simp: othersKept_def reservesOf_def reserve_simps)
  from ApplyVestingSchedules_Inv [OF inv a op this] obtain t where
    "ApplyVestingSchedules k a (s\<lparr>bank := b2\<rparr>) = (Ok (), t)" and post: "stepped k i s t"
      "GetAuction i t = Some (SetStatus
        (if ba_VestingSchedules (base a) = [] then AuctionStatusFinished else AuctionStatusVesting) a)"
    by blast
  then have "CloseFixedPriceAuction k a s = (Ok (), t)"
    using one two by (simp add: CloseFixedPriceAuction_def run_simps)
  with post show ?thesis by blast
qed

text \<open>The four steps that end a batch auction.\<close>

lemma finishBatch_Inv:
  assumes inv: "Inv k s" and a: "GetAuction i s = Some a" and op: "isOpen a"
    and pay: "payable k (mi_AllocationMap mi)" "payable k (mi_RefundMap mi)"
    and sold: "sum_list (map snd (mi_AllocationMap mi)) \<le> Amount (ba_SellingCoin (base a))"
    and repaid: "sum_list (map snd (mi_RefundMap mi)) \<le> paidIn k (ba_PayingCoinDenom (base a)) (GetBidsByAuctionId i s)"
  shows "\<exists>t. finishBatch k a mi s = (Ok (), t) \<and> stepped k i s t
    \<and> GetAuction i t = Some (SetStatus
        (if ba_VestingSchedules (base a) = [] then AuctionStatusFinished else AuctionStatusVesting) a)"
proof -
  let ?S = "SellingReserveAddress k i" and ?P = "PayingReserveAddress k i"
  let ?pd = "ba_PayingCoinDenom (base a)"
  have ok: "auctionOK k i a" by (rule InvD(2) [OF inv a])
  have fu: "fundsOK k s i a" by (rule InvD(6) [OF inv a])
  have "Amount (ba_SellingCoin (base a)) \<le> spendable k ?S (Denom (ba_SellingCoin (base a))) s"
    using fu op by (simp add: fundsOK_def)
  with sold have "sum_list (map snd (mi_AllocationMap mi)) \<le> spendable k ?S (Denom (ba_SellingCoin (base a))) s"
    by simp
  from allocate_refund_run [OF ok pay(1) this] obtain b1 b2
    where one: "AllocateSellingCoin k a mi s = (Ok (), s\<lparr>bank := b1\<rparr>)"
    and two: "RefundRemainingSellingCoin k a (s\<lparr>bank := b1\<rparr>) = (Ok (), s\<lparr>bank := b2\<rparr>)"
    and bal: "\<forall>y e. y \<noteq> ?S \<longrightarrow> spendable k y e s \<le> SpendableAmountOf k b2 y e"
    by blast
  have "paidIn k ?pd (GetBidsByAuctionId i s) \<le> spendable k ?P ?pd s" using fu op by (simp add: fundsOK_def)
  also have "\<dots> \<le> SpendableAmountOf k b2 ?P ?pd" using bal by (simp add: reserve_simps)
  finally have covered: "sum_list (map snd (mi_RefundMap mi)) \<le> spendable k ?P ?pd (s\<lparr>bank := b2\<rparr>)"
    using repaid by (simp add: spendable_def)
  obtain b3 where three: "RefundPayingCoin k a mi (s\<lparr>bank := b2\<rparr>) = (Ok (), s\<lparr>bank := b3\<rparr>)"
    and bal3: "\<forall>y e. SpendableAmountOf k b3 y e = SpendableAmountOf k b2 y e
         - (if y = ?P \<and> e = ?pd then sum_list (map snd (mi_RefundMap mi)) else 0)
         + (if e = ?pd then received k (mi_RefundMap mi) y else 0)"
    using RefundPayingCoin_run [OF ok pay(2) covered] by (auto simp: spendable_def)
  have "spendable k y d s \<le> SpendableAmountOf k b3 y d" if "j \<noteq> i" "y \<in> reservesOf k j" for j y d
  proof -
    have y: "y \<noteq> ?S" "y \<noteq> ?P" using that by (auto simp: reservesOf_def reserve_simps)
    then have "SpendableAmountOf k b2 y d \<le> SpendableAmountOf k b3 y d"
      using bal3 received_nonneg [OF pay(2), of y] by simp
    then show ?thesis using bal [rule_format, OF y(1), of d] by simp
  qed
  then have "othersKept k i s b3" by (simp add: othersKept_def)
  from ApplyVestingSchedules_Inv [OF inv a op this] obtain t where
    "ApplyVestingSchedules k a (s\<lparr>bank := b3\<rparr>) = (Ok (), t)" and post: "stepped k i s t"
      "GetAuction i t = Some (SetStatus
        (if ba_VestingSchedules (base a) = [] then AuctionStatusFinished else AuctionStatusVesting) a)"
    by blast
  then have "finishBatch k a mi s = (Ok (), t)"
    using one two three by (simp add: finishBatch_def run_simps)
  with post show ?thesis by blast
qed

end

end
