(* ===== verification/Closing.thy ===== *)
theory Closing
  imports Payouts
begin

text \<open>
  The close of a batch auction and the begin blocker.

  The first part turns the result of the matching into the three maps of \<open>MatchingInfo\<close> and shows
  that what they pay out is covered: no more is sold than is for sale and no more is refunded than
  the bids reserved. The second part shows for every status of an auction that its step succeeds and
  keeps the invariant, and concludes the same for the loop of the begin blocker.
\<close>

section \<open>Loops that always succeed\<close>

lemma foreachM_total:
  assumes "P s" and "\<And>x s. x \<in> set xs \<Longrightarrow> P s \<Longrightarrow> \<exists>t. f x s = (Ok (), t) \<and> P t"
  shows "\<exists>t. foreachM f xs s = (Ok (), t) \<and> P t"
  using assms
proof (induction xs arbitrary: s)
  case Nil
  then show ?case by (simp add: returnM_def)
next
  case (Cons x xs)
  then obtain u where u: "f x s = (Ok (), u)" "P u" by (meson list.set_intros(1))
  have "\<exists>t. foreachM f xs u = (Ok (), t) \<and> P t"
    by (rule Cons.IH [OF u(2)]) (use Cons.prems(2) in auto)
  then show ?case using u(1) by (simp add: bindM_def)
qed

section \<open>The limits of the bidders\<close>

lemma biddable_values:
  assumes "\<forall>ab \<in> set bidders. \<exists>n. ab_MaxBidAmount ab = Some n \<and> 0 < n"
    and "\<forall>x v. oget m x = Some v \<longrightarrow> (\<exists>n. v = Some n \<and> 0 < n)"
  shows "oget (fold (\<lambda>ab m. oset (ab_Bidder ab) (ab_MaxBidAmount ab) m) bidders m) x = Some v \<Longrightarrow>
    \<exists>n. v = Some n \<and> 0 < n"
  using assms
proof (induction bidders arbitrary: m)
  case (Cons ab bidders)
  have "\<forall>x v. oget (oset (ab_Bidder ab) (ab_MaxBidAmount ab) m) x = Some v \<longrightarrow> (\<exists>n. v = Some n \<and> 0 < n)"
    using Cons.prems(2,3) by auto
  from Cons.IH [OF _ _ this] show ?case using Cons.prems(1,2) by simp
qed simp

lemma biddable_keys:
  "fst ` set (fold (\<lambda>ab m. oset (ab_Bidder ab) (ab_MaxBidAmount ab) m) bidders m)
    = fst ` set m \<union> ab_Bidder ` set bidders"
  by (induction bidders arbitrary: m) auto

lemma biddableMap_limits:
  assumes "\<forall>ab \<in> set bidders. \<exists>n. ab_MaxBidAmount ab = Some n \<and> 0 < n"
  shows "x \<in> ab_Bidder ` set bidders \<Longrightarrow> hasLimit (biddableMap bidders) x" and "0 \<le> limitOf (biddableMap bidders) x"
proof -
  have m: "oget (biddableMap bidders) x = Some v \<Longrightarrow> \<exists>n. v = Some n \<and> 0 < n" for v
    unfolding biddableMap_def by (rule biddable_values [OF assms]) simp_all
  show "hasLimit (biddableMap bidders) x" if "x \<in> ab_Bidder ` set bidders"
  proof -
    have "oget (biddableMap bidders) x \<noteq> None" using that
      by (simp add: oget_None_keys biddableMap_def biddable_keys)
    then show ?thesis using m by (auto simp: hasLimit_def)
  qed
  show "0 \<le> limitOf (biddableMap bidders) x"
    using m by (fastforce simp: limitOf_def split: option.splits)
qed

context fundraising
begin

text \<open>The bids of a stored batch auction can be matched.\<close>

lemma stored_limits:
  assumes "storeOK k s"
  shows "\<forall>ab \<in> set (GetAllowedBiddersByAuction i s). \<exists>n. ab_MaxBidAmount ab = Some n \<and> 0 < n"
proof
  fix ab
  assume "ab \<in> set (GetAllowedBiddersByAuction i s)"
  then obtain key where "(key, ab) \<in> set (AllowedBidders s)"
    by (auto simp: GetAllowedBiddersByAuction_def oiter_def)
  then have "allowedOK k key ab" using assms by (auto simp: storeOK_def)
  then show "\<exists>n. ab_MaxBidAmount ab = Some n \<and> 0 < n" by (auto simp: allowedOK_def)
qed

lemma stored_bids_matchable:
  assumes inv: "Inv k s" and a: "GetAuction i s = Some (BatchAuction ba mn mp mx er)"
  shows "matchable (biddableMap (GetAllowedBiddersByAuction i s)) (GetBidsByAuctionId i s)"
    and "\<forall>b \<in> set (GetBidsByAuctionId i s). 0 < mant (bid_Price b)"
    and "\<forall>b \<in> set (GetBidsByAuctionId i s). wellDenominated (ba_PayingCoinDenom ba) b"
proof -
  have store: "storeOK k s" by (rule InvD(1) [OF inv])
  have ok: "auctionOK k i (BatchAuction ba mn mp mx er)" by (rule InvD(2) [OF inv a])
  have bids: "bidOK (BatchAuction ba mn mp mx er) b \<and> bidderAllowed k s i b"
    if "b \<in> set (GetBidsByAuctionId i s)" for b
    using InvD(4) [OF inv a that] by simp
  show "\<forall>b \<in> set (GetBidsByAuctionId i s). 0 < mant (bid_Price b)"
    using bids by (auto simp: bidOK_def)
  show "\<forall>b \<in> set (GetBidsByAuctionId i s). wellDenominated (ba_PayingCoinDenom ba) b"
    using bids ok by (fastforce simp: bidOK_def wellDenominated_def auctionOK_def)
  have "bid_Bidder b \<in> ab_Bidder ` set (GetAllowedBiddersByAuction i s)"
    if b: "b \<in> set (GetBidsByAuctionId i s)" for b
  proof -
    obtain x ab where x: "bid_Bidder b = AccAddressString k x" and ab: "GetAllowedBidder i x s = Some ab"
      using bids [OF b] by (auto simp: bidderAllowed_def)
    have "ab_Bidder ab = AccAddressString k x" by (rule storeOK_allowed [OF store ab])
    moreover have "ab \<in> set (GetAllowedBiddersByAuction i s)"
      using ab store by (auto simp: GetAllowedBiddersByAuction_def GetAllowedBidder_def storeOK_def set_oiter addrKey_def)
    ultimately show ?thesis using x by force
  qed
  then show "matchable (biddableMap (GetAllowedBiddersByAuction i s)) (GetBidsByAuctionId i s)"
    using bids biddableMap_limits [OF stored_limits [OF store, of i]]
    by (fastforce simp: matchable_def bidOK_def isBatchBid_def)
qed

end

section \<open>The result of the matching\<close>

lemma owf_fold_accum:
  "owf (mr_MatchResultByBidder res) \<Longrightarrow> owf (mr_MatchResultByBidder (fold (accum mp) zs res))"
  by (induction zs arbitrary: res) (auto simp: accum_def Let_def split: prod.splits)

lemma oiter_True: "oiter (\<lambda>_. True) m = map snd m"
  by (simp add: oiter_def)

lemma fold_accum_total:
  assumes "owf (mr_MatchResultByBidder res)"
  shows "sum_list (map (\<lambda>e. bmr_MatchedAmount (snd e)) (mr_MatchResultByBidder (fold (accum mp) zs res)))
    = sum_list (map (\<lambda>e. bmr_MatchedAmount (snd e)) (mr_MatchResultByBidder res)) + sum_list (map snd zs)"
  using assms
proof (induction zs arbitrary: res)
  case (Cons z zs)
  obtain b n where z: "z = (b, n)" by (cases z)
  have "owf (mr_MatchResultByBidder (accum mp z res))"
    using Cons.prems by (simp add: accum_def Let_def z)
  moreover have "sum_list (map (\<lambda>e. bmr_MatchedAmount (snd e)) (mr_MatchResultByBidder (accum mp z res)))
      = sum_list (map (\<lambda>e. bmr_MatchedAmount (snd e)) (mr_MatchResultByBidder res)) + n"
    using oiter_sum_oset [OF Cons.prems, of "\<lambda>_. True" "bid_Bidder b" bmr_MatchedAmount]
    by (simp add: accum_def Let_def z oiter_True comp_def split: option.splits)
  ultimately show ?case using Cons.IH by (simp add: z)
qed simp

text \<open>What the settlement relies on from a match.\<close>

definition goodMatch :: "'a sdk_math_scheme \<Rightarrow> denom \<Rightarrow> Bid list \<Rightarrow> int \<Rightarrow> MatchResult \<Rightarrow> bool" where
  "goodMatch S pd bids sell res \<longleftrightarrow>
     owf (mr_MatchResultByBidder res)
   \<and> (\<forall>(x, br) \<in> set (mr_MatchResultByBidder res). x \<in> bid_Bidder ` set bids
        \<and> 0 \<le> bmr_MatchedAmount br \<and> 0 \<le> bmr_PayingAmount br \<and> bmr_PayingAmount br \<le> reservedBy S pd bids x)
   \<and> sum_list (map (\<lambda>e. bmr_MatchedAmount (snd e)) (mr_MatchResultByBidder res)) \<le> sell
   \<and> set (mr_MatchedBids res) \<subseteq> set bids"

context bid_laws
begin

lemma findMatch_good:
  assumes grp: "BidsByPrice S bids = Ok (prices, groups)" and m: "matchable (biddableMap allowed) bids"
    and pos: "\<forall>b \<in> set bids. 0 < mant (bid_Price b)" and sell: "0 \<le> sell"
    and den: "\<forall>b \<in> set bids. wellDenominated pd b"
  shows "\<exists>res. findMatch S prices groups sell allowed = Ok res \<and> goodMatch S pd bids sell res"
proof -
  let ?m = "biddableMap allowed"
  obtain res where run: "findMatch S prices groups sell allowed = Ok res"
    and res: "res = initMatchResult None
      \<or> (\<exists>p \<in> bid_Price ` set bids. priceFits ?m bids sell p \<and> res = matchResultOf ?m p (eligible S groups prices p))"
    using findMatch_sound [OF grp m pos sell] by blast
  have "goodMatch S pd bids sell res"
  proof (cases "res = initMatchResult None")
    case True
    then show ?thesis using sell by (simp add: goodMatch_def initMatchResult_def)
  next
    case False
    then obtain p where p: "p \<in> bid_Price ` set bids" and fits: "priceFits ?m bids sell p"
      and res: "res = matchResultOf ?m p (eligible S groups prices p)" using res by blast
    let ?el = "eligible S groups prices p"
    have p0: "0 < mant p" using p pos by auto
    have el: "mset ?el = mset (filter (\<lambda>b. p \<le> bid_Price b) bids)" by (rule eligible_mset [OF grp])
    then have sub: "set ?el \<subseteq> set bids" using mset_eq_setD [OF el] by auto
    have wf: "owf (mr_MatchResultByBidder res)"
      unfolding res matchResultOf_def by (rule owf_fold_accum) (simp add: initMatchResult_def)
    have bidder: "x \<in> bid_Bidder ` set bids \<and> 0 \<le> bmr_MatchedAmount br \<and> 0 \<le> bmr_PayingAmount br
        \<and> bmr_PayingAmount br \<le> reservedBy S pd bids x"
      if "(x, br) \<in> set (mr_MatchResultByBidder res)" for x br
    proof -
      have get: "oget (mr_MatchResultByBidder (matchResultOf ?m p ?el)) x = Some br"
        using that wf by (simp add: oget_mem res)
      note mb = matched_bidder [OF grp m p0 den get]
      have "0 \<le> demand (askAt p) (filter (\<lambda>b. p \<le> bid_Price b) bids) x"
        by (rule demand_nonneg) (use m p0 in \<open>auto simp: matchable_def askAt_nonneg\<close>)
      then have "0 \<le> bmr_MatchedAmount br" using mb(2) m by (simp add: matchable_def)
      then show ?thesis using mb by blast
    qed
    have "sum_list (map (\<lambda>e. bmr_MatchedAmount (snd e)) (mr_MatchResultByBidder res)) = mr_MatchedAmount res"
      unfolding res matchResultOf_def by (subst fold_accum_total) (simp_all add: initMatchResult_def fold_accum_amount)
    also have "\<dots> = soldAt ?m bids p" unfolding res by (rule matchResult_of_bids(2) [OF grp m p0])
    finally have total: "sum_list (map (\<lambda>e. bmr_MatchedAmount (snd e)) (mr_MatchResultByBidder res)) \<le> sell"
      using fits by (simp add: priceFits_def)
    have "set (mr_MatchedBids res) \<subseteq> set ?el"
      unfolding res matchResultOf_def by (auto simp: fold_accum_bids initMatchResult_def dest: set_zip_leftD)
    then show ?thesis using wf bidder total sub unfolding goodMatch_def by blast
  qed
  with run show ?thesis by blast
qed

end

section \<open>The maps of the settlement\<close>

text \<open>The second loop overwrites the entries of the matched bidders.\<close>

definition overwritten ::
    "(string, int) omap \<Rightarrow> (string, BidderMatchResult) omap \<Rightarrow> MatchingInfo \<Rightarrow> MatchingInfo \<Rightarrow> bool" where
  "overwritten reserved es mi mi' \<longleftrightarrow>
     owf (mi_AllocationMap mi') \<and> owf (mi_RefundMap mi') \<and> mi_MatchedLen mi' = mi_MatchedLen mi
   \<and> (\<forall>x. oget (mi_AllocationMap mi') x = (case oget es x of
          None \<Rightarrow> oget (mi_AllocationMap mi) x | Some br \<Rightarrow> Some (bmr_MatchedAmount br)))
   \<and> (\<forall>x. oget (mi_RefundMap mi') x = (case oget es x of
          None \<Rightarrow> oget (mi_RefundMap mi) x
        | Some br \<Rightarrow> map_option (\<lambda>n. n - bmr_PayingAmount br) (oget reserved x)))
   \<and> (\<forall>x. oget (mi_ReservedMatchedMap mi') x = (case oget es x of
          None \<Rightarrow> oget (mi_ReservedMatchedMap mi) x | Some br \<Rightarrow> Some (bmr_PayingAmount br)))"

lemma setMatched_fold:
  assumes "\<forall>x \<in> fst ` set es. \<exists>n. oget reserved x = Some n" and "owf es"
    and "owf (mi_AllocationMap mi)" and "owf (mi_RefundMap mi)"
  shows "\<exists>mi'. foldR (setMatchedBidder reserved) es mi = Ok mi' \<and> overwritten reserved es mi mi'"
  using assms
proof (induction es arbitrary: mi)
  case Nil
  then show ?case by (simp add: overwritten_def)
next
  case (Cons e es)
  obtain y br where e: "e = (y, br)" by (cases e)
  from Cons.prems(1) obtain n where n: "oget reserved y = Some n" by (auto simp: e)
  have fresh: "oget es y = None" using Cons.prems(2) by (auto simp: owf_Cons e oget_None_keys)
  define mi1 where "mi1 = mi\<lparr> mi_AllocationMap := oset y (bmr_MatchedAmount br) (mi_AllocationMap mi),
       mi_ReservedMatchedMap := oset y (bmr_PayingAmount br) (mi_ReservedMatchedMap mi),
       mi_RefundMap := oset y (n - bmr_PayingAmount br) (mi_RefundMap mi) \<rparr>"
  have step: "setMatchedBidder reserved e mi = Ok mi1" by (simp add: setMatchedBidder_def e n mi1_def)
  have wf: "owf (mi_AllocationMap mi1)" "owf (mi_RefundMap mi1)" using Cons.prems(3,4) by (simp_all add: mi1_def)
  have es: "\<forall>x \<in> fst ` set es. \<exists>n. oget reserved x = Some n" "owf es"
    using Cons.prems(1,2) by (simp_all add: owf_Cons)
  from Cons.IH [OF es wf] obtain mi' where run: "foldR (setMatchedBidder reserved) es mi1 = Ok mi'"
    and ov: "overwritten reserved es mi1 mi'" by blast
  have "overwritten reserved (e # es) mi mi'"
    unfolding overwritten_def
  proof (intro conjI allI)
    show "oget (mi_AllocationMap mi') x = (case oget (e # es) x of
        None \<Rightarrow> oget (mi_AllocationMap mi) x | Some br \<Rightarrow> Some (bmr_MatchedAmount br))" for x
      using ov fresh by (cases "x = y"; cases "oget es x") (simp_all add: overwritten_def e mi1_def)
    show "oget (mi_RefundMap mi') x = (case oget (e # es) x of None \<Rightarrow> oget (mi_RefundMap mi) x
        | Some br \<Rightarrow> map_option (\<lambda>n. n - bmr_PayingAmount br) (oget reserved x))" for x
      using ov fresh n by (cases "x = y"; cases "oget es x") (simp_all add: overwritten_def e mi1_def)
    show "oget (mi_ReservedMatchedMap mi') x = (case oget (e # es) x of
        None \<Rightarrow> oget (mi_ReservedMatchedMap mi) x | Some br \<Rightarrow> Some (bmr_PayingAmount br))" for x
      using ov fresh by (cases "x = y"; cases "oget es x") (simp_all add: overwritten_def e mi1_def)
  qed (use ov in \<open>simp_all add: overwritten_def mi1_def\<close>)
  then show ?case using run by (simp add: step)
qed

text \<open>Payments from the two maps are payable and covered.\<close>

lemma oget_zeros: "oget (map (\<lambda>e. (fst e, 0)) m) x = map_option (\<lambda>_. 0) (oget m x)"
  by (induction m) auto

lemma owf_zeros: "owf (map (\<lambda>e. (fst e, 0)) m) = owf m"
  by (simp add: owf_def comp_def)

lemma reserved_get:
  "oget (reservedAmtByBidder S pd bids) x =
    (if x \<in> bid_Bidder ` set bids then Some (reservedBy S pd bids x) else None)"
  by (simp add: reservedAmtByBidder_def oget_fold_addTo reservedBy_def)

lemma reserved_keys: "fst ` set (reservedAmtByBidder S pd bids) = bid_Bidder ` set bids"
  by (simp add: reservedAmtByBidder_def keys_fold_addTo)

lemma owf_reserved: "owf (reservedAmtByBidder S pd bids)"
  by (simp add: reservedAmtByBidder_def owf_fold_addTo)

lemma sum_reservedBy:
  "(\<Sum>x \<in> bid_Bidder ` set bids. reservedBy S pd bids x) = paidIn S pd bids"
  unfolding reservedBy_def paidIn_def by (rule sum_list_by_key) auto

definition goodInfo :: "'a sdk_scheme \<Rightarrow> denom \<Rightarrow> Bid list \<Rightarrow> int \<Rightarrow> MatchingInfo \<Rightarrow> bool" where
  "goodInfo S pd bids sell mi \<longleftrightarrow>
     payable S (mi_AllocationMap mi) \<and> payable S (mi_RefundMap mi)
   \<and> sum_list (map snd (mi_AllocationMap mi)) \<le> sell
   \<and> sum_list (map snd (mi_RefundMap mi)) \<le> paidIn S pd bids"

text \<open>What a match gives a bidder and what it charges him.\<close>

definition matchedFor :: "MatchResult \<Rightarrow> string \<Rightarrow> int" where
  "matchedFor res x = (case oget (mr_MatchResultByBidder res) x of None \<Rightarrow> 0 | Some br \<Rightarrow> bmr_MatchedAmount br)"

definition chargedFor :: "MatchResult \<Rightarrow> string \<Rightarrow> int" where
  "chargedFor res x = (case oget (mr_MatchResultByBidder res) x of None \<Rightarrow> 0 | Some br \<Rightarrow> bmr_PayingAmount br)"

text \<open>Every bidder is given what he is matched with, and gets back what his bids reserved less what
  he is charged.\<close>

definition settles :: "'a sdk_math_scheme \<Rightarrow> denom \<Rightarrow> Bid list \<Rightarrow> MatchResult \<Rightarrow> MatchingInfo \<Rightarrow> bool" where
  "settles S pd bids res mi \<longleftrightarrow>
     owf (mi_AllocationMap mi) \<and> owf (mi_RefundMap mi)
   \<and> (\<forall>x. oget (mi_AllocationMap mi) x = (if x \<in> bid_Bidder ` set bids then Some (matchedFor res x) else None))
   \<and> (\<forall>x. oget (mi_RefundMap mi) x =
        (if x \<in> bid_Bidder ` set bids then Some (reservedBy S pd bids x - chargedFor res x) else None))"

lemma payable_map:
  assumes "owf m" and "\<forall>x \<in> fst ` set m. AccAddressFromBech32 S x \<noteq> None"
    and "\<forall>x n. oget m x = Some n \<longrightarrow> 0 \<le> n"
  shows "payable S m"
  using assms by (fastforce simp: payable_def simp flip: oget_mem [OF assms(1)])

lemma sum_matched:
  fixes es :: "(string, BidderMatchResult) omap"
  assumes "owf es" and "finite A" and "fst ` set es \<subseteq> A"
  shows "(\<Sum>x \<in> A. case oget es x of None \<Rightarrow> 0 | Some br \<Rightarrow> bmr_MatchedAmount br)
    = sum_list (map (\<lambda>e. bmr_MatchedAmount (snd e)) es)"
  using assms(1,3)
proof (induction es)
  case (Cons e es)
  obtain y br where e: "e = (y, br)" by (cases e)
  have fresh: "oget es y = None" using Cons.prems(1) by (auto simp: owf_Cons e oget_None_keys)
  have "(\<Sum>x \<in> A. case oget (e # es) x of None \<Rightarrow> 0 | Some br \<Rightarrow> bmr_MatchedAmount br)
      = (\<Sum>x \<in> A. (if x = y then bmr_MatchedAmount br else 0)
          + (case oget es x of None \<Rightarrow> 0 | Some br \<Rightarrow> bmr_MatchedAmount br))"
    by (rule sum.cong) (use fresh in \<open>auto simp: e\<close>)
  also have "\<dots> = bmr_MatchedAmount br + (\<Sum>x \<in> A. case oget es x of None \<Rightarrow> 0 | Some br \<Rightarrow> bmr_MatchedAmount br)"
    using Cons.prems(2) assms(2) by (simp add: sum.distrib e)
  finally show ?case using Cons by (simp add: e owf_Cons)
qed simp

lemma settlement_maps:
  assumes good: "goodMatch S pd bids sell res" and perm: "mset bids' = mset bids"
    and decode: "\<forall>b \<in> set bids. AccAddressFromBech32 S (bid_Bidder b) \<noteq> None"
    and pos: "\<forall>x. 0 \<le> reservedBy S pd bids x"
  defines "reserved \<equiv> reservedAmtByBidder S pd bids'"
  shows "\<exists>mi. foldR (setMatchedBidder reserved) (mr_MatchResultByBidder res) (initialInfo res reserved) = Ok mi
    \<and> mi_MatchedLen mi = int (length (mr_MatchedBids res)) \<and> goodInfo S pd bids sell mi \<and> settles S pd bids res mi"
proof -
  let ?es = "mr_MatchResultByBidder res" and ?A = "bid_Bidder ` set bids"
  have set: "set bids' = set bids" by (rule mset_eq_setD [OF perm])
  have same: "reservedBy S pd bids' x = reservedBy S pd bids x" for x
    unfolding reservedBy_def by (rule sum_list_perm_int) (rule mset_filter_cong [OF perm])
  have res: "oget reserved x = (if x \<in> ?A then Some (reservedBy S pd bids x) else None)" for x
    by (simp add: reserved_def reserved_get set same)
  have wf: "owf ?es" using good by (simp add: goodMatch_def)
  have es: "x \<in> ?A \<and> 0 \<le> bmr_MatchedAmount br \<and> 0 \<le> bmr_PayingAmount br
      \<and> bmr_PayingAmount br \<le> reservedBy S pd bids x" if "oget ?es x = Some br" for x br
    using good that wf by (auto simp: goodMatch_def simp flip: oget_mem)
  have keys: "fst ` set ?es \<subseteq> ?A" using good by (auto simp: goodMatch_def)
  have init: "owf (mi_AllocationMap (initialInfo res reserved))" "owf (mi_RefundMap (initialInfo res reserved))"
    by (simp_all add: initialInfo_def owf_zeros reserved_def owf_reserved)
  have "\<forall>x \<in> fst ` set ?es. \<exists>n. oget reserved x = Some n" using keys by (auto simp: res)
  from setMatched_fold [OF this wf init] obtain mi where
    run: "foldR (setMatchedBidder reserved) ?es (initialInfo res reserved) = Ok mi"
    and ov: "overwritten reserved ?es (initialInfo res reserved) mi" by blast
  have mwf: "owf (mi_AllocationMap mi)" "owf (mi_RefundMap mi)" using ov by (simp_all add: overwritten_def)
  have G1: "oget (mi_AllocationMap mi) x = (if x \<in> ?A then
      Some (case oget ?es x of None \<Rightarrow> 0 | Some br \<Rightarrow> bmr_MatchedAmount br) else None)" for x
    using ov es [of x] by (cases "oget ?es x") (simp_all add: overwritten_def initialInfo_def oget_zeros res)
  have G2: "oget (mi_RefundMap mi) x = (if x \<in> ?A then
      Some (reservedBy S pd bids x - (case oget ?es x of None \<Rightarrow> 0 | Some br \<Rightarrow> bmr_PayingAmount br)) else None)" for x
    using ov es [of x] by (cases "oget ?es x") (simp_all add: overwritten_def initialInfo_def res)
  have K: "fst ` set (mi_AllocationMap mi) = ?A" "fst ` set (mi_RefundMap mi) = ?A"
    using G1 G2 oget_None_keys by (metis option.distinct(1) set_eqI)+
  have "payable S (mi_AllocationMap mi)"
    by (rule payable_map [OF mwf(1)]) (use K decode es in \<open>auto simp: G1 split: option.splits if_splits\<close>)
  moreover have "payable S (mi_RefundMap mi)"
    by (rule payable_map [OF mwf(2)]) (use K decode es pos in \<open>auto simp: G2 split: option.splits if_splits\<close>)
  moreover have "sum_list (map snd (mi_AllocationMap mi)) \<le> sell"
    using good by (simp add: omap_sum [OF mwf(1)] K G1 sum_matched [OF wf _ keys] goodMatch_def)
  moreover have "sum_list (map snd (mi_RefundMap mi)) \<le> paidIn S pd bids"
    unfolding omap_sum [OF mwf(2)] K sum_reservedBy [symmetric]
    by (rule sum_mono) (use es in \<open>auto simp: G2 split: option.splits\<close>)
  moreover have "settles S pd bids res mi"
    using mwf G1 G2 by (simp add: settles_def matchedFor_def chargedFor_def)
  moreover have "mi_MatchedLen mi = int (length (mr_MatchedBids res))"
    using ov by (simp add: overwritten_def initialInfo_def)
  ultimately show ?thesis using run unfolding goodInfo_def by blast
qed

section \<open>Marking the matched bids\<close>

lemma SetMatched_same [simp]:
  "bid_AuctionId (SetMatched m b) = bid_AuctionId b" "bid_Id (SetMatched m b) = bid_Id b"
  "bid_Bidder (SetMatched m b) = bid_Bidder b"
  "ConvertToPayingAmount S (SetMatched m b) d = ConvertToPayingAmount S b d"
  "ConvertToSellingAmount S (SetMatched m b) d = ConvertToSellingAmount S b d"
  "bidOK a (SetMatched m b) = bidOK a b"
  "bidderAllowed S' s i (SetMatched m b) = bidderAllowed S' s i b"
  "SetMatched m (SetMatched n b) = SetMatched m b"
  by (simp_all add: SetMatched_def ConvertToPayingAmount_def ConvertToSellingAmount_def bidOK_def
      bidderAllowed_def split: AuctionI.splits)

lemma SetMatched_flag: "SetMatched (bid_IsMatched b) b = b"
  by (simp add: SetMatched_def)

text \<open>The bids of the auction up to their matched flags.\<close>

definition flagged :: "uint64 \<Rightarrow> Bid list \<Rightarrow> 'b state \<Rightarrow> bool" where
  "flagged i bids s \<longleftrightarrow> (\<forall>b \<in> set bids. \<exists>m. GetBid i (bid_Id b) s = Some (SetMatched m b))"

text \<open>What marking bids leaves as it was.\<close>

definition onlyFlags :: "('b, 'z) keeper_scheme \<Rightarrow> uint64 \<Rightarrow> Bid list \<Rightarrow> 'b state \<Rightarrow> 'b state \<Rightarrow> bool" where
  "onlyFlags k i bids s t \<longleftrightarrow>
     Inv k t \<and> flagged i bids t \<and> Auctions t = Auctions s \<and> bank t = bank s \<and> BlockTime t = BlockTime s
   \<and> params t = params s \<and> (\<forall>d. paidIn k d (GetBidsByAuctionId i t) = paidIn k d (GetBidsByAuctionId i s))"

context fundraising
begin

lemma mark_bid:
  assumes only: "onlyFlags k i bids s0 s" and a: "GetAuction i s0 = Some a" and st: "ba_Status (base a) = AuctionStatusStarted"
    and b: "b \<in> set bids" and inj: "\<forall>b \<in> set bids. \<forall>c \<in> set bids. bid_Id b = bid_Id c \<longrightarrow> b = c"
  shows "\<exists>t. SetBid k (SetMatched True b) s = (Ok (), t) \<and> onlyFlags k i bids s0 t"
proof -
  have inv: "Inv k s" and a': "GetAuction i s = Some a" using only a by (simp_all add: onlyFlags_def GetAuction_def)
  have store: "storeOK k s" by (rule InvD(1) [OF inv])
  obtain m where m: "GetBid i (bid_Id b) s = Some (SetMatched m b)" using only b by (auto simp: onlyFlags_def flagged_def)
  have mem: "SetMatched m b \<in> set (GetBidsByAuctionId i s)" and bi: "bid_AuctionId b = i"
    using storeOK_bid [OF store m] by simp_all
  have ok: "bidOK a b" "unat (bid_Id b) \<le> unat (GetLastBidId i s)" "bidderAllowed k s i b"
    using InvD(4) [OF inv a' mem] by simp_all
  then obtain x where x: "AccAddressFromBech32 k (bid_Bidder b) = Some x" by (auto simp: bidderAllowed_def)
  define t where "t = s\<lparr>Bids := oset (i, bid_Id b) (SetMatched True b) (Bids s),
    BidIndex := oset (addrKey x, i, bid_Id b) () (BidIndex s)\<rparr>"
  have run: "SetBid k (SetMatched True b) s = (Ok (), t)" using x bi by (auto simp: SetBid_Ok t_def)
  have same: "before s (SetMatched True b) f = f (SetMatched m b)" for f using m bi by (simp add: before_def)
  have inv': "Inv k t"
  proof (rule stored_bid_Inv [OF inv a' st])
    show "GetAuction i t = Some a" using a' by (simp add: t_def GetAuction_def)
    show "auctionOK k i a" by (rule InvD(2) [OF inv a'])
    show "case a of FixedPriceAuction ba r' \<Rightarrow> (\<exists>r. a = FixedPriceAuction ba r
        \<and> Amount r' = Amount r - ConvertToSellingAmount k (SetMatched True b) (ba_PayingCoinDenom ba)
             + before s (SetMatched True b) (\<lambda>c. ConvertToSellingAmount k c (ba_PayingCoinDenom ba)))
      | BatchAuction _ _ _ _ _ \<Rightarrow> True"
      by (auto simp: same split: AuctionI.splits)
    show "owf (Auctions t)" using store by (simp add: t_def storeOK_def)
  qed (use ok bi in \<open>simp_all add: t_def same GetLastBidId_def GetAuction_def spendable_def\<close>)
  have paid: "paidIn k d (GetBidsByAuctionId i t) = paidIn k d (GetBidsByAuctionId i s)" for d
    using stored_bids_sum [OF store, of "SetMatched True b" i t "\<lambda>b. ConvertToPayingAmount k b d"] bi
    by (simp add: paidIn_def same t_def)
  have "flagged i bids t"
    unfolding flagged_def
  proof
    fix c
    assume c: "c \<in> set bids"
    show "\<exists>m. GetBid i (bid_Id c) t = Some (SetMatched m c)"
    proof (cases "bid_Id c = bid_Id b")
      case True
      then have "c = b" using inj b c by blast
      then show ?thesis by (auto simp: t_def GetBid_def)
    next
      case False
      then show ?thesis using only c by (auto simp: onlyFlags_def flagged_def t_def GetBid_def)
    qed
  qed
  then have "onlyFlags k i bids s0 t" using only inv' paid by (simp add: onlyFlags_def) (simp add: t_def)
  with run show ?thesis by blast
qed

text \<open>The calculation succeeds, marks bids, and its amounts are payable and covered.\<close>

lemma CalculateBatchAllocation_run:
  assumes inv: "Inv k s" and a: "GetAuction i s = Some a" and st: "ba_Status (base a) = AuctionStatusStarted"
    and ba: "a = BatchAuction ba mn mp mx er"
  shows "\<exists>mi t prices groups res. CalculateBatchAllocation k a s = (Ok mi, t) \<and> Inv k t \<and> Auctions t = Auctions s
    \<and> BlockTime t = BlockTime s \<and> bank t = bank s \<and> params t = params s
    \<and> goodInfo k (ba_PayingCoinDenom ba) (GetBidsByAuctionId i t) (Amount (ba_SellingCoin ba)) mi
    \<and> BidsByPrice k (GetBidsByAuctionId i s) = Ok (prices, groups)
    \<and> findMatch k prices groups (Amount (ba_SellingCoin ba)) (GetAllowedBiddersByAuction i s) = Ok res
    \<and> settles k (ba_PayingCoinDenom ba) (GetBidsByAuctionId i s) res mi
    \<and> GetLastMatchedBidsLen i t = mi_MatchedLen mi"
proof -
  let ?bids = "GetBidsByAuctionId i s" and ?pd = "ba_PayingCoinDenom ba" and ?sell = "Amount (ba_SellingCoin ba)"
  let ?al = "GetAllowedBiddersByAuction i s"
  have store: "storeOK k s" by (rule InvD(1) [OF inv])
  have ok: "auctionOK k i a" by (rule InvD(2) [OF inv a])
  then have ida: "ba_Id ba = i" and sell: "0 \<le> ?sell" by (simp_all add: auctionOK_def ba)
  note mat = stored_bids_matchable [OF inv a [unfolded ba]]
  obtain prices groups where grp: "BidsByPrice k ?bids = Ok (prices, groups)"
    by (rule BidsByPrice_spec [of ?bids])
  obtain res where find: "findMatch k prices groups ?sell ?al = Ok res" and good: "goodMatch k ?pd ?bids ?sell res"
    using findMatch_good [OF grp mat(1,2) sell mat(3)] by blast
  define reserved where "reserved = reservedAmtByBidder k ?pd (SortBids k ?bids)"
  have decode: "\<forall>b \<in> set ?bids. AccAddressFromBech32 k (bid_Bidder b) \<noteq> None"
    using InvD(4) [OF inv a] by (auto simp: bidderAllowed_def)
  have pos: "\<forall>x. 0 \<le> reservedBy k ?pd ?bids x" using reservedBy_nonneg mat(3) by blast
  obtain mi where fold: "foldR (setMatchedBidder reserved) (mr_MatchResultByBidder res) (initialInfo res reserved) = Ok mi"
    and len: "mi_MatchedLen mi = int (length (mr_MatchedBids res))" and info: "goodInfo k ?pd ?bids ?sell mi"
    and bal: "settles k ?pd ?bids res mi"
    using settlement_maps [OF good SortBids_perm decode pos] unfolding reserved_def by blast
  have inj: "\<forall>b \<in> set ?bids. \<forall>c \<in> set ?bids. bid_Id b = bid_Id c \<longrightarrow> b = c"
    using storeOK_bids(2) [OF store] by (metis option.inject)
  have start: "onlyFlags k i ?bids s s"
    using inv storeOK_bids(2) [OF store] SetMatched_flag by (simp add: onlyFlags_def flagged_def) metis
  have "\<exists>t. foreachM (\<lambda>b. SetBid k (SetMatched True b)) (mr_MatchedBids res) s = (Ok (), t) \<and> onlyFlags k i ?bids s t"
    by (rule foreachM_total [where P = "onlyFlags k i ?bids s", OF start])
      (use mark_bid [OF _ a st _ inj] good in \<open>auto simp: goodMatch_def\<close>)
  then obtain u where mark: "foreachM (\<lambda>b. SetBid k (SetMatched True b)) (mr_MatchedBids res) s = (Ok (), u)"
    and u: "onlyFlags k i ?bids s u" by blast
  define t where "t = SetMatchedBidsLen i (mi_MatchedLen mi) u"
  have run: "CalculateBatchAllocation k a s = (Ok mi, t)"
    using grp find fold mark
    by (simp add: CalculateBatchAllocation_def ba ida run_simps Let_def reserved_def [symmetric] t_def)
  have same: "storeOK k t = storeOK k u" "auctionInv k t j = auctionInv k u j" for j
    by (simp_all add: t_def SetMatchedBidsLen_def storeOK_def auctionInv_def slice_defs fundsOK_def
        bidderAllowed_def cong: option.case_cong AuctionI.case_cong)
  have "Inv k t" using u by (simp add: Inv_def same onlyFlags_def)
  moreover have "GetBidsByAuctionId i t = GetBidsByAuctionId i u"
    by (simp add: t_def SetMatchedBidsLen_def GetBidsByAuctionId_def)
  then have "goodInfo k ?pd (GetBidsByAuctionId i t) ?sell mi"
    using info u by (simp add: goodInfo_def onlyFlags_def)
  moreover have "Auctions t = Auctions s" "BlockTime t = BlockTime s" "bank t = bank s" "params t = params s"
    using u by (simp_all add: t_def SetMatchedBidsLen_def onlyFlags_def)
  moreover have "GetLastMatchedBidsLen i t = mi_MatchedLen mi"
    by (simp add: t_def SetMatchedBidsLen_def GetLastMatchedBidsLen_def)
  ultimately show ?thesis using run bal grp find by blast
qed

end

section \<open>Closing a batch auction\<close>

text \<open>A round is added only while the limit on rounds is not reached.\<close>

lemma rounds_left:
  fixes mx :: uint32
  assumes "length ts \<le> unat mx + 1" and "mx + 1 \<noteq> word_of_nat (length ts)"
  shows "length ts + 1 \<le> unat mx + 1"
proof -
  have "length ts \<noteq> unat mx + 1"
  proof
    assume "length ts = unat mx + 1"
    then have "(word_of_nat (length ts) :: uint32) = mx + 1" by simp
    then show False using assms(2) by simp
  qed
  then show ?thesis using assms(1) by simp
qed

definition extended :: "'b state \<Rightarrow> AuctionI \<Rightarrow> AuctionI" where
  "extended s a = SetEndTimes (ba_EndTimes (base a)
     @ [addDays (last (ba_EndTimes (base a))) (uint (ExtendedPeriod (params s)))]) a"

definition closedAs :: "AuctionI \<Rightarrow> AuctionI" where
  "closedAs a = SetStatus
     (if ba_VestingSchedules (base a) = [] then AuctionStatusFinished else AuctionStatusVesting) a"

context fundraising
begin

lemma ExtendRound_Inv:
  assumes inv: "Inv k s" and a: "GetAuction i s = Some a" and st: "isOpen a"
    and ba: "a = BatchAuction ba mn mp mx er" and more: "mx + 1 \<noteq> word_of_nat (length (ba_EndTimes ba))"
  shows "\<exists>t. ExtendRound a s = (Ok (), t) \<and> stepped k i s t \<and> GetAuction i t = Some (extended s a)"
proof -
  let ?a = "extended s a"
  define t where "t = SetAuction ?a s"
  have ok: "auctionOK k i a" by (rule InvD(2) [OF inv a])
  have ne: "ba_EndTimes ba \<noteq> []" using ok by (simp add: auctionOK_def ba)
  have run: "ExtendRound a s = (Ok (), t)"
    using ne by (simp add: ExtendRound_def run_simps lastTime_def Let_def extended_def t_def ba GetParams_def)
  have len: "length (ba_EndTimes ba) \<le> unat mx + 1" using ok by (simp add: auctionOK_def ba)
  have ok': "auctionOK k i ?a"
    using ok rounds_left [OF len more] ne by (simp add: auctionOK_def ba extended_def SetEndTimes_def)
  have bid: "bidOK ?a b = bidOK a b" for b by (simp add: bidOK_def ba extended_def SetEndTimes_def)
  have ida: "ba_Id (base a) = i" using ok by (simp add: auctionOK_def)
  have get: "GetAuction j t = (if j = i then Some ?a else GetAuction j s)" for j
    by (simp add: t_def SetAuction_def GetAuction_def extended_def ida)
  have "fundsOK k t i ?a"
    using InvD(6) [OF inv a]
    by (simp add: fundsOK_def isOpen_def ba extended_def SetEndTimes_def t_def SetAuction_def slice_defs)
  then have "Inv k t"
  proof (rule updated_auction_Inv [OF inv a, rotated 4])
    show "GetAuction i t = Some ?a" by (simp add: get)
    show "GetAuction j t = GetAuction j s" if "j \<noteq> i" for j using that by (simp add: get)
    show "owf (Auctions t)" using InvD(1) [OF inv] by (simp add: t_def SetAuction_def storeOK_def)
  qed (use ok' bid in \<open>simp_all add: t_def SetAuction_def spendable_def extended_def\<close>)
  then show ?thesis using run get by (simp add: stepped_def t_def SetAuction_def)
qed

lemma stepped_trans:
  assumes "stepped k i u t" and "Auctions u = Auctions s" and "BlockTime u = BlockTime s"
  shows "stepped k i s t"
  using assms by (simp add: stepped_def GetAuction_def)

lemma CloseBatchAuction_Inv:
  assumes inv: "Inv k s" and a: "GetAuction i s = Some a" and st: "ba_Status (base a) = AuctionStatusStarted"
    and ba: "a = BatchAuction ba mn mp mx er"
  shows "\<exists>t. CloseBatchAuction k a s = (Ok (), t) \<and> stepped k i s t
    \<and> (GetAuction i t = Some (closedAs a)
       \<or> GetAuction i t = Some (extended s a) \<and> length (ba_EndTimes ba) \<le> unat mx)"
proof -
  have ok: "auctionOK k i a" by (rule InvD(2) [OF inv a])
  then have ida: "ba_Id ba = i" and len: "length (ba_EndTimes ba) \<le> unat mx + 1" by (simp_all add: auctionOK_def ba)
  have op: "isOpen a" using st by (simp add: isOpen_def)
  obtain mi u where calc: "CalculateBatchAllocation k a s = (Ok mi, u)" and invu: "Inv k u"
    and u: "Auctions u = Auctions s" "BlockTime u = BlockTime s" "params u = params s"
    and info: "goodInfo k (ba_PayingCoinDenom ba) (GetBidsByAuctionId i u) (Amount (ba_SellingCoin ba)) mi"
    using CalculateBatchAllocation_run [OF inv a st ba] by blast
  have au: "GetAuction i u = Some a" using a u(1) by (simp add: GetAuction_def)
  obtain t1 where fin: "finishBatch k a mi u = (Ok (), t1)" "stepped k i u t1" "GetAuction i t1 = Some (closedAs a)"
    using finishBatch_Inv [OF invu au op, of mi] info by (auto simp: goodInfo_def ba closedAs_def)
  have fin': "stepped k i s t1" using fin(2) u(1,2) by (rule stepped_trans)
  show ?thesis
  proof (cases "mx + 1 = word_of_nat (length (ba_EndTimes ba))")
    case True
    then show ?thesis using fin fin' calc by (auto simp: CloseBatchAuction_def run_simps ba)
  next
    case False
    obtain t2 where ext: "ExtendRound a u = (Ok (), t2)" "stepped k i u t2" "GetAuction i t2 = Some (extended u a)"
      using ExtendRound_Inv [OF invu au op ba False] by blast
    have ext': "stepped k i s t2" using ext(2) u(1,2) by (rule stepped_trans)
    have par: "extended u a = extended s a" using u(3) by (simp add: extended_def)
    have left: "length (ba_EndTimes ba) \<le> unat mx" using rounds_left [OF len False] by simp
    show ?thesis
    proof (cases "CloseBatchAuction k a s = ExtendRound a u")
      case True
      then show ?thesis using ext ext' par left by auto
    next
      case False
      then have "CloseBatchAuction k a s = finishBatch k a mi u"
        using calc \<open>mx + 1 \<noteq> _\<close> by (auto simp: CloseBatchAuction_def run_simps ba Let_def split: if_splits)
      then show ?thesis using fin fin' by auto
    qed
  qed
qed

text \<open>The first time an auction with rounds left reaches its end, it always gets one more round: there
  is no earlier number of matched bids to compare with.\<close>

lemma CloseBatchAuction_first:
  assumes inv: "Inv k s" and a: "GetAuction i s = Some a" and st: "ba_Status (base a) = AuctionStatusStarted"
    and ba: "a = BatchAuction ba mn mp mx er" and more: "mx + 1 \<noteq> word_of_nat (length (ba_EndTimes ba))"
    and first: "GetLastMatchedBidsLen i s = 0"
  shows "\<exists>t. CloseBatchAuction k a s = (Ok (), t) \<and> stepped k i s t \<and> GetAuction i t = Some (extended s a)"
proof -
  have ida: "ba_Id ba = i" using InvD(2) [OF inv a] by (simp add: auctionOK_def ba)
  have op: "isOpen a" using st by (simp add: isOpen_def)
  obtain mi u where calc: "CalculateBatchAllocation k a s = (Ok mi, u)" and invu: "Inv k u"
    and u: "Auctions u = Auctions s" "BlockTime u = BlockTime s" "params u = params s"
    using CalculateBatchAllocation_run [OF inv a st ba] by blast
  have au: "GetAuction i u = Some a" using a u(1) by (simp add: GetAuction_def)
  obtain t where ext: "ExtendRound a u = (Ok (), t)" "stepped k i u t" "GetAuction i t = Some (extended u a)"
    using ExtendRound_Inv [OF invu au op ba more] by blast
  have "CloseBatchAuction k a s = (Ok (), t)"
    using ext(1) calc more first by (simp add: CloseBatchAuction_def run_simps ba ida)
  moreover have "stepped k i s t" using ext(2) u(1,2) by (rule stepped_trans)
  moreover have "extended u a = extended s a" using u(3) by (simp add: extended_def)
  ultimately show ?thesis using ext(3) by simp
qed

end

end
