(* ===== verification/Blocks.thy ===== *)
theory Blocks
  imports Closing
begin

text \<open>
  The begin blocker: the release of vesting queues, the step of an auction for each status, and the
  loop over all auctions. On a state with the invariant the begin blocker never panics, keeps the
  invariant, and does to each auction what its status asks for.
\<close>

section \<open>Vesting queues in the store\<close>

text \<open>The queues of an auction are listed by release time.\<close>

lemma oiter_sorted:
  assumes "owf m" and "\<forall>(key, v) \<in> set m. snd key = (g v :: 'k::linorder)"
  shows "sorted_wrt (<) (map g (oiter (\<lambda>key. fst key = (i :: 'i::linorder)) m))"
  using assms
proof (induction m)
  case (Cons e m)
  obtain key v where e: "e = (key, v)" by (cases e)
  have less: "g v < g w" if "w \<in> set (oiter (\<lambda>key. fst key = i) m)" "fst key = i" for w
  proof -
    from that(1) obtain key' where mem: "(key', w) \<in> set m" and "fst key' = i" by (auto simp: oiter_def)
    then have "key < key'" using Cons.prems(1) by (force simp: owf_Cons e)
    then have "snd key < snd key'" using that(2) \<open>fst key' = i\<close> by (cases key; cases key') auto
    then show ?thesis using Cons.prems(2) mem by (auto simp: e)
  qed
  then show ?case using Cons by (auto simp: e owf_Cons)
qed simp

lemma queues_sorted:
  assumes "storeOK S s"
  shows "sorted_wrt (<) (map vq_ReleaseTime (GetVestingQueuesByAuctionId i s))"
  unfolding GetVestingQueuesByAuctionId_def
  by (rule oiter_sorted) (use assms in \<open>auto simp: storeOK_def\<close>)

lemma stored_queue:
  assumes "storeOK S s"
  shows "q \<in> set (GetVestingQueuesByAuctionId i s) \<longleftrightarrow>
    vq_AuctionId q = i \<and> oget (VestingQueues s) (i, vq_ReleaseTime q) = Some q"
proof -
  have wf: "owf (VestingQueues s)" using assms by (simp add: storeOK_def)
  have "oget (VestingQueues s) key = Some q \<Longrightarrow> key = (vq_AuctionId q, vq_ReleaseTime q)" for key
    using assms by (auto simp: storeOK_def simp flip: oget_mem [OF wf])
  then show ?thesis by (auto simp: GetVestingQueuesByAuctionId_def set_oiter [OF wf])
qed

text \<open>Overwriting a stored entry changes that entry of an iteration.\<close>

lemma oiter_oset_present:
  assumes "owf m" and "oget m key = Some w"
  shows "oiter P (oset key v m) = map snd (filter (\<lambda>e. P (fst e)) (map (\<lambda>e. if fst e = key then (key, v) else e) m))"
  using assms
proof (induction m)
  case (Cons e m)
  have "\<not> key < fst e" if "fst e \<noteq> key"
    using Cons.prems that by (auto simp: owf_Cons dest!: map_of_SomeD)
  moreover have "map (\<lambda>e. if fst e = key then (key, v) else e) m = m" if "fst e = key"
    using Cons.prems(1) that by (intro map_idI) (auto simp: owf_Cons)
  ultimately show ?case using Cons by (auto simp: owf_Cons oiter_def split: if_splits)
qed simp

lemma oiter_overwritten:
  assumes "\<forall>e \<in> set m. fst e = key \<longleftrightarrow> snd e = q"
  shows "map snd (filter (\<lambda>e. P (fst e)) (map (\<lambda>e. if fst e = key then (key, p) else e) m)) =
    map (\<lambda>r. if r = q then p else r) (oiter P m)"
  using assms by (induction m) auto

lemma queues_after_set:
  assumes store: "storeOK S s" and q: "q \<in> set (GetVestingQueuesByAuctionId i s)"
    and p: "vq_AuctionId p = i" "vq_ReleaseTime p = vq_ReleaseTime q"
  shows "GetVestingQueuesByAuctionId i (SetVestingQueue p s) =
    map (\<lambda>r. if r = q then p else r) (GetVestingQueuesByAuctionId i s)"
proof -
  have wf: "owf (VestingQueues s)" using store by (simp add: storeOK_def)
  have get: "oget (VestingQueues s) (i, vq_ReleaseTime q) = Some q" using q stored_queue [OF store] by blast
  have "\<forall>e \<in> set (VestingQueues s). fst e = (i, vq_ReleaseTime q) \<longleftrightarrow> snd e = q"
  proof
    fix e
    assume e: "e \<in> set (VestingQueues s)"
    then have "oget (VestingQueues s) (fst e) = Some (snd e)" using oget_mem [OF wf] by (metis prod.collapse)
    moreover have "fst e = (vq_AuctionId (snd e), vq_ReleaseTime (snd e))"
      using e store by (auto simp: storeOK_def)
    moreover have "vq_AuctionId q = i" using q stored_queue [OF store] by blast
    ultimately show "fst e = (i, vq_ReleaseTime q) \<longleftrightarrow> snd e = q" using get by (metis option.inject)
  qed
  then have "oiter (\<lambda>key. fst key = i) (oset (i, vq_ReleaseTime q) p (VestingQueues s))
      = map (\<lambda>r. if r = q then p else r) (oiter (\<lambda>key. fst key = i) (VestingQueues s))"
    unfolding oiter_oset_present [OF wf get] by (rule oiter_overwritten)
  then show ?thesis by (simp add: SetVestingQueue_def GetVestingQueuesByAuctionId_def p)
qed

section \<open>Releasing vesting queues\<close>

lemma SetStatus_same: "ba_Status (base a) = st \<Longrightarrow> SetStatus st a = a"
  by (cases a) (auto simp: SetStatus_def)

lemma unreleased_mem:
  assumes "q \<in> set qs" and "\<not> vq_Released q" and "\<forall>q \<in> set qs. 0 \<le> Amount (vq_PayingCoin q)"
  shows "Amount (vq_PayingCoin q) \<le> unreleased qs"
proof -
  let ?f = "\<lambda>q. if vq_Released q then 0 else Amount (vq_PayingCoin q)"
  have "?f q \<le> sum_list (map ?f qs)"
    by (rule member_le_sum_list) (use assms in auto)
  then show ?thesis using assms(2) by (simp add: unreleased_def)
qed

context fundraising
begin

text \<open>Releasing one queue.\<close>

lemma release_run:
  assumes inv: "Inv k s" and a: "GetAuction i s = Some a" and st: "ba_Status (base a) = AuctionStatusVesting"
    and q: "q \<in> set (GetVestingQueuesByAuctionId i s)" and unrel: "\<not> vq_Released q" and x: "GetAuctioneer k a = Some x"
  shows "\<exists>bk. sendCoin k (VestingReserveAddress k i) x (vq_PayingCoin q) s = (Ok (), s\<lparr>bank := bk\<rparr>)
    \<and> moved k (VestingReserveAddress k i) x (ba_PayingCoinDenom (base a)) (Amount (vq_PayingCoin q)) (bank s) bk
    \<and> Inv k (SetVestingQueue (SetReleased True q) (s\<lparr>bank := bk\<rparr>))"
proof -
  let ?V = "VestingReserveAddress k i" and ?d = "ba_PayingCoinDenom (base a)" and ?n = "Amount (vq_PayingCoin q)"
  let ?qs = "GetVestingQueuesByAuctionId i s"
  have store: "storeOK k s" by (rule InvD(1) [OF inv])
  have ok: "auctionOK k i a" by (rule InvD(2) [OF inv a])
  have qs: "\<forall>q \<in> set ?qs. Denom (vq_PayingCoin q) = ?d \<and> 0 \<le> Amount (vq_PayingCoin q)"
    using InvD(5) [OF inv a] by blast
  have id: "vq_AuctionId q = i" and key: "oget (VestingQueues s) (i, vq_ReleaseTime q) = Some q"
    using q stored_queue [OF store] by blast+
  have funds: "unreleased ?qs \<le> spendable k ?V ?d s"
    using InvD(6) [OF inv a] st by (simp add: fundsOK_def)
  have "?n \<le> unreleased ?qs" using unreleased_mem [OF q unrel] qs by blast
  then have cover: "?n \<le> spendable k ?V (Denom (vq_PayingCoin q)) s" using funds qs q by simp
  have valid: "CoinValidate k (vq_PayingCoin q)" using qs q ok by (simp add: CoinValidate_law auctionOK_def)
  obtain bk where send: "sendCoin k ?V x (vq_PayingCoin q) s = (Ok (), s\<lparr>bank := bk\<rparr>)"
    and mv: "moved k ?V x ?d ?n (bank s) bk"
    using sendCoin_ok [OF valid cover, of x] qs q by auto
  define t where "t = SetVestingQueue (SetReleased True q) (s\<lparr>bank := bk\<rparr>)"
  have store': "storeOK k (s\<lparr>bank := bk\<rparr>)"
    using store by (rule storeOK_cong [THEN iffD2, rotated -1]) simp_all
  have qsame: "GetVestingQueuesByAuctionId j (s\<lparr>bank := bk\<rparr>) = GetVestingQueuesByAuctionId j s" for j
    by (simp add: GetVestingQueuesByAuctionId_def)
  have un: "unreleased (GetVestingQueuesByAuctionId i t) = unreleased ?qs - ?n"
    using unreleased_SetVestingQueue [OF store', of "SetReleased True q" i] id key unrel
    by (simp add: t_def SetReleased_def qsame) (simp add: unreleased_def)
  have "Inv k t"
  proof (rule closed_Inv [OF inv a, where st = AuctionStatusVesting])
    show "GetAuction i t = Some (SetStatus AuctionStatusVesting a)"
      using a SetStatus_same [OF st] by (simp add: t_def SetVestingQueue_def GetAuction_def)
    show "storeOK k t" unfolding t_def by (rule storeOK_SetVestingQueue [OF store'])
    show "GetAuction j t = GetAuction j s \<and> GetVestingQueuesByAuctionId j t = GetVestingQueuesByAuctionId j s"
      if "j \<noteq> i" for j
      using that id by (simp add: t_def SetVestingQueue_def GetAuction_def GetVestingQueuesByAuctionId_def SetReleased_def)
    show "Denom (vq_PayingCoin p) = ?d \<and> 0 \<le> Amount (vq_PayingCoin p)"
      if "p \<in> set (GetVestingQueuesByAuctionId i t)" for p
      by (rule stored_queues_all [OF store' _ _ _ that [unfolded t_def]])
        (use id qs q in \<open>auto simp: SetReleased_def qsame\<close>)
    show "unreleased (GetVestingQueuesByAuctionId i t) \<le> spendable k ?V ?d t"
    proof -
      have "spendable k ?V ?d s - ?n \<le> spendable k ?V ?d t"
        using moved_spent [OF mv, unfolded spent_def, rule_format, of ?V ?d] qs q
        by (simp add: spendable_def t_def SetVestingQueue_def)
      then show ?thesis using un funds by simp
    qed
    show "spendable k y d s \<le> spendable k y d t" if "j \<noteq> i" "y \<in> reservesOf k j" for j y d
    proof -
      have "y \<noteq> ?V" using that by (auto simp: reservesOf_def reserve_simps)
      then show ?thesis using mv qs q by (auto simp: spendable_def t_def SetVestingQueue_def moved_def)
    qed
  qed (simp_all add: t_def SetVestingQueue_def)
  then show ?thesis using send mv unfolding t_def by blast
qed

end

text \<open>What a release run does to the queues: those that are due are marked as released.\<close>

definition releasedAt :: "time \<Rightarrow> VestingQueue \<Rightarrow> VestingQueue" where
  "releasedAt now q = (if ShouldRelease q now then SetReleased True q else q)"

definition releasedIn :: "time \<Rightarrow> VestingQueue set \<Rightarrow> VestingQueue \<Rightarrow> VestingQueue" where
  "releasedIn now A q = (if q \<in> A then releasedAt now q else q)"

lemma releasedIn_insert:
  "ShouldRelease q now \<Longrightarrow> releasedIn now A (if r = q then SetReleased True q else r) = releasedIn now (insert q A) r"
  by (auto simp: releasedIn_def releasedAt_def ShouldRelease_def SetReleased_def)

text \<open>The coins of the queues that are due.\<close>

definition dueCoins :: "time \<Rightarrow> VestingQueue list \<Rightarrow> int" where
  "dueCoins now qs = sum_list (map (\<lambda>q. Amount (vq_PayingCoin q)) (filter (\<lambda>q. ShouldRelease q now) qs))"

lemma dueCoins_simps [simp]:
  "dueCoins now [] = 0"
  "dueCoins now (q # qs) = (if ShouldRelease q now then Amount (vq_PayingCoin q) else 0) + dueCoins now qs"
  by (simp_all add: dueCoins_def)

lemma moved_none: "moved k x y d 0 b b"
  by (simp add: moved_def)

lemma moved_twice: "moved k x y d m b b' \<Longrightarrow> moved k x y d n b' b'' \<Longrightarrow> moved k x y d (m + n) b b''"
  by (simp add: moved_def)

lemma releasedIn_skip:
  "\<not> ShouldRelease q now \<Longrightarrow> releasedIn now A r = releasedIn now (insert q A) r"
  by (auto simp: releasedIn_def releasedAt_def)

context fundraising
begin

lemma finished_Inv:
  assumes inv: "Inv k s" and a: "GetAuction i s = Some a"
  shows "Inv k (SetAuction (SetStatus AuctionStatusFinished a) s)"
proof (rule closed_Inv [OF inv a, where st = AuctionStatusFinished])
  have ida: "ba_Id (base a) = i" using InvD(2) [OF inv a] by (simp add: auctionOK_def)
  then show "GetAuction i (SetAuction (SetStatus AuctionStatusFinished a) s) = Some (SetStatus AuctionStatusFinished a)"
    by (simp add: SetAuction_def GetAuction_def)
  show "GetAuction j (SetAuction (SetStatus AuctionStatusFinished a) s) = GetAuction j s
      \<and> GetVestingQueuesByAuctionId j (SetAuction (SetStatus AuctionStatusFinished a) s) = GetVestingQueuesByAuctionId j s"
    if "j \<noteq> i" for j
    using that ida by (simp add: SetAuction_def GetAuction_def GetVestingQueuesByAuctionId_def)
  show "storeOK k (SetAuction (SetStatus AuctionStatusFinished a) s)" by (rule storeOK_SetAuction [OF InvD(1) [OF inv]])
qed (use InvD(5) [OF inv a] in
    \<open>auto simp: SetAuction_def GetVestingQueuesByAuctionId_def spendable_def\<close>)

lemma releaseLoop_run:
  assumes "Inv k s" and "GetAuction i s = Some a" and "ba_Status (base a) = AuctionStatusVesting"
    and "\<forall>q \<in> set qs. q \<in> set (GetVestingQueuesByAuctionId i s)" and "distinct (map vq_ReleaseTime qs)"
    and x: "GetAuctioneer k a = Some x"
  shows "\<exists>t. releaseLoop k a qs s = (Ok (), t) \<and> stepped k i s t
    \<and> moved k (VestingReserveAddress k i) x (ba_PayingCoinDenom (base a)) (dueCoins (BlockTime s) qs) (bank s) (bank t)
    \<and> GetVestingQueuesByAuctionId i t
        = map (releasedIn (BlockTime s) (set qs)) (GetVestingQueuesByAuctionId i s)
    \<and> GetAuction i t = Some (if qs \<noteq> [] \<and> ShouldRelease (last qs) (BlockTime s)
        then SetStatus AuctionStatusFinished a else a)"
  using assms(1-5)
proof (induction qs arbitrary: s)
  case Nil
  then show ?case by (auto simp: run_simps stepped_def releasedIn_def moved_none)
next
  case (Cons q qs)
  note inv = Cons.prems(1) and a = Cons.prems(2) and st = Cons.prems(3)
  have ok: "auctionOK k i a" by (rule InvD(2) [OF inv a])
  have ida: "ba_Id (base a) = i" using ok by (simp add: auctionOK_def)
  have store: "storeOK k s" by (rule InvD(1) [OF inv])
  let ?V = "VestingReserveAddress k i" and ?d = "ba_PayingCoinDenom (base a)"
  show ?case
  proof (cases "ShouldRelease q (BlockTime s)")
    case False
    then have "releaseLoop k a (q # qs) s = releaseLoop k a qs s" by (simp add: run_simps)
    then show ?thesis
      using Cons.IH [OF inv a st] Cons.prems(4,5) False by (auto simp: releasedIn_skip [OF False, symmetric])
  next
    case True
    have q: "q \<in> set (GetVestingQueuesByAuctionId i s)" and unrel: "\<not> vq_Released q"
      using Cons.prems(4) True by (simp_all add: ShouldRelease_def)
    obtain bk where send: "sendCoin k ?V x (vq_PayingCoin q) s = (Ok (), s\<lparr>bank := bk\<rparr>)"
      and mv: "moved k ?V x ?d (Amount (vq_PayingCoin q)) (bank s) bk"
      and inv': "Inv k (SetVestingQueue (SetReleased True q) (s\<lparr>bank := bk\<rparr>))"
      using release_run [OF inv a st q unrel x] by blast
    define u where "u = SetVestingQueue (SetReleased True q) (s\<lparr>bank := bk\<rparr>)"
    have u: "Inv k u" "GetAuction j u = GetAuction j s" "BlockTime u = BlockTime s" "bank u = bk" for j
      using inv' by (simp_all add: u_def SetVestingQueue_def GetAuction_def)
    have aid: "vq_AuctionId q = i" using q stored_queue [OF store] by blast
    have "storeOK k (s\<lparr>bank := bk\<rparr>)" using store by (rule storeOK_cong [THEN iffD2, rotated -1]) simp_all
    moreover have "GetVestingQueuesByAuctionId i (s\<lparr>bank := bk\<rparr>) = GetVestingQueuesByAuctionId i s"
      by (simp add: GetVestingQueuesByAuctionId_def)
    ultimately have qu: "GetVestingQueuesByAuctionId i u =
        map (\<lambda>r. if r = q then SetReleased True q else r) (GetVestingQueuesByAuctionId i s)"
      using queues_after_set [of k "s\<lparr>bank := bk\<rparr>" q i "SetReleased True q"] q aid
      by (simp add: u_def SetReleased_def)
    have run: "releaseLoop k a (q # qs) s =
        (if qs = [] then (Ok (), SetAuction (SetStatus AuctionStatusFinished a) u) else releaseLoop k a qs u)"
      using True send by (simp add: run_simps reserve_decodes [OF ok] x u_def)
    have upd: "map (releasedIn (BlockTime s) (set (q # qs))) (GetVestingQueuesByAuctionId i s)
        = map (releasedIn (BlockTime s) (set qs)) (GetVestingQueuesByAuctionId i u)"
      using releasedIn_insert [OF True, of "set qs"] by (simp add: qu)
    show ?thesis
    proof (cases "qs = []")
      case end': True
      have "Inv k (SetAuction (SetStatus AuctionStatusFinished a) u)"
        by (rule finished_Inv [OF u(1)]) (use u(2) a in simp)
      moreover have "map (releasedIn (BlockTime s) {}) (GetVestingQueuesByAuctionId i u) = GetVestingQueuesByAuctionId i u"
        by (rule map_idI) (simp add: releasedIn_def)
      ultimately show ?thesis
        using run upd end' True u(2-4) ida mv
        by (auto simp: stepped_def SetAuction_def GetAuction_def GetVestingQueuesByAuctionId_def)
    next
      case False
      have "\<forall>p \<in> set qs. p \<in> set (GetVestingQueuesByAuctionId i u)"
        using Cons.prems(4,5) by (force simp: qu)
      from Cons.IH [OF u(1) _ st this] obtain t where "releaseLoop k a qs u = (Ok (), t)" "stepped k i u t"
        and mv': "moved k ?V x ?d (dueCoins (BlockTime u) qs) (bank u) (bank t)" and
        "GetVestingQueuesByAuctionId i t = map (releasedIn (BlockTime u) (set qs)) (GetVestingQueuesByAuctionId i u)"
        "GetAuction i t = Some (if qs \<noteq> [] \<and> ShouldRelease (last qs) (BlockTime u)
          then SetStatus AuctionStatusFinished a else a)"
        using a u(2) Cons.prems(5) by auto
      moreover have "moved k ?V x ?d (dueCoins (BlockTime s) (q # qs)) (bank s) (bank t)"
        using moved_twice [OF mv mv' [unfolded u(3,4)]] True by simp
      ultimately show ?thesis using run upd False u by (auto simp: stepped_def)
    qed
  qed
qed

end

section \<open>The step of an auction\<close>

text \<open>What a begin block at time \<open>now\<close> may make of an auction. A started auction whose last end time
  is past is closed; a batch auction may instead get one more end time, as long as it has not used
  up its rounds.\<close>

definition oneMoreRound :: "AuctionI \<Rightarrow> AuctionI \<Rightarrow> bool" where
  "oneMoreRound a a' \<longleftrightarrow> (case a of
     FixedPriceAuction _ _ \<Rightarrow> False
   | BatchAuction b _ _ mx _ \<Rightarrow> length (ba_EndTimes b) \<le> unat mx
       \<and> (\<exists>e \<ge> last (ba_EndTimes b). a' = SetEndTimes (ba_EndTimes b @ [e]) a))"

definition evolves :: "time \<Rightarrow> AuctionI \<Rightarrow> AuctionI \<Rightarrow> bool" where
  "evolves now a a' \<longleftrightarrow> (case ba_Status (base a) of
     AuctionStatusStandBy \<Rightarrow>
       a' = (if now < ba_StartTime (base a) then a else SetStatus AuctionStatusStarted a)
   | AuctionStatusStarted \<Rightarrow>
       (if now < last (ba_EndTimes (base a)) then a' = a else a' = closedAs a \<or> oneMoreRound a a')
   | AuctionStatusVesting \<Rightarrow> a' = a \<or> a' = SetStatus AuctionStatusFinished a
   | _ \<Rightarrow> a' = a)"

context fundraising
begin

lemma ExecuteStandByStatus_Inv:
  assumes inv: "Inv k s" and a: "GetAuction i s = Some a" and st: "ba_Status (base a) = AuctionStatusStandBy"
  shows "\<exists>t. ExecuteStandByStatus a s = (Ok (), t) \<and> stepped k i s t
    \<and> GetAuction i t = Some (if BlockTime s < ba_StartTime (base a) then a else SetStatus AuctionStatusStarted a)"
proof (cases "BlockTime s < ba_StartTime (base a)")
  case True
  then show ?thesis using inv a by (simp add: ExecuteStandByStatus_def run_simps ShouldAuctionStarted_def stepped_def)
next
  case False
  let ?a = "SetStatus AuctionStatusStarted a"
  define t where "t = SetAuction ?a s"
  have ok: "auctionOK k i a" by (rule InvD(2) [OF inv a])
  then have ida: "ba_Id (base a) = i" by (simp add: auctionOK_def)
  have get: "GetAuction j t = (if j = i then Some ?a else GetAuction j s)" for j
    by (simp add: t_def SetAuction_def GetAuction_def ida)
  have "fundsOK k t i ?a"
    using InvD(6) [OF inv a] st
    by (cases a) (simp_all add: fundsOK_def isOpen_def SetStatus_def t_def SetAuction_def slice_defs)
  then have "Inv k t"
  proof (rule updated_auction_Inv [OF inv a, rotated 4])
    show "GetAuction i t = Some ?a" by (simp add: get)
    show "GetAuction j t = GetAuction j s" if "j \<noteq> i" for j using that by (simp add: get)
    show "owf (Auctions t)" using InvD(1) [OF inv] by (simp add: t_def SetAuction_def storeOK_def)
  qed (use ok in \<open>simp_all add: t_def SetAuction_def spendable_def\<close>)
  moreover have "ExecuteStandByStatus a s = (Ok (), t)"
    using False by (simp add: ExecuteStandByStatus_def run_simps ShouldAuctionStarted_def t_def)
  ultimately show ?thesis using get False by (simp add: stepped_def t_def SetAuction_def)
qed

lemma ExecuteStartedStatus_Inv:
  assumes inv: "Inv k s" and a: "GetAuction i s = Some a" and st: "ba_Status (base a) = AuctionStatusStarted"
  shows "\<exists>t a'. ExecuteStartedStatus k a s = (Ok (), t) \<and> stepped k i s t \<and> GetAuction i t = Some a'
    \<and> evolves (BlockTime s) a a'"
proof -
  have ok: "auctionOK k i a" by (rule InvD(2) [OF inv a])
  then have ends: "lastTime (ba_EndTimes (base a)) = Some (last (ba_EndTimes (base a)))"
    by (simp add: auctionOK_def lastTime_def)
  have op: "isOpen a" using st by (simp add: isOpen_def)
  show ?thesis
  proof (cases "BlockTime s < last (ba_EndTimes (base a))")
    case True
    then show ?thesis using inv a st ends
      by (simp add: ExecuteStartedStatus_def run_simps ShouldAuctionClosed_def stepped_def evolves_def)
  next
    case late: False
    show ?thesis
    proof (cases a)
      case (FixedPriceAuction ba r)
      have "GetType a = AuctionTypeFixedPrice" using ok by (simp add: auctionOK_def FixedPriceAuction)
      then have "ExecuteStartedStatus k a s = CloseFixedPriceAuction k a s"
        using late ends by (simp add: ExecuteStartedStatus_def run_simps ShouldAuctionClosed_def)
      then show ?thesis
        using CloseFixedPriceAuction_Inv [OF inv a op FixedPriceAuction] late st
        by (auto simp: evolves_def closedAs_def)
    next
      case (BatchAuction ba mn mp mx er)
      have "GetType a = AuctionTypeBatch" using ok by (simp add: auctionOK_def BatchAuction)
      then have "ExecuteStartedStatus k a s = CloseBatchAuction k a s"
        using late ends by (simp add: ExecuteStartedStatus_def run_simps ShouldAuctionClosed_def)
      moreover obtain t where t: "CloseBatchAuction k a s = (Ok (), t)" "stepped k i s t"
        "GetAuction i t = Some (closedAs a)
          \<or> GetAuction i t = Some (extended s a) \<and> length (ba_EndTimes ba) \<le> unat mx"
        using CloseBatchAuction_Inv [OF inv a st BatchAuction] by blast
      moreover have "oneMoreRound a (extended s a)" if "length (ba_EndTimes ba) \<le> unat mx"
        using that uint_ge_0 [of "ExtendedPeriod (params s)"]
        by (auto simp: oneMoreRound_def BatchAuction extended_def addDays_def
            intro!: exI [of _ "addDays (last (ba_EndTimes ba)) (uint (ExtendedPeriod (params s)))"])
      ultimately show ?thesis using late st by (auto simp: evolves_def)
    qed
  qed
qed

lemma ExecuteVestingStatus_Inv:
  assumes inv: "Inv k s" and a: "GetAuction i s = Some a" and st: "ba_Status (base a) = AuctionStatusVesting"
    and x: "GetAuctioneer k a = Some x"
  shows "\<exists>t. ExecuteVestingStatus k a s = (Ok (), t) \<and> stepped k i s t
    \<and> moved k (VestingReserveAddress k i) x (ba_PayingCoinDenom (base a))
        (dueCoins (BlockTime s) (GetVestingQueuesByAuctionId i s)) (bank s) (bank t)
    \<and> GetVestingQueuesByAuctionId i t = map (releasedAt (BlockTime s)) (GetVestingQueuesByAuctionId i s)
    \<and> GetAuction i t = Some
        (if GetVestingQueuesByAuctionId i s \<noteq> [] \<and> ShouldRelease (last (GetVestingQueuesByAuctionId i s)) (BlockTime s)
         then SetStatus AuctionStatusFinished a else a)"
proof -
  let ?qs = "GetVestingQueuesByAuctionId i s"
  have dist: "distinct (map vq_ReleaseTime ?qs)"
    using queues_sorted [OF InvD(1) [OF inv], of i] by (simp add: strict_sorted_iff)
  have all: "map (releasedIn now (set qs)) qs = map (releasedAt now) qs" for now qs
    by (simp add: releasedIn_def)
  have "ExecuteVestingStatus k a s = mustM (releaseLoop k a ?qs) s"
    using InvD(2) [OF inv a] by (simp add: ExecuteVestingStatus_def ReleaseVestingPayingCoin_def run_simps auctionOK_def)
  moreover obtain t where t: "releaseLoop k a ?qs s = (Ok (), t)"
    and post: "stepped k i s t \<and> moved k (VestingReserveAddress k i) x (ba_PayingCoinDenom (base a))
        (dueCoins (BlockTime s) ?qs) (bank s) (bank t)
      \<and> GetVestingQueuesByAuctionId i t = map (releasedAt (BlockTime s)) ?qs
      \<and> GetAuction i t = Some (if ?qs \<noteq> [] \<and> ShouldRelease (last ?qs) (BlockTime s)
          then SetStatus AuctionStatusFinished a else a)"
    using releaseLoop_run [OF inv a st _ dist x] unfolding all by blast
  ultimately have "ExecuteVestingStatus k a s = (Ok (), t)" by (simp add: monad_simps)
  then show ?thesis using post by blast
qed

lemma executeAuction_Inv:
  assumes inv: "Inv k s" and a: "GetAuction i s = Some a"
  shows "\<exists>t a'. executeAuction k a s = (Ok (), t) \<and> stepped k i s t \<and> GetAuction i t = Some a'
    \<and> evolves (BlockTime s) a a'"
proof (cases "ba_Status (base a)")
  case AuctionStatusStandBy
  then show ?thesis using ExecuteStandByStatus_Inv [OF inv a] by (auto simp: executeAuction_def evolves_def)
next
  case AuctionStatusStarted
  then show ?thesis using ExecuteStartedStatus_Inv [OF inv a] by (simp add: executeAuction_def)
next
  case AuctionStatusVesting
  obtain x where "GetAuctioneer k a = Some x" by (rule auctioneer_decodes [OF InvD(2) [OF inv a]])
  from ExecuteVestingStatus_Inv [OF inv a AuctionStatusVesting this] AuctionStatusVesting show ?thesis
    by (auto simp: executeAuction_def evolves_def)
qed (use inv a in \<open>simp_all add: executeAuction_def run_simps stepped_def evolves_def\<close>)

section \<open>The begin blocker\<close>

lemma executeAll_Inv:
  assumes "Inv k s" and "\<forall>a \<in> set as. GetAuction (GetId a) s = Some a" and "distinct (map GetId as)"
  shows "\<exists>t. foreachM (executeAuction k) as s = (Ok (), t) \<and> Inv k t \<and> BlockTime t = BlockTime s
    \<and> (\<forall>a \<in> set as. \<exists>a'. GetAuction (GetId a) t = Some a' \<and> evolves (BlockTime s) a a')
    \<and> (\<forall>j. j \<notin> GetId ` set as \<longrightarrow> GetAuction j t = GetAuction j s)"
  using assms
proof (induction as arbitrary: s)
  case Nil
  then show ?case by (simp add: run_simps)
next
  case (Cons a as)
  obtain u a' where u: "executeAuction k a s = (Ok (), u)" "stepped k (GetId a) s u"
    "GetAuction (GetId a) u = Some a'" "evolves (BlockTime s) a a'"
    using executeAuction_Inv [OF Cons.prems(1), of "GetId a" a] Cons.prems(2) by auto
  have new: "GetId b \<noteq> GetId a" if "b \<in> set as" for b
    using Cons.prems(3) that by (metis distinct.simps(2) image_eqI list.set_map list.simps(9))
  have "Inv k u" "\<forall>b \<in> set as. GetAuction (GetId b) u = Some b" "BlockTime u = BlockTime s"
    using u(2) Cons.prems(2) new by (simp_all add: stepped_def)
  then obtain t where t: "foreachM (executeAuction k) as u = (Ok (), t)" "Inv k t" "BlockTime t = BlockTime s"
    "\<forall>a \<in> set as. \<exists>a'. GetAuction (GetId a) t = Some a' \<and> evolves (BlockTime s) a a'"
    "\<forall>j. j \<notin> GetId ` set as \<longrightarrow> GetAuction j t = GetAuction j u"
    using Cons.IH [of u] Cons.prems(3) by auto
  have "GetId a \<notin> GetId ` set as" using Cons.prems(3) by simp
  then have "GetAuction (GetId a) t = Some a'" using t(5) u(3) by metis
  moreover have "foreachM (executeAuction k) (a # as) s = (Ok (), t)" using u(1) t(1) by (simp add: run_simps)
  moreover have "GetAuction j t = GetAuction j s" if "j \<notin> GetId ` set (a # as)" for j
    using that t(5) u(2) by (simp add: stepped_def)
  ultimately show ?case using t(2,3,4) u(4) by auto
qed

lemma listed_auctions:
  assumes "Inv k s"
  shows "map GetId (GetAuctions s) = map fst (Auctions s)"
    and "a \<in> set (GetAuctions s) \<longleftrightarrow> GetAuction (GetId a) s = Some a"
    and "GetAuction i s = Some a \<Longrightarrow> GetId a = i \<and> a \<in> set (GetAuctions s)"
proof -
  have wf: "owf (Auctions s)" using InvD(1) [OF assms] by (simp add: storeOK_def)
  have key: "GetId a = i" if "(i, a) \<in> set (Auctions s)" for i a
  proof -
    have "GetAuction i s = Some a" using that oget_mem [OF wf] by (simp add: GetAuction_def)
    then show ?thesis using InvD(2) [OF assms] by (simp add: auctionOK_def)
  qed
  then show "map GetId (GetAuctions s) = map fst (Auctions s)"
    unfolding GetAuctions_def oiter_True map_map by (intro map_cong) auto
  show "a \<in> set (GetAuctions s) \<longleftrightarrow> GetAuction (GetId a) s = Some a" for a
    using key wf by (force simp: GetAuctions_def oiter_True GetAuction_def simp flip: oget_mem)
  show "GetAuction i s = Some a \<Longrightarrow> GetId a = i \<and> a \<in> set (GetAuctions s)"
    using key wf by (force simp: GetAuctions_def oiter_True GetAuction_def simp flip: oget_mem)
qed

lemma BeginBlocker_Inv:
  assumes inv: "Inv k s"
  shows "\<exists>t. BeginBlocker k s = (Ok (), t) \<and> Inv k t \<and> BlockTime t = BlockTime s
    \<and> (\<forall>i. case GetAuction i s of None \<Rightarrow> GetAuction i t = None
         | Some a \<Rightarrow> \<exists>a'. GetAuction i t = Some a' \<and> evolves (BlockTime s) a a')"
proof -
  let ?as = "GetAuctions s"
  have "distinct (map GetId ?as)"
    unfolding listed_auctions(1) [OF inv] using InvD(1) [OF inv] by (simp add: storeOK_def owf_distinct)
  moreover have "\<forall>a \<in> set ?as. GetAuction (GetId a) s = Some a" using listed_auctions(2) [OF inv] by blast
  ultimately obtain t where t: "foreachM (executeAuction k) ?as s = (Ok (), t)" "Inv k t" "BlockTime t = BlockTime s"
    "\<forall>a \<in> set ?as. \<exists>a'. GetAuction (GetId a) t = Some a' \<and> evolves (BlockTime s) a a'"
    "\<forall>j. j \<notin> GetId ` set ?as \<longrightarrow> GetAuction j t = GetAuction j s"
    using executeAll_Inv [OF inv, of ?as] by blast
  have "case GetAuction i s of None \<Rightarrow> GetAuction i t = None
         | Some a \<Rightarrow> \<exists>a'. GetAuction i t = Some a' \<and> evolves (BlockTime s) a a'" for i
  proof (cases "GetAuction i s")
    case None
    have "i \<notin> GetId ` set ?as" using None listed_auctions(2) [OF inv] by auto
    then show ?thesis using t(5) None by simp
  next
    case (Some a)
    then show ?thesis using t(4) listed_auctions(3) [OF inv Some] by auto
  qed
  then show ?thesis using t(1,2,3) by (simp add: BeginBlocker_def run_simps)
qed

end

end
