(* ===== verification/Chain.thy ===== *)
theory Chain
  imports Blocks
begin

text \<open>
  The module in operation: the transitions of the chain's state that the module takes part in, the
  states they reach, and the invariant of these states.

  A transition is a delivered message, a begin block, a call of another module (allowed bidders,
  parameters), or anything other modules do to the bank that does not take coins from a reserve. A
  message or call that fails is no transition: the application discards its writes.

  The locale \<open>invariant_system\<close> is the general rule that an inductive invariant holds in every
  reachable state; the locale \<open>fundraising\<close> is shown to be an instance of it.
\<close>

section \<open>Transition systems\<close>

locale invariant_system =
  fixes start :: "'s \<Rightarrow> bool" and step :: "'s \<Rightarrow> 's \<Rightarrow> bool" and inv :: "'s \<Rightarrow> bool"
  assumes inv_start: "start s \<Longrightarrow> inv s"
    and inv_step: "inv s \<Longrightarrow> step s t \<Longrightarrow> inv t"
begin

lemma inv_steps:
  assumes "step\<^sup>*\<^sup>* s t" and "inv s"
  shows "inv t"
  using assms by (induction rule: rtranclp_induct) (auto intro: inv_step)

lemma inv_reachable:
  assumes "start s" and "step\<^sup>*\<^sup>* s t"
  shows "inv t"
  using assms by (blast intro: inv_steps inv_start)

text \<open>A reflexive and transitive relation that every step from an invariant state respects holds
  between any state and those after it.\<close>

lemma steps_relate:
  assumes "step\<^sup>*\<^sup>* s t" and "inv s" and "\<And>s. R s s" and "\<And>s t u. R s t \<Longrightarrow> R t u \<Longrightarrow> R s u"
    and "\<And>s t. inv s \<Longrightarrow> step s t \<Longrightarrow> R s t"
  shows "R s t"
  using assms(1,2)
proof (induction rule: rtranclp_induct)
  case (step t u)
  then show ?case using assms(4,5) inv_steps by blast
qed (rule assms(3))

end

section \<open>The transitions\<close>

definition emptyStore :: "'b state \<Rightarrow> bool" where
  "emptyStore s \<longleftrightarrow> Auctions s = [] \<and> AllowedBidders s = [] \<and> Bids s = [] \<and> BidIndex s = []
     \<and> VestingQueues s = [] \<and> MatchedBidsLens s = [] \<and> LastBidIds s = [] \<and> LastAuctionId s = 0"

text \<open>Nobody signs for a reserve address. A bidder is named by the canonical text of his address:
  the library also decodes other spellings of it, under which his limit is not found at the close.\<close>

definition outsider :: "'a sdk_scheme \<Rightarrow> string \<Rightarrow> bool" where
  "outsider S t \<longleftrightarrow> (case AccAddressFromBech32 S t of None \<Rightarrow> True | Some x \<Rightarrow> x \<notin> reserveSet S)"

definition canonical :: "'a sdk_scheme \<Rightarrow> string \<Rightarrow> bool" where
  "canonical S t \<longleftrightarrow> (case AccAddressFromBech32 S t of None \<Rightarrow> True | Some x \<Rightarrow> AccAddressString S x = t)"

fun admissible :: "'a sdk_scheme \<Rightarrow> 'b state \<Rightarrow> Msg \<Rightarrow> bool" where
  "admissible S s (CreateFixedPriceAuctionMsg m) \<longleftrightarrow>
     outsider S (mf_Auctioneer m) \<and> unat (LastAuctionId s) + 1 < 2 ^ 64"
| "admissible S s (CreateBatchAuctionMsg m) \<longleftrightarrow>
     outsider S (mb_Auctioneer m) \<and> unat (LastAuctionId s) + 1 < 2 ^ 64"
| "admissible S s (CancelAuctionMsg m) \<longleftrightarrow> True"
| "admissible S s (PlaceBidMsg m) \<longleftrightarrow>
     outsider S (mp_Bidder m) \<and> canonical S (mp_Bidder m) \<and> unat (GetLastBidId (mp_AuctionId m) s) + 1 < 2 ^ 64"
| "admissible S s (ModifyBidMsg m) \<longleftrightarrow> outsider S (mm_Bidder m)"
| "admissible S s (AddAllowedBidderMsg m) \<longleftrightarrow> canonical S (ab_Bidder (ma_AllowedBidder m))"
| "admissible S s OtherMsg \<longleftrightarrow> True"

inductive chainStep :: "('b, 'z) keeper_scheme \<Rightarrow> 'b state \<Rightarrow> 'b state \<Rightarrow> bool" for k where
  deliver: "Msg_ValidateBasic k msg = Ok () \<Longrightarrow> admissible k s msg \<Longrightarrow> NewHandler k msg s = (Ok evs, t)
    \<Longrightarrow> chainStep k s t"
| beginBlock: "BlockTime s \<le> now \<Longrightarrow> BeginBlocker k (s\<lparr>BlockTime := now\<rparr>) = (Ok u, t) \<Longrightarrow> chainStep k s t"
| addBidders: "\<forall>ab \<in> set bidders. canonical k (ab_Bidder ab) \<Longrightarrow>
    AddAllowedBidders k i bidders s = (Ok u, t) \<Longrightarrow> chainStep k s t"
| updateBidder: "UpdateAllowedBidder k i x m s = (Ok u, t) \<Longrightarrow> chainStep k s t"
| changeParams: "SetParams k p s = (Ok u, t) \<Longrightarrow> chainStep k s t"
| elsewhere: "\<forall>y \<in> reserveSet k. \<forall>d. spendable k y d s \<le> SpendableAmountOf k b y d \<Longrightarrow>
    chainStep k s (s\<lparr>bank := b\<rparr>)"

definition reachable :: "('b, 'z) keeper_scheme \<Rightarrow> 'b state \<Rightarrow> bool" where
  "reachable k t \<longleftrightarrow> (\<exists>s. emptyStore s \<and> (chainStep k)\<^sup>*\<^sup>* s t)"

section \<open>The invariant is inductive\<close>

lemma Inv_same:
  assumes "Inv k s" and "Auctions t = Auctions s" and "AllowedBidders t = AllowedBidders s" and "Bids t = Bids s"
    and "VestingQueues t = VestingQueues s" and "LastBidIds t = LastBidIds s" and "LastAuctionId t = LastAuctionId s"
    and "\<forall>y \<in> reserveSet k. \<forall>d. spendable k y d s \<le> spendable k y d t"
  shows "Inv k t"
proof -
  have "storeOK k t" using InvD(1) [OF assms(1)] assms(2-5) by (simp add: storeOK_def)
  moreover have "sameSlice k s t j" for j
    using assms(2-) by (auto simp: sameSlice_def GetAuction_def GetBidsByAuctionId_def
        GetVestingQueuesByAuctionId_def GetLastBidId_def GetAllowedBidder_def reserveSet_def)
  then have "auctionInv k t j" for j using assms(1) by (metis Inv_def auctionInv_frame)
  ultimately show ?thesis by (simp add: Inv_def)
qed

lemma Inv_events: "Inv k s \<Longrightarrow> Inv k (s\<lparr>events := e\<rparr>)"
  by (erule Inv_same) (simp_all add: spendable_def)

lemma NewHandler_Ok:
  assumes "NewHandler k msg s = (Ok evs, t)"
  obtains u where "handleMsg k msg (s\<lparr>events := []\<rparr>) = (Ok (), u)" and "t = u\<lparr>events := events s\<rparr>" and "evs = events u"
  using assms by (auto simp: NewHandler_def Let_def Ok_iffs split: prod.splits)

context fundraising
begin

lemma emptyStore_Inv: "emptyStore s \<Longrightarrow> Inv k s"
  by (simp add: emptyStore_def Inv_def storeOK_def auctionInv_def GetAuction_def GetBidsByAuctionId_def
      GetVestingQueuesByAuctionId_def)

lemma handleMsg_Inv:
  assumes inv: "Inv k s" and valid: "Msg_ValidateBasic k msg = Ok ()" and adm: "admissible k s msg"
    and run: "handleMsg k msg s = (Ok u, t)"
  shows "Inv k t"
proof (cases msg)
  case (CreateFixedPriceAuctionMsg m)
  then obtain a where "CreateFixedPriceAuction k m s = (Ok a, t)"
    using run by (auto simp: msgServer_CreateFixedPriceAuction_def Ok_iffs)
  then show ?thesis
    using adm valid CreateFixedPriceAuctionMsg
    by (intro CreateFixedPriceAuction_Inv [OF _ inv]) (auto simp: outsider_def)
next
  case (CreateBatchAuctionMsg m)
  then obtain a where "CreateBatchAuction k m s = (Ok a, t)"
    using run by (auto simp: msgServer_CreateBatchAuction_def Ok_iffs)
  then show ?thesis
    using adm valid CreateBatchAuctionMsg
    by (intro CreateBatchAuction_Inv [OF _ inv]) (auto simp: outsider_def)
next
  case (CancelAuctionMsg m)
  then show ?thesis using run CancelAuction_Inv [OF _ inv] by (auto simp: msgServer_CancelAuction_def Ok_iffs)
next
  case (PlaceBidMsg m)
  then obtain b where "PlaceBid k m s = (Ok b, t)" using run by (auto simp: msgServer_PlaceBid_def Ok_iffs)
  then show ?thesis
    using adm valid PlaceBidMsg by (intro PlaceBid_Inv [OF _ inv]) (auto simp: outsider_def canonical_def)
next
  case (ModifyBidMsg m)
  then have "\<exists>u. ModifyBid k m s = (Ok u, t)" using run by (auto simp: msgServer_ModifyBid_def Ok_iffs)
  then show ?thesis
    using adm ModifyBidMsg by (auto simp: outsider_def intro: ModifyBid_Inv [OF _ inv])
next
  case (AddAllowedBidderMsg m)
  then have "\<exists>u. AddAllowedBidders k (ma_AuctionId m) [ma_AllowedBidder m] s = (Ok u, t)"
    using run by (auto simp: msgServer_AddAllowedBidder_def Ok_iffs split: if_splits)
  then show ?thesis
    using adm AddAllowedBidderMsg by (auto simp: canonical_def intro!: AddAllowedBidders_Inv [OF _ inv])
next
  case OtherMsg
  then show ?thesis using run by (simp add: raiseM_def)
qed

lemma chainStep_Inv:
  assumes "Inv k s" and "chainStep k s t"
  shows "Inv k t"
  using assms(2,1)
proof (induction rule: chainStep.induct)
  case (deliver msg s evs t)
  from deliver(3) obtain u where u: "handleMsg k msg (s\<lparr>events := []\<rparr>) = (Ok (), u)" "t = u\<lparr>events := events s\<rparr>"
    by (rule NewHandler_Ok)
  have "admissible k (s\<lparr>events := []\<rparr>) msg" using deliver(2) by (cases msg) (simp_all add: GetLastBidId_def)
  then have "Inv k u" using handleMsg_Inv [OF Inv_events [OF deliver(4)] deliver(1) _ u(1)] by blast
  then show ?case unfolding u(2) by (rule Inv_events)
next
  case (beginBlock s now u t)
  have "Inv k (s\<lparr>BlockTime := now\<rparr>)" by (rule Inv_same [OF beginBlock(3)]) (simp_all add: spendable_def)
  from BeginBlocker_Inv [OF this] obtain t' where "BeginBlocker k (s\<lparr>BlockTime := now\<rparr>) = (Ok (), t')" "Inv k t'"
    by blast
  then show ?case using beginBlock(2) by simp
next
  case (addBidders bidders i s u t)
  show ?case by (rule AddAllowedBidders_Inv [OF addBidders(2,3)]) (use addBidders(1) in \<open>auto simp: canonical_def\<close>)
next
  case (updateBidder i x m s u t)
  then show ?case by (blast intro: UpdateAllowedBidder_Inv)
next
  case (changeParams p s u t)
  then have "t = s\<lparr>params := p\<rparr>" by (auto simp: SetParams_def Ok_iffs)
  then show ?case using Inv_same [OF changeParams(2), of t] by (simp add: spendable_def)
next
  case (elsewhere s b)
  show ?case by (rule Inv_same [OF elsewhere(2)]) (use elsewhere(1) in \<open>auto simp: spendable_def\<close>)
qed

end

sublocale fundraising \<subseteq> chain: invariant_system emptyStore "chainStep k" "Inv k"
  by unfold_locales (auto intro: emptyStore_Inv chainStep_Inv)

context fundraising
begin

lemma reachable_Inv: "reachable k s \<Longrightarrow> Inv k s"
  by (auto simp: reachable_def intro: chain.inv_reachable)

end

section \<open>The module's own invariants\<close>

lemma foldR_keeps: "\<forall>x \<in> set xs. f x n = Ok n \<Longrightarrow> foldR f xs n = Ok n"
  by (induction xs) auto

context fundraising
begin

lemma total_bids:
  assumes "ValidateDenom k d" and "\<forall>b \<in> set bids. 0 \<le> ConvertToPayingAmount k b d"
  shows "foldR (addBidAmount k d) bids (Coin d n) = Ok (Coin d (n + paidIn k d bids))"
  using assms(2)
  by (induction bids arbitrary: n)
    (simp_all add: addBidAmount_def NewCoin_law CoinAdd_law assms(1) paidIn_def)

lemma total_unreleased:
  assumes "\<forall>q \<in> set qs. Denom (vq_PayingCoin q) = d"
  shows "foldR (addUnreleased k) qs (Coin d n) = Ok (Coin d (n + unreleased qs))"
  using assms
  by (induction qs arbitrary: n) (simp_all add: addUnreleased_def CoinAdd_law unreleased_def)

lemma coinOf_reserve:
  assumes "auctionOK k i a" and "ValidateDenom k d"
  shows "coinOf k s (GetSellingReserveAddress k a) d = Ok (Coin d (spendable k (SellingReserveAddress k i) d s))"
    and "coinOf k s (GetPayingReserveAddress k a) d = Ok (Coin d (spendable k (PayingReserveAddress k i) d s))"
    and "coinOf k s (GetVestingReserveAddress k a) d = Ok (Coin d (spendable k (VestingReserveAddress k i) d s))"
  using assms by (simp_all add: coinOf_def reserve_decodes NewCoin_spendable)

lemma pools_not_broken:
  assumes inv: "Inv k s" and a: "GetAuction i s = Some a"
  shows "sellingPoolBroken k s a n = Ok n" and "payingPoolBroken k s a n = Ok n" and "vestingPoolBroken k s a n = Ok n"
proof -
  let ?sd = "Denom (ba_SellingCoin (base a))" and ?pd = "ba_PayingCoinDenom (base a)"
  have ok: "auctionOK k i a" by (rule InvD(2) [OF inv a])
  then have d: "ValidateDenom k ?sd" "ValidateDenom k ?pd" and ida: "ba_Id (base a) = i"
    by (simp_all add: auctionOK_def)
  have fu: "fundsOK k s i a" by (rule InvD(6) [OF inv a])
  have pos: "\<forall>b \<in> set (GetBidsByAuctionId i s). 0 \<le> ConvertToPayingAmount k b ?pd"
    using InvD(4) [OF inv a] bid_amounts(2) by blast
  have qs: "\<forall>q \<in> set (GetVestingQueuesByAuctionId i s). Denom (vq_PayingCoin q) = ?pd"
    using InvD(5) [OF inv a] by blast
  note coins = coinOf_reserve [OF ok d(1)] coinOf_reserve [OF ok d(2)]
  have nonneg: "0 \<le> spendable k x e s" for x e using spendable_nonneg by (simp add: spendable_def)
  show "sellingPoolBroken k s a n = Ok n"
    using fu by (simp add: sellingPoolBroken_def coins CoinIsGTE_law fundsOK_def isOpen_def)
  show "payingPoolBroken k s a n = Ok n"
    using fu nonneg d(2) by (simp add: payingPoolBroken_def Let_def ida NewCoin_law total_bids [OF d(2) pos]
        coins CoinIsGTE_law fundsOK_def isOpen_def)
  show "vestingPoolBroken k s a n = Ok n"
    using fu nonneg d(2) by (simp add: vestingPoolBroken_def Let_def ida NewCoin_law total_unreleased [OF qs]
        coins CoinIsGTE_law fundsOK_def)
qed

lemma AllInvariants_hold:
  assumes inv: "Inv k s"
  shows "AllInvariants k s = Ok False"
proof -
  have as: "GetAuction (GetId a) s = Some a" if "a \<in> set (GetAuctions s)" for a
    using that listed_auctions(2) [OF inv] by blast
  have "foldR (sellingPoolBroken k s) (GetAuctions s) 0 = Ok 0"
    "foldR (payingPoolBroken k s) (GetAuctions s) 0 = Ok 0"
    "foldR (vestingPoolBroken k s) (GetAuctions s) 0 = Ok 0"
    using pools_not_broken [OF inv as] by (auto intro!: foldR_keeps)
  then show ?thesis
    by (simp add: AllInvariants_def SellingPoolReserveAmountInvariant_def PayingPoolReserveAmountInvariant_def
        VestingPoolReserveAmountInvariant_def)
qed

end

section \<open>The life of an auction\<close>

text \<open>The status moves forward only; a finished or cancelled auction stays so.\<close>

fun follows :: "AuctionStatus \<Rightarrow> AuctionStatus \<Rightarrow> bool" where
  "follows AuctionStatusNil st = (st = AuctionStatusNil)"
| "follows AuctionStatusStandBy st = (st \<noteq> AuctionStatusNil)"
| "follows AuctionStatusStarted st =
     (st = AuctionStatusStarted \<or> st = AuctionStatusVesting \<or> st = AuctionStatusFinished)"
| "follows AuctionStatusVesting st = (st = AuctionStatusVesting \<or> st = AuctionStatusFinished)"
| "follows AuctionStatusFinished st = (st = AuctionStatusFinished)"
| "follows AuctionStatusCancelled st = (st = AuctionStatusCancelled)"

lemma follows_refl [simp]: "follows st st"
  by (cases st) simp_all

lemma follows_trans: "follows st st' \<Longrightarrow> follows st' st'' \<Longrightarrow> follows st st''"
  by (cases st; cases st'; cases st'') simp_all

text \<open>The terms of an auction never change: only its status, the end times of added rounds, and the
  remaining amount of a fixed price auction do.\<close>

definition sameTerms :: "AuctionI \<Rightarrow> AuctionI \<Rightarrow> bool" where
  "sameTerms a a' \<longleftrightarrow>
     follows (ba_Status (base a)) (ba_Status (base a'))
   \<and> (\<exists>es. ba_EndTimes (base a') = ba_EndTimes (base a) @ es)
   \<and> base a' = (base a)\<lparr>ba_Status := ba_Status (base a'), ba_EndTimes := ba_EndTimes (base a')\<rparr>
   \<and> (case a of FixedPriceAuction _ r \<Rightarrow> \<exists>b r'. a' = FixedPriceAuction b r' \<and> Denom r' = Denom r
      | BatchAuction _ mn mp mx er \<Rightarrow> \<exists>b. a' = BatchAuction b mn mp mx er)"

lemma sameTerms_refl [simp]: "sameTerms a a"
  by (cases a) (auto simp: sameTerms_def)

lemma sameTerms_trans:
  assumes "sameTerms a b" and "sameTerms b c"
  shows "sameTerms a c"
proof -
  have "follows (ba_Status (base a)) (ba_Status (base c))"
    using assms follows_trans unfolding sameTerms_def by blast
  moreover have "\<exists>es. ba_EndTimes (base c) = ba_EndTimes (base a) @ es"
    using assms unfolding sameTerms_def by (metis append.assoc)
  moreover have "base c = (base a)\<lparr>ba_Status := ba_Status (base c), ba_EndTimes := ba_EndTimes (base c)\<rparr>"
  proof -
    have b: "base b = (base a)\<lparr>ba_Status := ba_Status (base b), ba_EndTimes := ba_EndTimes (base b)\<rparr>"
      and c: "base c = (base b)\<lparr>ba_Status := ba_Status (base c), ba_EndTimes := ba_EndTimes (base c)\<rparr>"
      using assms unfolding sameTerms_def by blast+
    show ?thesis by (subst c, subst b) simp
  qed
  moreover have "case a of FixedPriceAuction _ r \<Rightarrow> \<exists>b r'. c = FixedPriceAuction b r' \<and> Denom r' = Denom r
      | BatchAuction _ mn mp mx er \<Rightarrow> \<exists>b. c = BatchAuction b mn mp mx er"
    using assms unfolding sameTerms_def by (cases a) fastforce+
  ultimately show ?thesis unfolding sameTerms_def by blast
qed

lemma sameTerms_SetStatus: "follows (ba_Status (base a)) st \<Longrightarrow> sameTerms a (SetStatus st a)"
  by (cases a) (auto simp: sameTerms_def SetStatus_def)

lemma evolves_sameTerms:
  assumes "evolves now a a'"
  shows "sameTerms a a'"
proof -
  have "sameTerms a (SetEndTimes (ba_EndTimes (base a) @ es) a)" for es
    by (cases a) (auto simp: sameTerms_def SetEndTimes_def)
  then have round: "oneMoreRound a a' \<Longrightarrow> sameTerms a a'"
    by (cases a) (auto simp: oneMoreRound_def)
  show ?thesis
    using assms round
    by (cases "ba_Status (base a)")
      (auto simp: evolves_def closedAs_def intro!: sameTerms_SetStatus split: if_splits)
qed

definition keepsTerms :: "'b state \<Rightarrow> 'b state \<Rightarrow> bool" where
  "keepsTerms s t \<longleftrightarrow> (\<forall>i a. GetAuction i s = Some a \<longrightarrow> (\<exists>a'. GetAuction i t = Some a' \<and> sameTerms a a'))"

lemma keepsTerms_same: "Auctions t = Auctions s \<Longrightarrow> keepsTerms s t"
  by (simp add: keepsTerms_def GetAuction_def)

lemma keepsTerms_trans: "keepsTerms s t \<Longrightarrow> keepsTerms t u \<Longrightarrow> keepsTerms s u"
  unfolding keepsTerms_def by (blast dest: sameTerms_trans)

lemma keepsTerms_one:
  assumes "GetAuction i s = Some a" and "sameTerms a a'" and "\<And>j. GetAuction j t = (if j = i then Some a' else GetAuction j s)"
  shows "keepsTerms s t"
  using assms by (auto simp: keepsTerms_def)

context fundraising
begin

lemma created_keepsTerms:
  assumes "Inv k s" and "unat (LastAuctionId s) + 1 < 2 ^ 64" and "GetId a = LastAuctionId s + 1"
    and "Auctions t = oset (GetId a) a (Auctions s)"
  shows "keepsTerms s t"
  using fresh_auction [OF assms(1,2)] assms(3,4) by (auto simp: keepsTerms_def GetAuction_def)

lemma placed_keepsTerms:
  assumes "GetAuction (GetId a) s = Some a" and "Auctions t = Auctions (afterPlacing k a b u)" and "Auctions u = Auctions s"
  shows "keepsTerms s t"
proof (cases a)
  case (FixedPriceAuction ba r)
  show ?thesis
    by (rule keepsTerms_one [OF assms(1), of "FixedPriceAuction ba
          (Coin (Denom r) (Amount r - ConvertToSellingAmount k b (ba_PayingCoinDenom ba)))"])
      (use assms FixedPriceAuction in \<open>auto simp: sameTerms_def afterPlacing_def SetAuction_def GetAuction_def\<close>)
next
  case BatchAuction
  then show ?thesis using assms by (intro keepsTerms_same) (simp add: afterPlacing_def)
qed

lemma AddAllowedBidders_Auctions:
  assumes "AddAllowedBidders k i bidders s = (Ok u, t)"
  shows "Auctions t = Auctions s"
proof -
  from assms obtain a where loop: "foreachM (addAllowedBidder k i a) bidders s = (Ok u, t)"
    by (auto simp: AddAllowedBidders_def run_Ok split: option.splits)
  show ?thesis
    by (rule foreachM_invariant [where P = "\<lambda>t. Auctions t = Auctions s", OF loop])
      (auto simp: addAllowedBidder_def run_Ok SetAllowedBidder_Ok)
qed

lemma handleMsg_keepsTerms:
  assumes inv: "Inv k s" and valid: "Msg_ValidateBasic k msg = Ok ()" and adm: "admissible k s msg"
    and run: "handleMsg k msg s = (Ok u, t)"
  shows "keepsTerms s t"
proof (cases msg)
  case (CreateFixedPriceAuctionMsg m)
  then obtain a where run': "CreateFixedPriceAuction k m s = (Ok a, t)"
    using run by (auto simp: msgServer_CreateFixedPriceAuction_def Ok_iffs)
  show ?thesis
    by (rule CreateFixedPriceAuction_Ok [OF run'], use valid CreateFixedPriceAuctionMsg in simp,
        rule created_keepsTerms [OF inv, where a = a])
      (use adm CreateFixedPriceAuctionMsg in \<open>auto simp: SetAuction_def fixedAuctionOf_def baseFor_def\<close>)
next
  case (CreateBatchAuctionMsg m)
  then obtain a where run': "CreateBatchAuction k m s = (Ok a, t)"
    using run by (auto simp: msgServer_CreateBatchAuction_def Ok_iffs)
  show ?thesis
    by (rule CreateBatchAuction_Ok [OF run'], use valid CreateBatchAuctionMsg in simp,
        rule created_keepsTerms [OF inv, where a = a])
      (use adm CreateBatchAuctionMsg in \<open>auto simp: SetAuction_def batchAuctionOf_def baseFor_def\<close>)
next
  case (CancelAuctionMsg m)
  then have "CancelAuction k m s = (Ok (), t)" using run by (auto simp: msgServer_CancelAuction_def Ok_iffs)
  from this inv obtain a x bk ev where a: "GetAuction (mc_AuctionId m) s = Some a"
    and st: "ba_Status (base a) = AuctionStatusStandBy"
    and t: "t = (SetAuction (cancelled a) (s\<lparr>bank := bk\<rparr>))\<lparr>events := ev\<rparr>"
    by (rule CancelAuction_Ok)
  have ok: "auctionOK k (mc_AuctionId m) a" by (rule InvD(2) [OF inv a])
  have "sameTerms a (cancelled a)"
    using st ok by (cases a) (auto simp: sameTerms_def cancelled_def SetStatus_def auctionOK_def)
  then show ?thesis
    using ok by (intro keepsTerms_one [OF a]) (auto simp: t SetAuction_def GetAuction_def cancelled_def auctionOK_def split: AuctionI.splits)
next
  case (PlaceBidMsg m)
  then obtain b where run': "PlaceBid k m s = (Ok b, t)" using run by (auto simp: msgServer_PlaceBid_def Ok_iffs)
  have "mp_ValidateBasic k m = Ok ()" using valid PlaceBidMsg by simp
  from run' inv this obtain a x n c bk bk' bi ev where a: "GetAuction (mp_AuctionId m) s = Some a"
    and ok: "auctionOK k (mp_AuctionId m) a"
    and t: "t = (afterPlacing k a c (s\<lparr>bank := bk', LastBidIds := oset (mp_AuctionId m) n (LastBidIds s)\<rparr>))
      \<lparr>Bids := oset (mp_AuctionId m, n) b (Bids s), BidIndex := bi, events := ev\<rparr>"
    by (rule PlaceBid_Ok)
  show ?thesis
    by (rule placed_keepsTerms [where a = a and b = c and u = "s\<lparr>bank := bk', LastBidIds := oset (mp_AuctionId m) n (LastBidIds s)\<rparr>"]) (use a ok t in \<open>auto simp: auctionOK_def\<close>)
next
  case (ModifyBidMsg m)
  then have "ModifyBid k m s = (Ok (), t)" using run by (auto simp: msgServer_ModifyBid_def Ok_iffs)
  from this inv show ?thesis by (rule ModifyBid_Ok) (auto intro: keepsTerms_same)
next
  case (AddAllowedBidderMsg m)
  then have "\<exists>u. AddAllowedBidders k (ma_AuctionId m) [ma_AllowedBidder m] s = (Ok u, t)"
    using run by (auto simp: msgServer_AddAllowedBidder_def Ok_iffs split: if_splits)
  then show ?thesis using AddAllowedBidders_Auctions keepsTerms_same by blast
next
  case OtherMsg
  then show ?thesis using run by (simp add: raiseM_def)
qed

lemma chainStep_keepsTerms:
  assumes "chainStep k s t" and "Inv k s"
  shows "keepsTerms s t"
  using assms
proof (induction rule: chainStep.induct)
  case (deliver msg s evs t)
  from deliver(3) obtain u where u: "handleMsg k msg (s\<lparr>events := []\<rparr>) = (Ok (), u)" "t = u\<lparr>events := events s\<rparr>"
    by (rule NewHandler_Ok)
  have "admissible k (s\<lparr>events := []\<rparr>) msg" using deliver(2) by (cases msg) (simp_all add: GetLastBidId_def)
  then have "keepsTerms (s\<lparr>events := []\<rparr>) u"
    using handleMsg_keepsTerms [OF Inv_events [OF deliver(4)] deliver(1) _ u(1)] by blast
  then show ?case by (simp add: keepsTerms_def GetAuction_def u(2))
next
  case (beginBlock s now u t)
  have "Inv k (s\<lparr>BlockTime := now\<rparr>)" by (rule Inv_same [OF beginBlock(3)]) (simp_all add: spendable_def)
  from BeginBlocker_Inv [OF this] beginBlock(2)
  have post: "\<forall>i. case GetAuction i (s\<lparr>BlockTime := now\<rparr>) of None \<Rightarrow> GetAuction i t = None
      | Some a \<Rightarrow> \<exists>a'. GetAuction i t = Some a' \<and> evolves (BlockTime (s\<lparr>BlockTime := now\<rparr>)) a a'"
    by auto
  show ?case unfolding keepsTerms_def
  proof (intro allI impI)
    fix i a
    assume "GetAuction i s = Some a"
    then have "GetAuction i (s\<lparr>BlockTime := now\<rparr>) = Some a" by (simp add: GetAuction_def)
    then show "\<exists>a'. GetAuction i t = Some a' \<and> sameTerms a a'"
      using post [rule_format, of i] evolves_sameTerms by auto
  qed
next
  case (addBidders bidders i s u t)
  then show ?case using AddAllowedBidders_Auctions keepsTerms_same by blast
next
  case (updateBidder i x m s u t)
  then show ?case by (auto simp: UpdateAllowedBidder_def run_Ok Let_def SetAllowedBidder_Ok intro!: keepsTerms_same)
next
  case (changeParams p s u t)
  then show ?case by (auto simp: SetParams_def Ok_iffs intro!: keepsTerms_same)
next
  case (elsewhere s b)
  then show ?case by (simp add: keepsTerms_same)
qed

lemma steps_keepTerms:
  assumes "Inv k s" and "(chainStep k)\<^sup>*\<^sup>* s t"
  shows "keepsTerms s t"
  by (rule chain.steps_relate [OF assms(2,1)]) (auto intro: keepsTerms_same keepsTerms_trans chainStep_keepsTerms)

end

end
