(* ===== verification/Pricing.thy ===== *)
theory Pricing
  imports Reference
begin

text \<open>
  The properties of vesting schedules, reserve addresses, bids and matching, stated for every
  implementation of the library that obeys its laws, each with a concrete instance on the reference
  implementation.
\<close>

section \<open>Concrete data\<close>

text \<open>Numbers of the library, given by a whole number.\<close>

abbreviation whole :: "int \<Rightarrow> dec" where
  "whole n \<equiv> Dec (n * decUnit)"

definition worthBid :: "uint64 \<Rightarrow> string \<Rightarrow> int \<Rightarrow> int \<Rightarrow> Bid" where
  "worthBid n bidder p amt =
   \<lparr> bid_AuctionId = 1, bid_Bidder = bidder, bid_Id = n, bid_Type = BidTypeBatchWorth,
     bid_Price = whole p, bid_Coin = Coin ''paying'' amt, bid_IsMatched = False \<rparr>"

definition manyBid :: "uint64 \<Rightarrow> string \<Rightarrow> int \<Rightarrow> int \<Rightarrow> Bid" where
  "manyBid n bidder p amt =
   \<lparr> bid_AuctionId = 1, bid_Bidder = bidder, bid_Id = n, bid_Type = BidTypeBatchMany,
     bid_Price = whole p, bid_Coin = Coin ''selling'' amt, bid_IsMatched = False \<rparr>"

definition limitFor :: "string \<Rightarrow> int \<Rightarrow> AllowedBidder" where
  "limitFor bidder n = \<lparr> ab_Bidder = bidder, ab_MaxBidAmount = Some n \<rparr>"

section \<open>Schedules and addresses\<close>

text \<open>C20. A vesting schedule list is accepted exactly when it is valid: each weight is positive and
  at most one, the weights of a non-empty list add up to one, each release time is after the end of
  the auction, and the release times strictly increase.\<close>

theorem vesting_validation_exact:
  assumes "dec_laws S"
  shows "ValidateVestingSchedules S vs endTime = Ok () \<longleftrightarrow> validSchedules vs endTime"
  using assms by (rule dec_laws.ValidateVestingSchedules_Ok_iff)

theorem vesting_validation_exact_witness:
  "ValidateVestingSchedules reference
     [\<lparr> vs_ReleaseTime = 20, vs_Weight = Dec (decUnit - 1) \<rparr>, \<lparr> vs_ReleaseTime = 30, vs_Weight = Dec 1 \<rparr>] 10
   = Ok ()"
  using vesting_validation_exact [OF ref_dec.dec_laws_axioms]
  by (simp add: validSchedules_def zeroTime_def decUnit_def)

text \<open>C21. The three reserve addresses of an auction differ from each other and from those of every
  other auction, and each reads back from the text form stored in the auction.\<close>

theorem reserve_addresses_distinct:
  assumes "reserve_addresses S" and "i \<noteq> j"
  shows "distinct [SellingReserveAddress S i, PayingReserveAddress S i, VestingReserveAddress S i,
      SellingReserveAddress S j, PayingReserveAddress S j, VestingReserveAddress S j]
    \<and> AccAddressFromBech32 S (AccAddressString S (SellingReserveAddress S i))
        = Some (SellingReserveAddress S i)
    \<and> AccAddressFromBech32 S (AccAddressString S (PayingReserveAddress S i))
        = Some (PayingReserveAddress S i)
    \<and> AccAddressFromBech32 S (AccAddressString S (VestingReserveAddress S i))
        = Some (VestingReserveAddress S i)"
  using assms by (simp add: reserve_addresses.reserve_simps)

theorem reserve_addresses_distinct_witness:
  "distinct [SellingReserveAddress reference 7, PayingReserveAddress reference 7,
     VestingReserveAddress reference 7, SellingReserveAddress reference 8,
     PayingReserveAddress reference 8, VestingReserveAddress reference 8]"
  using reserve_addresses_distinct [OF ref_addr.reserve_addresses_axioms, of 7 8] by simp

section \<open>Bids\<close>

text \<open>The selling amount of a bid, at its price, never exceeds its paying amount, and neither is
  negative: what a bidder reserves pays for what the bid may win.\<close>

theorem paying_amount_covers_selling_amount:
  assumes "dec_laws S" and "0 \<le> Amount (bid_Coin b)" and "0 < mant (bid_Price b)"
  shows "ConvertToSellingAmount S b d * mant (bid_Price b) \<le> ConvertToPayingAmount S b d * decUnit
    \<and> 0 \<le> ConvertToSellingAmount S b d \<and> 0 \<le> ConvertToPayingAmount S b d"
  using assms dec_laws.selling_covered_by_paying dec_laws.ConvertToSellingAmount_nonneg
    dec_laws.ConvertToPayingAmount_nonneg by (metis less_imp_le)

theorem paying_amount_covers_selling_amount_witness:
  "ConvertToSellingAmount reference (worthBid 1 ''alice'' 3 10) ''paying'' * mant (whole 3)
     \<le> ConvertToPayingAmount reference (worthBid 1 ''alice'' 3 10) ''paying'' * decUnit"
  using paying_amount_covers_selling_amount
    [OF ref_dec.dec_laws_axioms, of "worthBid 1 ''alice'' 3 10" "''paying''"]
  by (simp add: worthBid_def)

text \<open>C22. Grouping bids by price never fails; the prices are exactly the prices of the bids, in
  strictly descending order, and the group of a price holds exactly the bids of that price, each as
  often as it occurs.\<close>

theorem bids_by_price_groups:
  assumes "bid_laws S"
  shows "\<exists>prices groups. BidsByPrice S bids = Ok (prices, groups)
    \<and> set prices = bid_Price ` set bids \<and> sorted_wrt (>) prices
    \<and> (\<forall>p. mset (bidsAt S groups p) = mset (filter (\<lambda>b. bid_Price b = p) bids))"
proof -
  obtain prices groups where "BidsByPrice S bids = Ok (prices, groups)"
    and "set prices = bid_Price ` set bids" and "sorted_wrt (>) prices"
    and "\<And>p. bidsAt S groups p = filter (\<lambda>b. bid_Price b = p) (SortBids S bids)"
    using bid_laws.BidsByPrice_spec [OF assms, of bids] by blast
  moreover have "mset (SortBids S bids) = mset bids"
    using assms by (intro sort_laws.SortBids_perm) (simp add: bid_laws_def)
  ultimately show ?thesis by (auto intro: mset_filter_cong)
qed

theorem bids_by_price_groups_witness:
  "\<exists>prices groups. BidsByPrice reference [manyBid 1 ''alice'' 2 10, worthBid 2 ''bob'' 3 30]
      = Ok (prices, groups)
    \<and> set prices = {whole 2, whole 3} \<and> sorted_wrt (>) prices"
  using bids_by_price_groups [OF ref_bids.bid_laws_axioms,
      of "[manyBid 1 ''alice'' 2 10, worthBid 2 ''bob'' 3 30]"]
  by (auto simp: manyBid_def worthBid_def)

section \<open>Matching\<close>


definition exampleBids :: "Bid list" where
  "exampleBids = [manyBid 1 ''alice'' 2 10, manyBid 2 ''alice'' 3 15, worthBid 3 ''bob'' 3 30]"

definition exampleLimits :: "AllowedBidder list" where
  "exampleLimits = [limitFor ''alice'' 20, limitFor ''bob'' 40]"

lemmas example_defs = exampleBids_def exampleLimits_def manyBid_def worthBid_def limitFor_def

lemma example_limits:
  "biddableMap exampleLimits = [(''alice'', Some 20), (''bob'', Some 40)]"
  by (simp add: biddableMap_def exampleLimits_def limitFor_def)

lemma example_matchable: "matchable (biddableMap exampleLimits) exampleBids"
  by (auto simp: matchable_def example_limits isBatchBid_def hasLimit_def limitOf_def
      exampleBids_def manyBid_def worthBid_def)

lemma example_prices: "\<forall>b \<in> set exampleBids. 0 < mant (bid_Price b)"
  by (simp add: exampleBids_def manyBid_def worthBid_def)

text \<open>At price two, alice asks for 25 and may have 20, bob asks for 15.\<close>

lemma example_sold: "soldAt (biddableMap exampleLimits) exampleBids (whole 2) = 35"
  by (simp add: soldAt_def totalSold_def demand_def askAt_def example_limits limitOf_def
      exampleBids_def manyBid_def worthBid_def less_eq_dec_def decUnit_def)


text \<open>C24. The search for the matching price always ends without a panic; its result is empty, or the
  match at the price of one of the bids, and then something is sold and not more than is for sale.\<close>

theorem search_never_oversells:
  assumes "bid_laws S" and "BidsByPrice S bids = Ok (prices, groups)"
    and "matchable (biddableMap allowed) bids" and "\<forall>b \<in> set bids. 0 < mant (bid_Price b)"
    and "0 \<le> sell"
  shows "\<exists>res. findMatch S prices groups sell allowed = Ok res \<and> mr_MatchedAmount res \<le> sell
    \<and> (if mr_MatchPrice res = None
       then res = initMatchResult None
       else \<exists>b \<in> set bids. mr_MatchPrice res = Some (bid_Price b) \<and> 0 < mr_MatchedAmount res
         \<and> Match S (bid_Price b) prices groups sell allowed = Ok (Some res, True))"
proof -
  let ?m = "biddableMap allowed"
  obtain res where run: "findMatch S prices groups sell allowed = Ok res"
    and res: "res = initMatchResult None \<or> (\<exists>p \<in> bid_Price ` set bids. priceFits ?m bids sell p
        \<and> res = matchResultOf ?m p (eligible S groups prices p))"
    using bid_laws.findMatch_sound [OF assms] by blast
  from res show ?thesis
  proof
    assume "res = initMatchResult None"
    then show ?thesis using run assms(5) by (simp add: initMatchResult_def)
  next
    assume "\<exists>p \<in> bid_Price ` set bids. priceFits ?m bids sell p
        \<and> res = matchResultOf ?m p (eligible S groups prices p)"
    then obtain b where b: "b \<in> set bids" "priceFits ?m bids sell (bid_Price b)"
      and r: "res = matchResultOf ?m (bid_Price b) (eligible S groups prices (bid_Price b))" by blast
    have pos: "0 < mant (bid_Price b)" using assms(4) b(1) by blast
    have "Match S (bid_Price b) prices groups sell allowed = Ok (Some res, True)"
      using b(2) by (simp add: bid_laws.Match_eq [OF assms(1-3) pos assms(5)] priceFits_def r)
    moreover have "mr_MatchPrice res = Some (bid_Price b)
        \<and> mr_MatchedAmount res = soldAt ?m bids (bid_Price b)"
      by (simp add: r bid_laws.matchResult_of_bids [OF assms(1-3) pos])
    ultimately show ?thesis using run b by (auto simp: priceFits_def)
  qed
qed

theorem search_never_oversells_witness:
  "\<exists>prices groups res. BidsByPrice reference exampleBids = Ok (prices, groups)
    \<and> findMatch reference prices groups 30 exampleLimits = Ok res \<and> mr_MatchedAmount res \<le> 30"
proof -
  obtain prices groups where g: "BidsByPrice reference exampleBids = Ok (prices, groups)"
    by (rule ref_bids.BidsByPrice_spec [of exampleBids])
  have sell: "(0::int) \<le> 30" by simp
  show ?thesis
    using g search_never_oversells
      [OF ref_bids.bid_laws_axioms g example_matchable example_prices sell] by blast
qed

text \<open>C25. When the bids sell something at each of their prices, the search finds the lowest price
  at which they do not sell more than is for sale: every lower price of a bid would oversell. It
  finds no price only when every price would oversell.\<close>

theorem search_finds_lowest_price:
  assumes "bid_laws S" and "BidsByPrice S bids = Ok (prices, groups)"
    and "matchable (biddableMap allowed) bids" and "\<forall>b \<in> set bids. 0 < mant (bid_Price b)"
    and "0 \<le> sell" and "\<forall>b \<in> set bids. 0 < soldAt (biddableMap allowed) bids (bid_Price b)"
  shows "\<exists>res. findMatch S prices groups sell allowed = Ok res
    \<and> (case mr_MatchPrice res of
         None \<Rightarrow> \<forall>b \<in> set bids. sell < soldAt (biddableMap allowed) bids (bid_Price b)
       | Some p \<Rightarrow> p \<in> bid_Price ` set bids \<and> soldAt (biddableMap allowed) bids p \<le> sell
           \<and> (\<forall>b \<in> set bids. bid_Price b < p
                \<longrightarrow> sell < soldAt (biddableMap allowed) bids (bid_Price b))
           \<and> Match S p prices groups sell allowed = Ok (Some res, True))"
proof -
  let ?m = "biddableMap allowed" and ?P = "bid_Price ` set bids"
  have sold: "\<And>p. p \<in> ?P \<Longrightarrow> 0 < soldAt ?m bids p" using assms(6) by blast
  obtain res where run: "findMatch S prices groups sell allowed = Ok res"
    and res: "if \<exists>p \<in> ?P. soldAt ?m bids p \<le> sell
       then \<exists>p \<in> ?P. soldAt ?m bids p \<le> sell \<and> (\<forall>q \<in> ?P. q < p \<longrightarrow> sell < soldAt ?m bids q)
          \<and> res = matchResultOf ?m p (eligible S groups prices p)
       else res = initMatchResult None"
    using bid_laws.findMatch_lowest [OF assms(1-5) sold] by blast
  show ?thesis
  proof (cases "\<exists>p \<in> ?P. soldAt ?m bids p \<le> sell")
    case False
    then have "mr_MatchPrice res = None" using res by (simp add: initMatchResult_def)
    then show ?thesis using run False by force
  next
    case True
    then obtain p where p: "p \<in> ?P" "soldAt ?m bids p \<le> sell"
        "\<forall>q \<in> ?P. q < p \<longrightarrow> sell < soldAt ?m bids q"
      and r: "res = matchResultOf ?m p (eligible S groups prices p)"
      using res by auto
    have pos: "0 < mant p" using p(1) assms(4) by auto
    have "mr_MatchPrice res = Some p"
      by (simp add: r bid_laws.matchResult_of_bids [OF assms(1-3) pos])
    moreover have "Match S p prices groups sell allowed = Ok (Some res, True)"
      using p(2) sold [OF p(1)] by (simp add: bid_laws.Match_eq [OF assms(1-3) pos assms(5)] r)
    ultimately show ?thesis using run p by simp
  qed
qed

lemma example_sold_high: "soldAt (biddableMap exampleLimits) exampleBids (whole 3) = 25"
  by (simp add: soldAt_def totalSold_def demand_def askAt_def example_limits limitOf_def
      exampleBids_def manyBid_def worthBid_def less_eq_dec_def decUnit_def)

lemma example_all_sold:
  "\<forall>b \<in> set exampleBids. 0 < soldAt (biddableMap exampleLimits) exampleBids (bid_Price b)"
proof -
  have "bid_Price ` set exampleBids = {whole 2, whole 3}"
    by (auto simp: exampleBids_def manyBid_def worthBid_def)
  moreover have "\<forall>p \<in> {whole 2, whole 3}. 0 < soldAt (biddableMap exampleLimits) exampleBids p"
    by (simp only: ball_simps example_sold example_sold_high) simp
  ultimately show ?thesis by (metis image_eqI)
qed

theorem search_finds_lowest_price_witness:
  "\<exists>prices groups res. BidsByPrice reference exampleBids = Ok (prices, groups)
    \<and> findMatch reference prices groups 30 exampleLimits = Ok res
    \<and> (case mr_MatchPrice res of
         None \<Rightarrow> \<forall>b \<in> set exampleBids.
           30 < soldAt (biddableMap exampleLimits) exampleBids (bid_Price b)
       | Some p \<Rightarrow> p \<in> bid_Price ` set exampleBids
           \<and> soldAt (biddableMap exampleLimits) exampleBids p \<le> 30
           \<and> (\<forall>b \<in> set exampleBids. bid_Price b < p
                \<longrightarrow> 30 < soldAt (biddableMap exampleLimits) exampleBids (bid_Price b))
           \<and> Match reference p prices groups 30 exampleLimits = Ok (Some res, True))"
proof -
  obtain prices groups where g: "BidsByPrice reference exampleBids = Ok (prices, groups)"
    by (rule ref_bids.BidsByPrice_spec [of exampleBids])
  have sell: "(0::int) \<le> 30" by simp
  show ?thesis
    using g search_finds_lowest_price [OF ref_bids.bid_laws_axioms g example_matchable
        example_prices sell example_all_sold] by blast
qed

text \<open>C27. Without that condition the search can miss the price it looks for: a bid that is worth less
  than one coin at the highest price makes that price sell nothing, and the search then gives up,
  although a lower price sells within what is for sale. No bidder gets anything.\<close>

definition missedBids :: "Bid list" where
  "missedBids = [worthBid 1 ''alice'' 100 50, manyBid 2 ''bob'' 1 10]"

definition missedLimits :: "AllowedBidder list" where
  "missedLimits = [limitFor ''alice'' 100, limitFor ''bob'' 100]"

lemma descending_pair:
  assumes "sorted_wrt (>) ps" and "set ps = {a, b}" and "b < (a :: dec)"
  shows "ps = [a, b]"
proof -
  have "distinct ps" using assms(1) by (metis strict_sorted_iff sorted_wrt_rev distinct_rev)
  then have "length ps = 2" using assms(2,3) distinct_card [of ps] by simp
  then obtain x y where "ps = [x, y]" by (auto simp: length_Suc_conv numeral_2_eq_2)
  then show ?thesis using assms by (auto simp: doubleton_eq_iff)
qed

theorem search_can_miss_a_matching_price:
  assumes "bid_laws S"
  shows "\<exists>prices groups r. BidsByPrice S missedBids = Ok (prices, groups)
    \<and> findMatch S prices groups 100 missedLimits = Ok (initMatchResult None)
    \<and> Match S (whole 1) prices groups 100 missedLimits = Ok (Some r, True)
    \<and> mr_MatchPrice r = Some (whole 1) \<and> mr_MatchedAmount r = 60"
proof -
  let ?m = "biddableMap missedLimits"
  have m: "?m = [(''alice'', Some 100), (''bob'', Some 100)]"
    by (simp add: biddableMap_def missedLimits_def limitFor_def)
  have ok: "matchable ?m missedBids" and pos: "\<forall>b \<in> set missedBids. 0 < mant (bid_Price b)"
    by (auto simp: matchable_def m isBatchBid_def hasLimit_def limitOf_def missedBids_def
        manyBid_def worthBid_def)
  have sold: "soldAt ?m missedBids (whole 100) = 0" "soldAt ?m missedBids (whole 1) = 60"
    by (simp_all add: soldAt_def totalSold_def demand_def askAt_def m limitOf_def
        missedBids_def manyBid_def worthBid_def less_eq_dec_def decUnit_def)
  obtain prices groups where g: "BidsByPrice S missedBids = Ok (prices, groups)"
    and set: "set prices = bid_Price ` set missedBids" and desc: "sorted_wrt (>) prices"
    by (rule bid_laws.BidsByPrice_spec [OF assms, of missedBids])
  have "set prices = {whole 100, whole 1}"
    by (simp add: set missedBids_def manyBid_def worthBid_def)
  then have p: "prices = [whole 100, whole 1]"
    by (intro descending_pair desc) (simp_all add: less_dec_def)
  have "matchProbe S prices groups 100 missedLimits 1 c = Ok (False, c)" for c
    using bid_laws.matchProbe_eq [OF assms g ok pos, of 100 1 c]
    by (simp add: p ascending_def priceFits_def sold)
  then have "findMatch S prices groups 100 missedLimits = Ok (initMatchResult None)"
    by (simp add: findMatch_def p sortSearch.simps)
  moreover have one: "0 < mant (whole 1)" and sell: "(0::int) \<le> 100" by simp_all
  note bid_laws.Match_eq [OF assms g ok one sell] bid_laws.matchResult_of_bids [OF assms g ok one]
  ultimately show ?thesis using g sold by simp
qed

theorem search_can_miss_a_matching_price_witness:
  "\<exists>prices groups r. BidsByPrice reference missedBids = Ok (prices, groups)
    \<and> findMatch reference prices groups 100 missedLimits = Ok (initMatchResult None)
    \<and> Match reference (whole 1) prices groups 100 missedLimits = Ok (Some r, True)
    \<and> mr_MatchPrice r = Some (whole 1) \<and> mr_MatchedAmount r = 60"
  by (rule search_can_miss_a_matching_price [OF ref_bids.bid_laws_axioms])

text \<open>C28. In a match found by the search, every bidder is charged at least the matching price times
  what he gets and at most what his bids reserved, so no refund is negative and the auctioneer is
  paid the price for everything that is sold.\<close>

theorem charge_between_price_and_reserve:
  assumes "bid_laws S" and "BidsByPrice S bids = Ok (prices, groups)"
    and "matchable (biddableMap allowed) bids" and "\<forall>b \<in> set bids. wellDenominated pd b"
    and "0 \<le> sell" and "findMatch S prices groups sell allowed = Ok res"
    and "oget (mr_MatchResultByBidder res) x = Some br"
  shows "x \<in> bid_Bidder ` set bids \<and> 0 \<le> bmr_PayingAmount br
    \<and> bmr_PayingAmount br \<le> reservedBy S pd bids x
    \<and> (\<exists>p. mr_MatchPrice res = Some p
         \<and> mant p * bmr_MatchedAmount br \<le> bmr_PayingAmount br * decUnit)"
proof -
  let ?m = "biddableMap allowed"
  have prices: "\<forall>b \<in> set bids. 0 < mant (bid_Price b)" using assms(4) by (auto simp: wellDenominated_def)
  have "res \<noteq> initMatchResult None" using assms(7) by (auto simp: initMatchResult_def)
  then obtain p where p: "p \<in> bid_Price ` set bids"
    and r: "res = matchResultOf ?m p (eligible S groups prices p)"
    using bid_laws.findMatch_sound [OF assms(1-3) prices assms(5)] assms(6) by auto
  have pos: "0 < mant p" using p prices by auto
  show ?thesis
    using bid_laws.matched_bidder [OF assms(1-3) pos assms(4), of x br] assms(7)
    by (simp add: r bid_laws.matchResult_of_bids [OF assms(1-3) pos])
qed

lemma example_denominated: "\<forall>b \<in> set exampleBids. wellDenominated ''paying'' b"
  by (simp add: exampleBids_def manyBid_def worthBid_def wellDenominated_def)

theorem charge_between_price_and_reserve_witness:
  "\<exists>prices groups res br. BidsByPrice reference exampleBids = Ok (prices, groups)
    \<and> findMatch reference prices groups 40 exampleLimits = Ok res
    \<and> oget (mr_MatchResultByBidder res) ''bob'' = Some br
    \<and> bmr_MatchedAmount br = 15 \<and> 0 \<le> bmr_PayingAmount br
    \<and> bmr_PayingAmount br \<le> reservedBy reference ''paying'' exampleBids ''bob''"
proof -
  let ?m = "biddableMap exampleLimits"
  obtain prices groups where g: "BidsByPrice reference exampleBids = Ok (prices, groups)"
    by (rule ref_bids.BidsByPrice_spec [of exampleBids])
  have sell: "(0::int) \<le> 40" and pos: "0 < mant (whole 2)" by simp_all
  have prices: "bid_Price ` set exampleBids = {whole 2, whole 3}"
    by (auto simp: exampleBids_def manyBid_def worthBid_def)
  have sold: "\<And>p. p \<in> bid_Price ` set exampleBids \<Longrightarrow> 0 < soldAt ?m exampleBids p"
    using example_all_sold by blast
  have low: "whole 2 \<in> bid_Price ` set exampleBids" "soldAt ?m exampleBids (whole 2) \<le> 40"
    by (simp only: prices) (simp_all add: example_sold)
  obtain res p where run: "findMatch reference prices groups 40 exampleLimits = Ok res"
    and p: "p \<in> bid_Price ` set exampleBids"
      "\<forall>q \<in> bid_Price ` set exampleBids. q < p \<longrightarrow> 40 < soldAt ?m exampleBids q"
    and r: "res = matchResultOf ?m p (eligible reference groups prices p)"
    using ref_bids.findMatch_lowest [OF g example_matchable example_prices sell sold] low
    by (auto split: if_splits)
  have "\<not> whole 2 < p" using p(2) low by auto
  then have two: "p = whole 2" using p(1) by (auto simp: prices less_dec_def)
  have "map_option bmr_MatchedAmount (oget (mr_MatchResultByBidder res) ''bob'') = Some 15"
    unfolding r two ref_bids.matchResult_of_bids [OF g example_matchable pos]
    by (simp add: demand_def askAt_def example_limits limitOf_def exampleBids_def manyBid_def
        worthBid_def less_eq_dec_def decUnit_def)
  then obtain br where br: "oget (mr_MatchResultByBidder res) ''bob'' = Some br" "bmr_MatchedAmount br = 15"
    by auto
  then show ?thesis
    using g run charge_between_price_and_reserve [OF ref_bids.bid_laws_axioms g example_matchable
        example_denominated sell run br(1)] by blast
qed

text \<open>The comparison by which bids are sorted is not an order: for a cheaper bid that was placed
  before a dearer one it says of each that it comes before the other.\<close>

theorem sort_comparison_inconsistent:
  assumes "bid_Price x < bid_Price y" and "bid_Id x < bid_Id y"
  shows "SortBids_less x y \<and> SortBids_less y x \<and> \<not> strictWeakOrder SortBids_less {x, y}"
  using SortBids_less_inconsistent [OF assms] SortBids_less_not_order [OF assms, of "{x, y}"] by simp

theorem sort_comparison_inconsistent_witness:
  "SortBids_less (worthBid 1 ''alice'' 1 5) (worthBid 2 ''bob'' 2 5)
   \<and> SortBids_less (worthBid 2 ''bob'' 2 5) (worthBid 1 ''alice'' 1 5)"
  using sort_comparison_inconsistent [of "worthBid 1 ''alice'' 1 5" "worthBid 2 ''bob'' 2 5"]
  by (simp add: worthBid_def less_dec_def)

end
