(* ===== verification/Scenario.thy ===== *)
theory Scenario
  imports Chain Pricing
begin

text \<open>
  A short run of the module on the reference implementation, evaluated step by step: an auction is
  created, a bidder is allowed and bids. The instances of the properties of the following theories
  use its states.
\<close>

definition startState :: "ledger state" where
  "startState =
   \<lparr> BlockTime = 100, LastAuctionId = 0, LastBidIds = [], Auctions = [], AllowedBidders = [], Bids = [],
     BidIndex = [], MatchedBidsLens = [], VestingQueues = [],
     params = \<lparr> AuctionCreationFee = [Coin ''stake'' 7], PlaceBidFee = [], ExtendedPeriod = 1 \<rparr>,
     bank = (\<lambda>a d. 1000), events = [] \<rparr>"

definition createMsg :: "uint32 \<Rightarrow> MsgCreateBatchAuction" where
  "createMsg mx =
   \<lparr> mb_Auctioneer = ''alice'', mb_StartPrice = whole 1, mb_MinBidPrice = whole 1,
     mb_SellingCoin = Coin ''selling'' 100, mb_PayingCoinDenom = ''paying'',
     mb_VestingSchedules = [\<lparr> vs_ReleaseTime = 300, vs_Weight = whole 1 \<rparr>],
     mb_MaxExtendedRound = mx, mb_ExtendedRoundRate = whole 1, mb_StartTime = 50, mb_EndTime = 200 \<rparr>"

definition theAuction :: "uint32 \<Rightarrow> AuctionI" where
  "theAuction mx = batchAuctionOf reference (createMsg mx) 1 100"

definition createdState :: "uint32 \<Rightarrow> ledger state" where
  "createdState mx = startState\<lparr> LastAuctionId := 1, Auctions := [(1, theAuction mx)],
     bank := snd (refSend (snd (refSend (bank startState) (bytesOf ''alice'') communityPool [Coin ''stake'' 7]))
       (bytesOf ''alice'') (SellingReserveAddress reference 1) [Coin ''selling'' 100]) \<rparr>"

lemma bytesOf_usable: "t \<noteq> [] \<Longrightarrow> length t \<le> 255 \<Longrightarrow> refFromBech32 t = Some (bytesOf t)"
  by (simp add: refFromBech32_def usableAddress_def bytesOf_def)

lemmas exec_defs = NewHandler_def monad_simps Let_def bytesOf_usable GetParams_def bankM_def refSend_def
  covers_def coinsAmount_def sendCoin_def refCoinValidate_def refValidateDenom_def hook_defs EmitEvent_def
  debit_def credit_def communityPool_def

lemmas create_defs = CreateBatchAuction_def GetNextAuctionIdWithUpdate_def GetLastAuctionId_def SetAuctionId_def
  MaxNumVestingSchedules_def MaxExtendedRoundLimit_def mb_GetAuctioneer_def PayCreationFee_def
  ReserveSellingCoin_def SetAuction_def batchAuctionOf_def baseFor_def NewBatchAuction_def NewBaseAuction_def

lemma create_runs:
  assumes "mx \<le> 30"
  shows "\<exists>evs. NewHandler reference (CreateBatchAuctionMsg (createMsg mx)) startState = (Ok evs, createdState mx)"
  using assms by (simp add: not_less msgServer_CreateBatchAuction_def create_defs exec_defs createMsg_def startState_def
      createdState_def theAuction_def)

text \<open>Bob is allowed to buy up to 60 and bids 90 paying coins at price 3.\<close>

definition allowMsg :: MsgAddAllowedBidder where
  "allowMsg = \<lparr> ma_AuctionId = 1, ma_AllowedBidder = limitFor ''bob'' 60 \<rparr>"

definition allowedState :: "uint32 \<Rightarrow> ledger state" where
  "allowedState mx = (createdState mx)\<lparr> AllowedBidders := [((1, addrKey (bytesOf ''bob'')), limitFor ''bob'' 60)] \<rparr>"

definition bidMsg :: MsgPlaceBid where
  "bidMsg = \<lparr> mp_AuctionId = 1, mp_Bidder = ''bob'', mp_BidType = BidTypeBatchWorth, mp_Price = whole 3,
     mp_Coin = Coin ''paying'' 90 \<rparr>"

definition theBid :: Bid where
  "theBid = bidOf bidMsg 1"

definition bidState :: "uint32 \<Rightarrow> ledger state" where
  "bidState mx = (allowedState mx)\<lparr> LastBidIds := [(1, 1)],
     bank := snd (refSend (bank (allowedState mx)) (bytesOf ''bob'') (PayingReserveAddress reference 1) [Coin ''paying'' 90]),
     Bids := [((1, 1), theBid)], BidIndex := [((addrKey (bytesOf ''bob''), 1, 1), ())] \<rparr>"

lemma theAuction_shape: "theAuction mx = BatchAuction (base (theAuction mx)) (whole 1) (Dec 0) mx (whole 1)"
  by (simp add: theAuction_def batchAuctionOf_def createMsg_def)

lemma theAuction_simps:
  "ba_Id (base (theAuction mx)) = 1" "ba_Status (base (theAuction mx)) = AuctionStatusStarted"
  "ba_Type (base (theAuction mx)) = AuctionTypeBatch" "ba_SellingCoin (base (theAuction mx)) = Coin ''selling'' 100"
  "ba_PayingCoinDenom (base (theAuction mx)) = ''paying''" "ba_EndTimes (base (theAuction mx)) = [200]"
  "ba_VestingSchedules (base (theAuction mx)) = [\<lparr> vs_ReleaseTime = 300, vs_Weight = whole 1 \<rparr>]"
  by (simp_all add: theAuction_def batchAuctionOf_def baseFor_def createMsg_def)

lemma createdState_fields:
  "Auctions (createdState mx) = [(1, theAuction mx)]" "AllowedBidders (createdState mx) = []" "BlockTime (createdState mx) = 100"
  by (simp_all add: createdState_def startState_def)

lemma allow_runs: "\<exists>evs. NewHandler reference (AddAllowedBidderMsg allowMsg) (createdState mx) = (Ok evs, allowedState mx)"
  by (simp add: NewHandler_def msgServer_AddAllowedBidder_def AddAllowedBidders_def addAllowedBidder_def SetAllowedBidder_def
      AllowedBidder_GetBidder_def AllowedBidder_Validate_def check_def monad_simps hook_defs createdState_fields allowedState_def
      GetAuction_def allowMsg_def limitFor_def theAuction_simps bytesOf_usable)

lemma case_theAuction:
  "(case theAuction mx of FixedPriceAuction b r \<Rightarrow> f b r | BatchAuction b mn mp mx er \<Rightarrow> g b mn mp mx er)
    = g (base (theAuction mx)) (whole 1) (Dec 0) mx (whole 1)"
  by (subst theAuction_shape) simp

lemma allowedState_fields:
  "Auctions (allowedState mx) = [(1, theAuction mx)]" "Bids (allowedState mx) = []" "BidIndex (allowedState mx) = []"
  "AllowedBidders (allowedState mx) = [((1, addrKey (bytesOf ''bob'')), limitFor ''bob'' 60)]"
  "LastBidIds (allowedState mx) = []" "PlaceBidFee (params (allowedState mx)) = []"
  by (simp_all add: allowedState_def createdState_def startState_def)

lemma bob_pays: "bank (allowedState mx) (bytesOf ''bob'') ''paying'' = 1000"
proof -
  have "bytesOf ''bob'' \<noteq> SellingReserveAddress reference 1"
    by (simp add: reserve_address_alt reserve_name_defs)
  then show ?thesis
    by (simp add: allowedState_def createdState_def startState_def refSend_def debit_def credit_def
        covers_def coinsAmount_def communityPool_def)
qed

lemma bid_buys: "ConvertToSellingAmount reference theBid ''paying'' = 30"
  by (simp add: theBid_def bidOf_def bidMsg_def ConvertToSellingAmount_def decUnit_def)

lemma bid_runs: "\<exists>evs. NewHandler reference (PlaceBidMsg bidMsg) (allowedState mx) = (Ok evs, bidState mx)"
proof -
  have fee: "PayPlaceBidFee reference x s = (Ok (), s)" if "PlaceBidFee (params s) = []" for x s
    using that by (simp add: PayPlaceBidFee_def monad_simps GetParams_def bankM_def refSend_def covers_def
        debit_def credit_def coinsAmount_def)
  let ?s = "(allowedState mx)\<lparr>events := []\<rparr>"
  have valid: "ValidateBatchWorthBid reference (theAuction mx) theBid s = (Ok (), s)"
    if "AllowedBidders s = AllowedBidders (allowedState mx)" for s
    using that bid_buys
    by (simp add: ValidateBatchWorthBid_def checkMaxBidAmount_def monad_simps theAuction_simps
        GetAllowedBidder_def allowedState_fields Bid_GetBidder_def theBid_def bidOf_def bidMsg_def bytesOf_usable limitFor_def)
  have place: "placeByType reference (theAuction mx) (bytesOf ''bob'') theBid s = (Ok theBid,
      s\<lparr>bank := snd (refSend (bank s) (bytesOf ''bob'') (PayingReserveAddress reference 1) [Coin ''paying'' 90])\<rparr>)"
    if "AllowedBidders s = AllowedBidders (allowedState mx)" "bank s = bank (allowedState mx)" for s
    using valid [OF that(1)] that(2) bob_pays
    by (simp add: placeByType_def placeBatchWorthBid_def ReservePayingCoin_def sendCoin_def monad_simps bankM_def
        refSend_def covers_def coinsAmount_def refCoinValidate_def refValidateDenom_def theBid_def bidOf_def bidMsg_def)
  have bid: "\<lparr> bid_AuctionId = mp_AuctionId bidMsg, bid_Bidder = mp_Bidder bidMsg, bid_Id = 1, bid_Type = mp_BidType bidMsg,
      bid_Price = mp_Price bidMsg, bid_Coin = mp_Coin bidMsg, bid_IsMatched = False \<rparr> = theBid"
    by (simp add: theBid_def bidOf_def)
  have msg: "mp_AuctionId bidMsg = 1" "mp_Bidder bidMsg = ''bob''" "mp_Price bidMsg = whole 3"
    "bid_AuctionId theBid = 1" "bid_Id theBid = 1" "bid_Bidder theBid = ''bob''"
    by (simp_all add: bidMsg_def theBid_def bidOf_def)
  have "\<exists>ev. PlaceBid reference bidMsg ?s = (Ok theBid, (bidState mx)\<lparr>events := ev\<rparr>)"
    by (simp add: PlaceBid_def monad_simps GetAuction_def allowedState_fields msg theAuction_simps case_theAuction
        mp_GetBidder_def bytesOf_usable GetAllowedBidder_def fee GetNextBidIdWithUpdate_def GetLastBidId_def
        SetBidId_def bid [unfolded msg] place hook_defs SetBid_def Bid_GetBidder_def EmitEvent_def bidState_def) blast
  then obtain ev where "PlaceBid reference bidMsg ?s = (Ok theBid, (bidState mx)\<lparr>events := ev\<rparr>)" by blast
  then show ?thesis
    by (simp add: NewHandler_def msgServer_PlaceBid_def monad_simps bidState_def)
qed

section \<open>The states are reachable\<close>

lemma outsiders: "outsider reference ''alice''" "outsider reference ''bob''"
proof -
  have "bytesOf t \<notin> reserveSet reference" if "t = ''alice'' \<or> t = ''bob''" for t
    using that by (auto simp: reserveSet_def reservesOf_def reserve_address_alt reserve_name_defs)
  then show "outsider reference ''alice''" "outsider reference ''bob''"
    by (simp_all add: outsider_def bytesOf_usable)
qed

lemma valid_messages:
  "Msg_ValidateBasic reference (CreateBatchAuctionMsg (createMsg mx)) = Ok ()"
  "Msg_ValidateBasic reference (AddAllowedBidderMsg allowMsg) = Ok ()"
  "Msg_ValidateBasic reference (PlaceBidMsg bidMsg) = Ok ()"
  by (simp_all add: ref_msg.mb_ValidateBasic_Ok ref_msg.mp_ValidateBasic_Ok createMsg_def bidMsg_def bytesOf_usable
      refValidateDenom_def validSchedules_def zeroTime_def ma_ValidateBasic_def allowMsg_def limitFor_def
      AllowedBidder_Validate_def check_def)

lemma startState_empty: "emptyStore startState"
  by (simp add: emptyStore_def startState_def)

lemma scenario_steps:
  assumes "mx \<le> 30"
  shows "chainStep reference startState (createdState mx)" "chainStep reference (createdState mx) (allowedState mx)"
  "chainStep reference (allowedState mx) (bidState mx)"
proof -
  obtain e1 e2 e3 where run: "NewHandler reference (CreateBatchAuctionMsg (createMsg mx)) startState = (Ok e1, createdState mx)"
    "NewHandler reference (AddAllowedBidderMsg allowMsg) (createdState mx) = (Ok e2, allowedState mx)"
    "NewHandler reference (PlaceBidMsg bidMsg) (allowedState mx) = (Ok e3, bidState mx)"
    using create_runs [OF assms] allow_runs bid_runs by blast
  show "chainStep reference startState (createdState mx)"
    by (rule chainStep.deliver [OF valid_messages(1) _ run(1)])
      (use outsiders in \<open>simp add: createMsg_def startState_def\<close>)
  show "chainStep reference (createdState mx) (allowedState mx)"
    by (rule chainStep.deliver [OF valid_messages(2) _ run(2)])
      (simp add: canonical_def allowMsg_def limitFor_def bytesOf_usable)
  show "chainStep reference (allowedState mx) (bidState mx)"
    by (rule chainStep.deliver [OF valid_messages(3) _ run(3)])
      (use outsiders in \<open>simp add: canonical_def bidMsg_def bytesOf_usable GetLastBidId_def allowedState_fields\<close>)
qed

lemma scenario_reachable:
  assumes "mx \<le> 30"
  shows "reachable reference (createdState mx)" "reachable reference (allowedState mx)" "reachable reference (bidState mx)"
  using startState_empty scenario_steps [OF assms] unfolding reachable_def
  by (meson rtranclp.rtrancl_into_rtrancl rtranclp.rtrancl_refl)+

lemma scenario_Inv:
  assumes "mx \<le> 30"
  shows "Inv reference (createdState mx)" "Inv reference (allowedState mx)" "Inv reference (bidState mx)"
  using scenario_reachable [OF assms] by (simp_all add: ref_fund.reachable_Inv)

section \<open>A fixed price auction\<close>

definition fixedMsg :: "time \<Rightarrow> MsgCreateFixedPriceAuction" where
  "fixedMsg st =
   \<lparr> mf_Auctioneer = ''alice'', mf_StartPrice = whole 1, mf_SellingCoin = Coin ''selling'' 100,
     mf_PayingCoinDenom = ''paying'', mf_VestingSchedules = [\<lparr> vs_ReleaseTime = 300, vs_Weight = whole 1 \<rparr>],
     mf_StartTime = st, mf_EndTime = 200 \<rparr>"

definition fixedState :: "time \<Rightarrow> ledger state" where
  "fixedState st = startState\<lparr> LastAuctionId := 1,
     Auctions := [(1, fixedAuctionOf reference (fixedMsg st) 1 100)],
     bank := snd (refSend (snd (refSend (bank startState) (bytesOf ''alice'') communityPool [Coin ''stake'' 7]))
       (bytesOf ''alice'') (SellingReserveAddress reference 1) [Coin ''selling'' 100]) \<rparr>"

lemma fixed_runs: "\<exists>evs. NewHandler reference (CreateFixedPriceAuctionMsg (fixedMsg st)) startState = (Ok evs, fixedState st)"
  by (simp add: msgServer_CreateFixedPriceAuction_def CreateFixedPriceAuction_def mf_GetAuctioneer_def
      fixedAuctionOf_def NewFixedPriceAuction_def create_defs exec_defs fixedMsg_def startState_def fixedState_def)

lemma fixed_reachable:
  assumes "st < 200"
  shows "reachable reference (fixedState st)"
proof -
  obtain e where run: "NewHandler reference (CreateFixedPriceAuctionMsg (fixedMsg st)) startState = (Ok e, fixedState st)"
    using fixed_runs by blast
  have "chainStep reference startState (fixedState st)"
    by (rule chainStep.deliver [OF _ _ run])
      (use outsiders assms in \<open>simp_all add: ref_msg.mf_ValidateBasic_Ok fixedMsg_def startState_def bytesOf_usable
        refValidateDenom_def validSchedules_def zeroTime_def\<close>)
  then show ?thesis using startState_empty unfolding reachable_def by blast
qed

text \<open>Bob is allowed to buy up to 60 and buys 40 of the 100.\<close>

definition fixedBidMsg :: MsgPlaceBid where
  "fixedBidMsg = \<lparr> mp_AuctionId = 1, mp_Bidder = ''bob'', mp_BidType = BidTypeFixedPrice, mp_Price = whole 1,
     mp_Coin = Coin ''paying'' 40 \<rparr>"

definition fixedBid :: Bid where
  "fixedBid = SetMatched True (bidOf fixedBidMsg 1)"

definition fixedAllowedState :: "ledger state" where
  "fixedAllowedState = (fixedState 50)\<lparr> AllowedBidders := [((1, addrKey (bytesOf ''bob'')), limitFor ''bob'' 60)] \<rparr>"

definition fixedAuctionLeft :: "int \<Rightarrow> AuctionI" where
  "fixedAuctionLeft n = FixedPriceAuction (base (fixedAuctionOf reference (fixedMsg 50) 1 100)) (Coin ''selling'' n)"

definition fixedBidState :: "ledger state" where
  "fixedBidState = fixedAllowedState\<lparr> LastBidIds := [(1, 1)],
     bank := snd (refSend (bank fixedAllowedState) (bytesOf ''bob'') (PayingReserveAddress reference 1) [Coin ''paying'' 40]),
     Auctions := [(1, fixedAuctionLeft 60)], Bids := [((1, 1), fixedBid)], BidIndex := [((addrKey (bytesOf ''bob''), 1, 1), ())] \<rparr>"

lemma fixedAuction_full: "fixedAuctionOf reference (fixedMsg 50) 1 100 = fixedAuctionLeft 100"
  by (simp add: fixedAuctionLeft_def fixedAuctionOf_def baseFor_def fixedMsg_def NewFixedPriceAuction_def)

lemma fixedAuction_simps:
  "ba_Id (base (fixedAuctionLeft n)) = 1" "ba_Status (base (fixedAuctionLeft n)) = AuctionStatusStarted"
  "ba_Type (base (fixedAuctionLeft n)) = AuctionTypeFixedPrice"
  "ba_SellingCoin (base (fixedAuctionLeft n)) = Coin ''selling'' 100"
  "ba_StartPrice (base (fixedAuctionLeft n)) = whole 1"
  "ba_PayingCoinDenom (base (fixedAuctionLeft n)) = ''paying''"
  by (simp_all add: fixedAuctionLeft_def fixedAuctionOf_def baseFor_def fixedMsg_def)

lemma case_fixedAuction:
  "(case fixedAuctionLeft n of FixedPriceAuction b r \<Rightarrow> f b r | BatchAuction b mn mp mx er \<Rightarrow> g b mn mp mx er)
    = f (base (fixedAuctionLeft n)) (Coin ''selling'' n)"
  "FixedPriceAuction (base (fixedAuctionLeft n)) (Coin ''selling'' m) = fixedAuctionLeft m"
  by (simp_all add: fixedAuctionLeft_def)

lemma fixedAllowed_fields:
  "Auctions fixedAllowedState = [(1, fixedAuctionLeft 100)]" "Bids fixedAllowedState = []" "BidIndex fixedAllowedState = []"
  "AllowedBidders fixedAllowedState = [((1, addrKey (bytesOf ''bob'')), limitFor ''bob'' 60)]"
  "LastBidIds fixedAllowedState = []" "PlaceBidFee (params fixedAllowedState) = []"
  by (simp_all add: fixedAllowedState_def fixedState_def startState_def fixedAuction_full)

lemma fixed_allow_runs:
  "\<exists>evs. NewHandler reference (AddAllowedBidderMsg allowMsg) (fixedState 50) = (Ok evs, fixedAllowedState)"
  by (simp add: NewHandler_def msgServer_AddAllowedBidder_def AddAllowedBidders_def addAllowedBidder_def SetAllowedBidder_def
      AllowedBidder_GetBidder_def AllowedBidder_Validate_def check_def monad_simps hook_defs fixedState_def startState_def
      fixedAllowedState_def fixedAuction_full GetAuction_def allowMsg_def limitFor_def fixedAuction_simps bytesOf_usable)

lemma no_fee: "PlaceBidFee (params s) = [] \<Longrightarrow> PayPlaceBidFee reference x s = (Ok (), s)"
  by (simp add: PayPlaceBidFee_def monad_simps GetParams_def bankM_def refSend_def covers_def
      debit_def credit_def coinsAmount_def)

lemma fixedBid_simps:
  "bid_AuctionId fixedBid = 1" "bid_Id fixedBid = 1" "bid_Bidder fixedBid = ''bob''"
  "bid_Price fixedBid = whole 1" "bid_Coin fixedBid = Coin ''paying'' 40"
  by (simp_all add: fixedBid_def SetMatched_def bidOf_def fixedBidMsg_def)

lemma fixedBid_buys: "ConvertToSellingAmount reference b ''paying'' = 40"
  "ConvertToPayingAmount reference b ''paying'' = 40"
  if "bid_Price b = whole 1" "bid_Coin b = Coin ''paying'' 40"
  using that by (simp_all add: ConvertToSellingAmount_def ConvertToPayingAmount_def decUnit_def)

lemma fixed_bob_pays: "bank fixedAllowedState (bytesOf ''bob'') ''paying'' = 1000"
proof -
  have "bytesOf ''bob'' \<noteq> SellingReserveAddress reference 1"
    by (simp add: reserve_address_alt reserve_name_defs)
  then show ?thesis
    by (simp add: fixedAllowedState_def fixedState_def startState_def refSend_def debit_def credit_def
        covers_def coinsAmount_def communityPool_def)
qed

lemma bind_liftR: "bindM (liftR (Ok x)) f s = f x s"
  by (simp add: bindM_def liftR_def)

lemma fixed_bid_placed:
  assumes "AllowedBidders s = AllowedBidders fixedAllowedState" and "bank s = bank fixedAllowedState"
    and "BidIndex s = []"
  shows "placeFixedPriceBid reference (fixedAuctionLeft 100) (bytesOf ''bob'') (bidOf fixedBidMsg 1) s = (Ok fixedBid,
    SetAuction (fixedAuctionLeft 60) (s\<lparr>bank := snd (refSend (bank s) (bytesOf ''bob'')
      (PayingReserveAddress reference 1) [Coin ''paying'' 40])\<rparr>))"
proof -
  have bid: "bid_AuctionId (bidOf fixedBidMsg 1) = 1" "bid_Bidder (bidOf fixedBidMsg 1) = ''bob''"
    "bid_Price (bidOf fixedBidMsg 1) = whole 1" "bid_Coin (bidOf fixedBidMsg 1) = Coin ''paying'' 40"
    by (simp_all add: bidOf_def fixedBidMsg_def)
  have none: "GetBidsByBidder x s = []" for x
    using assms(3) by (simp add: GetBidsByBidder_def)
  have valid: "ValidateFixedPriceBid reference (fixedAuctionLeft 100) (bidOf fixedBidMsg 1) s = (Ok (), s)"
    using assms(1) none bid
    by (simp add: ValidateFixedPriceBid_def monad_simps fixedAuction_simps fixedBid_buys GetAllowedBidder_def
        fixedAllowed_fields Bid_GetBidder_def bytesOf_usable limitFor_def case_fixedAuction refValidateDenom_def bind_liftR)
  show ?thesis
    using assms(2) fixed_bob_pays bid
    by (simp add: placeFixedPriceBid_def valid monad_simps fixedAuction_simps fixedBid_buys fixedBid_def
        ReservePayingCoin_def sendCoin_def bankM_def refSend_def covers_def coinsAmount_def refCoinValidate_def
        refValidateDenom_def case_fixedAuction)
qed

lemma fixed_bid_runs:
  "\<exists>evs. NewHandler reference (PlaceBidMsg fixedBidMsg) fixedAllowedState = (Ok evs, fixedBidState)"
proof -
  let ?s = "fixedAllowedState\<lparr>events := []\<rparr>"
  have bid: "\<lparr> bid_AuctionId = 1, bid_Bidder = ''bob'', bid_Id = 1, bid_Type = BidTypeFixedPrice,
      bid_Price = Dec decUnit, bid_Coin = Coin ''paying'' 40, bid_IsMatched = False \<rparr> = bidOf fixedBidMsg 1"
    and type: "bid_Type (bidOf fixedBidMsg 1) = BidTypeFixedPrice"
    and msg: "mp_AuctionId fixedBidMsg = 1" "mp_Bidder fixedBidMsg = ''bob''" "mp_BidType fixedBidMsg = BidTypeFixedPrice"
      "mp_Price fixedBidMsg = whole 1" "mp_Coin fixedBidMsg = Coin ''paying'' 40"
    by (simp_all add: bidOf_def fixedBidMsg_def)
  have "\<exists>ev. PlaceBid reference fixedBidMsg ?s = (Ok fixedBid, fixedBidState\<lparr>events := ev\<rparr>)"
    by (simp add: PlaceBid_def monad_simps GetAuction_def fixedAllowed_fields msg fixedAuction_simps
        mp_GetBidder_def bytesOf_usable GetAllowedBidder_def no_fee GetNextBidIdWithUpdate_def GetLastBidId_def
        SetBidId_def bid type placeByType_def fixed_bid_placed hook_defs SetBid_def Bid_GetBidder_def EmitEvent_def
        fixedBid_simps SetAuction_def fixedBidState_def) blast
  then obtain ev where "PlaceBid reference fixedBidMsg ?s = (Ok fixedBid, fixedBidState\<lparr>events := ev\<rparr>)" by blast
  then show ?thesis
    by (simp add: NewHandler_def msgServer_PlaceBid_def monad_simps fixedBidState_def fixedAllowedState_def
        fixedState_def startState_def)
qed

lemma fixed_bid_reachable: "reachable reference fixedBidState"
proof -
  obtain e1 e2 where run: "NewHandler reference (AddAllowedBidderMsg allowMsg) (fixedState 50) = (Ok e1, fixedAllowedState)"
    "NewHandler reference (PlaceBidMsg fixedBidMsg) fixedAllowedState = (Ok e2, fixedBidState)"
    using fixed_allow_runs fixed_bid_runs by blast
  have valid: "Msg_ValidateBasic reference (PlaceBidMsg fixedBidMsg) = Ok ()"
    by (simp add: ref_msg.mp_ValidateBasic_Ok fixedBidMsg_def bytesOf_usable refValidateDenom_def)
  have "chainStep reference (fixedState 50) fixedAllowedState"
    by (rule chainStep.deliver [OF valid_messages(2) _ run(1)])
      (simp add: canonical_def allowMsg_def limitFor_def bytesOf_usable)
  moreover have "chainStep reference fixedAllowedState fixedBidState"
    by (rule chainStep.deliver [OF valid _ run(2)])
      (use outsiders in \<open>simp add: canonical_def fixedBidMsg_def bytesOf_usable GetLastBidId_def fixedAllowed_fields\<close>)
  ultimately show ?thesis using fixed_reachable [of 50] unfolding reachable_def
    by simp (meson rtranclp.rtrancl_into_rtrancl)
qed

text \<open>The begin block after its end leaves it vesting.\<close>

lemma vesting_reachable:
  "\<exists>s a. reachable reference s \<and> GetAuction 1 s = Some a \<and> ba_Status (base a) = AuctionStatusVesting"
proof -
  let ?s = "(fixedState 50)\<lparr>BlockTime := 200\<rparr>" and ?a = "fixedAuctionOf reference (fixedMsg 50) 1 100"
  have "Inv reference ?s"
    by (rule Inv_same [OF ref_fund.reachable_Inv [OF fixed_reachable, of 50]]) (simp_all add: spendable_def)
  from ref_fund.BeginBlocker_Inv [OF this] obtain t where t: "BeginBlocker reference ?s = (Ok (), t)"
    and post: "\<forall>i. case GetAuction i ?s of None \<Rightarrow> GetAuction i t = None
         | Some a \<Rightarrow> \<exists>a'. GetAuction i t = Some a' \<and> evolves (BlockTime ?s) a a'"
    by blast
  have "GetAuction 1 ?s = Some ?a" by (simp add: GetAuction_def fixedState_def)
  then obtain a' where a': "GetAuction 1 t = Some a'" "evolves 200 ?a a'" using post [rule_format, of 1] by auto
  have "ba_Status (base ?a) = AuctionStatusStarted" "ba_EndTimes (base ?a) = [200]"
    "ba_VestingSchedules (base ?a) \<noteq> []" "\<not> oneMoreRound ?a a'"
    by (simp_all add: fixedAuctionOf_def baseFor_def fixedMsg_def oneMoreRound_def)
  then have st: "ba_Status (base a') = AuctionStatusVesting" using a'(2) by (auto simp: evolves_def closedAs_def)
  have "chainStep reference (fixedState 50) t"
    by (rule chainStep.beginBlock [OF _ t]) (simp add: fixedState_def startState_def)
  then have "reachable reference t"
    using fixed_reachable [of 50] unfolding reachable_def by simp (meson rtranclp.rtrancl_into_rtrancl)
  then show ?thesis using a'(1) st by blast
qed

section \<open>Modifying the bid\<close>

definition modifyMsg :: MsgModifyBid where
  "modifyMsg = \<lparr> mm_AuctionId = 1, mm_Bidder = ''bob'', mm_BidId = 1, mm_Price = whole 3, mm_Coin = Coin ''paying'' 120 \<rparr>"

lemma bidState_fields:
  "Auctions (bidState mx) = [(1, theAuction mx)]" "Bids (bidState mx) = [((1, 1), theBid)]"
  by (simp_all add: bidState_def allowedState_fields)

lemma bob_still_pays: "30 \<le> bank (bidState mx) (bytesOf ''bob'') ''paying''"
proof -
  have "bytesOf ''bob'' \<noteq> PayingReserveAddress reference 1"
    by (simp add: reserve_address_alt reserve_name_defs)
  then show ?thesis
    using bob_pays [of mx] by (simp add: bidState_def refSend_def debit_def credit_def covers_def coinsAmount_def)
qed

lemma theBid_simps:
  "bid_AuctionId theBid = 1" "bid_Id theBid = 1" "bid_Bidder theBid = ''bob''" "bid_Type theBid = BidTypeBatchWorth"
  "bid_Price theBid = whole 3" "bid_Coin theBid = Coin ''paying'' 90"
  by (simp_all add: theBid_def bidOf_def bidMsg_def)

lemma modify_runs: "\<exists>t. ModifyBid reference modifyMsg (bidState mx) = (Ok (), t)"
  using bob_still_pays [of mx]
  by (simp add: ModifyBid_def monad_simps GetAuction_def GetBid_def bidState_fields modifyMsg_def theAuction_simps
      theBid_simps case_theAuction Bid_GetBidder_def mm_GetBidder_def bytesOf_usable reserveDifference_def
      ReservePayingCoin_def sendCoin_def refCoinValidate_def refValidateDenom_def bankM_def refSend_def covers_def
      coinsAmount_def hook_defs SetBid_def Let_def)

end
