(* ===== verification/Payoffs.thy ===== *)
theory Payoffs
  imports Scenario
begin

text \<open>
  What the bidders hold after an auction is closed: at a fixed price each receives exactly what his
  bids bought; in a batch auction the refund and the payment of each bidder add up to what his bids
  had reserved. Both rest on the balances after the four payments of a settlement.
\<close>

section \<open>What one address receives\<close>

lemma received_at:
  assumes "owf m" and "AccAddressFromBech32 S x = Some y"
    and "\<forall>e \<in> set m. AccAddressFromBech32 S (fst e) = Some y \<longrightarrow> fst e = x"
  shows "received S m y = (case oget m x of None \<Rightarrow> 0 | Some n \<Rightarrow> n)"
  using assms(1,3)
proof (induction m)
  case (Cons e m)
  show ?case
  proof (cases "fst e = x")
    case True
    then have fresh: "oget m x = None" using Cons.prems(1) by (auto simp: owf_Cons oget_None_keys)
    have "\<forall>e' \<in> set m. AccAddressFromBech32 S (fst e') \<noteq> Some y"
    proof (intro ballI notI)
      fix e' assume e': "e' \<in> set m" and "AccAddressFromBech32 S (fst e') = Some y"
      then have "fst e' = x" using Cons.prems(2) by simp
      then show False using fresh e' by (metis oget_None_keys image_eqI)
    qed
    then have "filter (\<lambda>e. AccAddressFromBech32 S (fst e) = Some y) m = []" by (simp add: filter_empty_conv)
    then show ?thesis using True assms(2) by (cases e) (simp add: received_def)
  next
    case False
    then have "AccAddressFromBech32 S (fst e) \<noteq> Some y" using Cons.prems(2) by auto
    then show ?thesis using Cons False by (cases e) (auto simp: received_def owf_Cons)
  qed
qed (simp add: received_def)

lemma received_None:
  "\<forall>e \<in> set m. AccAddressFromBech32 S (fst e) \<noteq> Some y \<Longrightarrow> received S m y = 0"
  by (simp add: received_def filter_False)

section \<open>Balances after a settlement\<close>

context fundraising
begin

text \<open>The first two payments, in the denomination for sale and in every other one.\<close>

lemma allocate_refund_balances:
  assumes ok: "auctionOK k i a" and pay: "payable k (mi_AllocationMap mi)"
    and covered: "sum_list (map snd (mi_AllocationMap mi))
      \<le> spendable k (SellingReserveAddress k i) (Denom (ba_SellingCoin (base a))) s"
    and x: "GetAuctioneer k a = Some x"
  shows "\<exists>b1 b2. AllocateSellingCoin k a mi s = (Ok (), s\<lparr>bank := b1\<rparr>)
    \<and> RefundRemainingSellingCoin k a (s\<lparr>bank := b1\<rparr>) = (Ok (), s\<lparr>bank := b2\<rparr>)
    \<and> (\<forall>y e. y \<noteq> SellingReserveAddress k i \<longrightarrow> y \<noteq> x \<longrightarrow> SpendableAmountOf k b2 y e = spendable k y e s
        + (if e = Denom (ba_SellingCoin (base a)) then received k (mi_AllocationMap mi) y else 0))
    \<and> (\<forall>y e. e \<noteq> Denom (ba_SellingCoin (base a)) \<longrightarrow> SpendableAmountOf k b2 y e = spendable k y e s)"
proof -
  let ?r = "SellingReserveAddress k i" and ?d = "Denom (ba_SellingCoin (base a))"
  obtain b1 where one: "AllocateSellingCoin k a mi s = (Ok (), s\<lparr>bank := b1\<rparr>)"
    and bal: "\<forall>y e. SpendableAmountOf k b1 y e = spendable k y e s
         - (if y = ?r \<and> e = ?d then sum_list (map snd (mi_AllocationMap mi)) else 0)
         + (if e = ?d then received k (mi_AllocationMap mi) y else 0)"
    using AllocateSellingCoin_run [OF ok pay covered] by blast
  obtain b2 where two: "RefundRemainingSellingCoin k a (s\<lparr>bank := b1\<rparr>) = (Ok (), s\<lparr>bank := b2\<rparr>)"
    and mv: "moved k ?r x ?d (spendable k ?r ?d (s\<lparr>bank := b1\<rparr>)) b1 b2"
    using RefundRemainingSellingCoin_run [OF ok, of "s\<lparr>bank := b1\<rparr>"] x by auto
  have "SpendableAmountOf k b2 y e = SpendableAmountOf k b1 y e" if "y \<noteq> ?r \<and> y \<noteq> x \<or> e \<noteq> ?d" for y e
    using mv that by (auto simp: moved_def)
  then have "\<forall>y e. y \<noteq> ?r \<longrightarrow> y \<noteq> x \<longrightarrow> SpendableAmountOf k b2 y e = spendable k y e s
        + (if e = ?d then received k (mi_AllocationMap mi) y else 0)"
    and "\<forall>y e. e \<noteq> ?d \<longrightarrow> SpendableAmountOf k b2 y e = spendable k y e s"
    using bal by simp_all
  with one two show ?thesis by blast
qed

text \<open>The last payment concerns the reserves and the auctioneer only.\<close>

lemma vesting_balances:
  assumes ok: "auctionOK k i a" and x: "GetAuctioneer k a = Some x"
  shows "\<exists>t. ApplyVestingSchedules k a s = (Ok (), t)
    \<and> (\<forall>y e. y \<noteq> x \<longrightarrow> y \<notin> reservesOf k i \<or> e \<noteq> ba_PayingCoinDenom (base a) \<longrightarrow> spendable k y e t = spendable k y e s)"
proof -
  let ?vs = "ba_VestingSchedules (base a)" and ?d = "ba_PayingCoinDenom (base a)" and ?P = "PayingReserveAddress k i"
  obtain bk t where run: "ApplyVestingSchedules k a s = (Ok (), t)" and t: "bank t = bk"
    and mv: "moved k ?P (if ?vs = [] then x else VestingReserveAddress k i) ?d (spendable k ?P ?d s) (bank s) bk"
    using ApplyVestingSchedules_run [OF ok, of s] x by (auto simp: SetAuction_def split: if_splits)
  have "spendable k y e t = spendable k y e s" if "y \<noteq> x" "y \<notin> reservesOf k i \<or> e \<noteq> ?d" for y e
    using mv that by (auto simp: moved_def spendable_def t reservesOf_def split: if_splits)
  with run show ?thesis by blast
qed

text \<open>A batch settlement and a fixed price settlement, seen by an outsider \<open>y\<close>.\<close>

lemma finishBatch_balances:
  assumes inv: "Inv k s" and a: "GetAuction i s = Some a" and op: "isOpen a"
    and pay: "payable k (mi_AllocationMap mi)" "payable k (mi_RefundMap mi)"
    and sold: "sum_list (map snd (mi_AllocationMap mi)) \<le> Amount (ba_SellingCoin (base a))"
    and repaid: "sum_list (map snd (mi_RefundMap mi)) \<le> paidIn k (ba_PayingCoinDenom (base a)) (GetBidsByAuctionId i s)"
    and x: "GetAuctioneer k a = Some x" and y: "y \<noteq> x" "y \<notin> reservesOf k i"
  shows "\<exists>t. finishBatch k a mi s = (Ok (), t)
    \<and> spendable k y (Denom (ba_SellingCoin (base a))) t
      = spendable k y (Denom (ba_SellingCoin (base a))) s + received k (mi_AllocationMap mi) y
    \<and> spendable k y (ba_PayingCoinDenom (base a)) t
      = spendable k y (ba_PayingCoinDenom (base a)) s + received k (mi_RefundMap mi) y"
proof -
  let ?S = "SellingReserveAddress k i" and ?P = "PayingReserveAddress k i"
  let ?sd = "Denom (ba_SellingCoin (base a))" and ?pd = "ba_PayingCoinDenom (base a)"
  have ok: "auctionOK k i a" by (rule InvD(2) [OF inv a])
  then have dd: "?pd \<noteq> ?sd" by (auto simp: auctionOK_def)
  have fu: "fundsOK k s i a" by (rule InvD(6) [OF inv a])
  have "sum_list (map snd (mi_AllocationMap mi)) \<le> spendable k ?S ?sd s" using fu op sold by (simp add: fundsOK_def)
  from allocate_refund_balances [OF ok pay(1) this x] obtain b1 b2
    where one: "AllocateSellingCoin k a mi s = (Ok (), s\<lparr>bank := b1\<rparr>)"
    and two: "RefundRemainingSellingCoin k a (s\<lparr>bank := b1\<rparr>) = (Ok (), s\<lparr>bank := b2\<rparr>)"
    and b2: "\<forall>y e. y \<noteq> ?S \<longrightarrow> y \<noteq> x \<longrightarrow> SpendableAmountOf k b2 y e = spendable k y e s
        + (if e = ?sd then received k (mi_AllocationMap mi) y else 0)"
    and b2p: "\<forall>y e. e \<noteq> ?sd \<longrightarrow> SpendableAmountOf k b2 y e = spendable k y e s"
    by blast
  have "paidIn k ?pd (GetBidsByAuctionId i s) \<le> spendable k ?P ?pd s" using fu op by (simp add: fundsOK_def)
  then have "sum_list (map snd (mi_RefundMap mi)) \<le> spendable k ?P ?pd (s\<lparr>bank := b2\<rparr>)"
    using repaid b2p dd by (simp add: spendable_def)
  from RefundPayingCoin_run [OF ok pay(2) this] obtain b3
    where three: "RefundPayingCoin k a mi (s\<lparr>bank := b2\<rparr>) = (Ok (), s\<lparr>bank := b3\<rparr>)"
    and b3: "\<forall>y e. SpendableAmountOf k b3 y e = SpendableAmountOf k b2 y e
         - (if y = ?P \<and> e = ?pd then sum_list (map snd (mi_RefundMap mi)) else 0)
         + (if e = ?pd then received k (mi_RefundMap mi) y else 0)"
    by (auto simp: spendable_def)
  obtain t where four: "ApplyVestingSchedules k a (s\<lparr>bank := b3\<rparr>) = (Ok (), t)"
    and t: "\<forall>y e. y \<noteq> x \<longrightarrow> y \<notin> reservesOf k i \<or> e \<noteq> ?pd \<longrightarrow> spendable k y e t = SpendableAmountOf k b3 y e"
    using vesting_balances [OF ok x, of "s\<lparr>bank := b3\<rparr>"] by (auto simp: spendable_def)
  have "finishBatch k a mi s = (Ok (), t)" using one two three four by (simp add: finishBatch_def run_simps)
  moreover have "y \<noteq> ?S" "y \<noteq> ?P" using y(2) by (auto simp: reservesOf_def)
  ultimately show ?thesis using t y b3 b2 dd by auto
qed

lemma CloseFixedPriceAuction_balances:
  assumes inv: "Inv k s" and a: "GetAuction i s = Some a" and op: "isOpen a" and fx: "a = FixedPriceAuction ba r"
    and x: "GetAuctioneer k a = Some x" and y: "y \<noteq> x" "y \<notin> reservesOf k i"
  shows "\<exists>t. CloseFixedPriceAuction k a s = (Ok (), t)
    \<and> spendable k y (Denom (ba_SellingCoin ba)) t = spendable k y (Denom (ba_SellingCoin ba)) s
      + received k (mi_AllocationMap (CalculateFixedPriceAllocation k a s)) y
    \<and> spendable k y (ba_PayingCoinDenom ba) t = spendable k y (ba_PayingCoinDenom ba) s"
proof -
  let ?mi = "CalculateFixedPriceAllocation k a s" and ?d = "Denom (ba_SellingCoin (base a))"
  have ok: "auctionOK k i a" by (rule InvD(2) [OF inv a])
  then have ida: "GetId a = i" and dd: "ba_PayingCoinDenom ba \<noteq> Denom (ba_SellingCoin ba)"
    by (auto simp: auctionOK_def fx)
  have fu: "fundsOK k s i a" by (rule InvD(6) [OF inv a])
  have bids: "\<And>b d. b \<in> set (GetBidsByAuctionId i s) \<Longrightarrow> 0 \<le> ConvertToSellingAmount k b d"
    using InvD(4) [OF inv a] bid_amounts(1) by blast
  have pay: "payable k (mi_AllocationMap ?mi)"
    unfolding fixed_allocation ida by (rule bidders_payable [OF inv a bids])
  have "sum_list (map snd (mi_AllocationMap ?mi)) = soldOut k (ba_PayingCoinDenom ba) (GetBidsByAuctionId i s)"
    unfolding fixed_allocation ida by (simp add: sum_fold_addTo soldOut_def fx)
  then have "sum_list (map snd (mi_AllocationMap ?mi)) \<le> spendable k (SellingReserveAddress k i) ?d s"
    using fu op ok by (simp add: fundsOK_def auctionOK_def fx)
  from allocate_refund_balances [OF ok pay this x] obtain b1 b2
    where one: "AllocateSellingCoin k a ?mi s = (Ok (), s\<lparr>bank := b1\<rparr>)"
    and two: "RefundRemainingSellingCoin k a (s\<lparr>bank := b1\<rparr>) = (Ok (), s\<lparr>bank := b2\<rparr>)"
    and b2: "\<forall>y e. y \<noteq> SellingReserveAddress k i \<longrightarrow> y \<noteq> x \<longrightarrow> SpendableAmountOf k b2 y e = spendable k y e s
        + (if e = ?d then received k (mi_AllocationMap ?mi) y else 0)"
    by blast
  obtain t where three: "ApplyVestingSchedules k a (s\<lparr>bank := b2\<rparr>) = (Ok (), t)"
    and t: "\<forall>y e. y \<noteq> x \<longrightarrow> y \<notin> reservesOf k i \<or> e \<noteq> ba_PayingCoinDenom (base a)
      \<longrightarrow> spendable k y e t = SpendableAmountOf k b2 y e"
    using vesting_balances [OF ok x, of "s\<lparr>bank := b2\<rparr>"] by (auto simp: spendable_def)
  have "CloseFixedPriceAuction k a s = (Ok (), t)"
    using one two three by (simp add: CloseFixedPriceAuction_def run_simps)
  moreover have "y \<noteq> SellingReserveAddress k i" using y(2) by (auto simp: reservesOf_def)
  ultimately show ?thesis using t y b2 dd by (auto simp: fx)
qed

text \<open>The bidders of an auction are named by canonical texts: the payments to one address are the
  entry of its text.\<close>

lemma received_of_bidder:
  assumes inv: "Inv k s" and a: "GetAuction i s = Some a" and m: "owf m"
    and keys: "fst ` set m \<subseteq> bid_Bidder ` set (GetBidsByAuctionId i s)"
    and y: "AccAddressFromBech32 k x = Some y" "AccAddressString k y = x"
  shows "received k m y = (case oget m x of None \<Rightarrow> 0 | Some n \<Rightarrow> n)"
proof (rule received_at [OF m y(1)], intro ballI impI)
  fix e
  assume e: "e \<in> set m" "AccAddressFromBech32 k (fst e) = Some y"
  then obtain b where b: "b \<in> set (GetBidsByAuctionId i s)" "fst e = bid_Bidder b" using keys by blast
  then have "bid_Bidder b = AccAddressString k y" using InvD(4) [OF inv a b(1)] e(2) by (auto simp: bidderAllowed_def)
  then show "fst e = x" using b(2) y(2) by simp
qed

lemma CloseBatchAuction_balances:
  assumes inv: "Inv k s" and a: "GetAuction i s = Some a" and ba: "a = BatchAuction ba mn mp mx er"
    and st: "ba_Status ba = AuctionStatusStarted" and full: "mx + 1 = word_of_nat (length (ba_EndTimes ba))"
    and y: "AccAddressFromBech32 k x = Some y" "AccAddressString k y = x" "GetAuctioneer k a \<noteq> Some y" "y \<notin> reservesOf k i"
  shows "\<exists>prices groups res t. BidsByPrice k (GetBidsByAuctionId i s) = Ok (prices, groups)
    \<and> findMatch k prices groups (Amount (ba_SellingCoin ba)) (GetAllowedBiddersByAuction i s) = Ok res
    \<and> CloseBatchAuction k a s = (Ok (), t)
    \<and> spendable k y (Denom (ba_SellingCoin ba)) t = spendable k y (Denom (ba_SellingCoin ba)) s + matchedFor res x
    \<and> spendable k y (ba_PayingCoinDenom ba) t = spendable k y (ba_PayingCoinDenom ba) s
      + (reservedBy k (ba_PayingCoinDenom ba) (GetBidsByAuctionId i s) x - chargedFor res x)
    \<and> 0 \<le> matchedFor res x \<and> 0 \<le> chargedFor res x
    \<and> chargedFor res x \<le> reservedBy k (ba_PayingCoinDenom ba) (GetBidsByAuctionId i s) x"
proof -
  let ?bids = "GetBidsByAuctionId i s" and ?pd = "ba_PayingCoinDenom ba" and ?sell = "Amount (ba_SellingCoin ba)"
  have sta: "ba_Status (base a) = AuctionStatusStarted" using st by (simp add: ba)
  obtain mi u prices groups res where calc: "CalculateBatchAllocation k a s = (Ok mi, u)" and invu: "Inv k u"
    and u: "Auctions u = Auctions s" "bank u = bank s"
    and info: "goodInfo k ?pd (GetBidsByAuctionId i u) ?sell mi"
    and grp: "BidsByPrice k ?bids = Ok (prices, groups)"
    and find: "findMatch k prices groups ?sell (GetAllowedBiddersByAuction i s) = Ok res"
    and stl: "settles k ?pd ?bids res mi"
    using CalculateBatchAllocation_run [OF inv a sta ba] by blast
  have ok: "auctionOK k i a" by (rule InvD(2) [OF inv a])
  then obtain w where w: "GetAuctioneer k a = Some w" by (auto simp: auctionOK_def GetAuctioneer_def)
  have sell: "0 \<le> ?sell" using ok by (simp add: auctionOK_def ba)
  note mat = stored_bids_matchable [OF inv a [unfolded ba]]
  have good: "goodMatch k ?pd ?bids ?sell res" using findMatch_good [OF grp mat(1,2) sell mat(3)] find by simp
  have keys: "fst ` set (mi_AllocationMap mi) \<subseteq> bid_Bidder ` set ?bids" "fst ` set (mi_RefundMap mi) \<subseteq> bid_Bidder ` set ?bids"
    using stl oget_None_keys unfolding settles_def by (metis option.distinct(1) subsetI)+
  have wf: "owf (mi_AllocationMap mi)" "owf (mi_RefundMap mi)" using stl by (simp_all add: settles_def)
  have none: "matchedFor res x = 0 \<and> chargedFor res x = 0 \<and> reservedBy k ?pd ?bids x = 0" if "x \<notin> bid_Bidder ` set ?bids"
  proof -
    have "x \<notin> fst ` set (mr_MatchResultByBidder res)" using good that by (auto simp: goodMatch_def)
    then have "oget (mr_MatchResultByBidder res) x = None" by (simp add: oget_None_keys)
    moreover have "filter (\<lambda>b. bid_Bidder b = x) ?bids = []" using that by (auto simp: filter_empty_conv)
    ultimately show ?thesis by (simp add: matchedFor_def chargedFor_def reservedBy_def)
  qed
  have paid: "received k (mi_AllocationMap mi) y = matchedFor res x"
    "received k (mi_RefundMap mi) y = reservedBy k ?pd ?bids x - chargedFor res x"
    using received_of_bidder [OF inv a wf(1) keys(1) y(1,2)] received_of_bidder [OF inv a wf(2) keys(2) y(1,2)] stl none
    by (cases "x \<in> bid_Bidder ` set ?bids"; simp add: settles_def)+
  have au: "GetAuction i u = Some a" using a u(1) by (simp add: GetAuction_def)
  have op: "isOpen a" using sta by (simp add: isOpen_def)
  obtain t where fin: "finishBatch k a mi u = (Ok (), t)"
    and t: "spendable k y (Denom (ba_SellingCoin ba)) t = spendable k y (Denom (ba_SellingCoin ba)) s + matchedFor res x"
      "spendable k y ?pd t = spendable k y ?pd s + (reservedBy k ?pd ?bids x - chargedFor res x)"
    using finishBatch_balances [OF invu au op _ _ _ _ w, of mi y] info y(3,4) w paid u(2)
    by (auto simp: goodInfo_def ba spendable_def)
  have "CloseBatchAuction k a s = (Ok (), t)" using calc fin full by (simp add: CloseBatchAuction_def run_simps ba)
  moreover have "0 \<le> reservedBy k ?pd ?bids x" using mat(3) by (intro reservedBy_nonneg) simp
  then have "0 \<le> matchedFor res x \<and> 0 \<le> chargedFor res x \<and> chargedFor res x \<le> reservedBy k ?pd ?bids x"
    using good by (auto simp: goodMatch_def matchedFor_def chargedFor_def split: option.splits simp flip: oget_mem)
  ultimately show ?thesis using t grp find by blast
qed

end

section \<open>Properties\<close>

text \<open>C9. When a fixed price auction closes, every bidder other than its auctioneer and its own reserves
  receives exactly the selling amounts of all his bids, and neither pays nor gets back anything more.\<close>

theorem fixed_price_pays_what_was_bought:
  assumes "fundraising k pool" and "reachable k s" and "GetAuction i s = Some (FixedPriceAuction ba r)"
    and "ba_Status ba = AuctionStatusStarted" and "AccAddressFromBech32 k x = Some y" and "AccAddressString k y = x"
    and "GetAuctioneer k (FixedPriceAuction ba r) \<noteq> Some y" and "y \<notin> reservesOf k i"
  shows "\<exists>t. CloseFixedPriceAuction k (FixedPriceAuction ba r) s = (Ok (), t)
    \<and> spendable k y (Denom (ba_SellingCoin ba)) t = spendable k y (Denom (ba_SellingCoin ba)) s
      + soldOut k (ba_PayingCoinDenom ba) (filter (\<lambda>b. bid_Bidder b = x) (GetBidsByAuctionId i s))
    \<and> spendable k y (ba_PayingCoinDenom ba) t = spendable k y (ba_PayingCoinDenom ba) s"
proof -
  let ?a = "FixedPriceAuction ba r" and ?bids = "GetBidsByAuctionId i s"
  let ?m = "mi_AllocationMap (CalculateFixedPriceAllocation k ?a s)"
  note inv = fundraising.reachable_Inv [OF assms(1,2)]
  have ok: "auctionOK k i ?a" by (rule InvD(2) [OF inv assms(3)])
  then obtain w where w: "GetAuctioneer k ?a = Some w" by (auto simp: auctionOK_def GetAuctioneer_def)
  have ida: "GetId ?a = i" using ok by (simp add: auctionOK_def)
  have m: "?m = fold (\<lambda>b. addTo (bid_Bidder b) (ConvertToSellingAmount k b (ba_PayingCoinDenom ba))) ?bids []"
    unfolding fixed_allocation ida by simp
  have "filter (\<lambda>b. bid_Bidder b = x) ?bids = []" if "x \<notin> bid_Bidder ` set ?bids"
    using that by (auto simp: filter_empty_conv)
  moreover have "received k ?m y = (case oget ?m x of None \<Rightarrow> 0 | Some n \<Rightarrow> n)"
    by (rule fundraising.received_of_bidder [OF assms(1) inv assms(3) _ _ assms(5,6)])
      (simp_all add: m owf_fold_addTo keys_fold_addTo)
  ultimately have "received k ?m y = soldOut k (ba_PayingCoinDenom ba) (filter (\<lambda>b. bid_Bidder b = x) ?bids)"
    by (auto simp: m oget_fold_addTo soldOut_def)
  then show ?thesis
    using fundraising.CloseFixedPriceAuction_balances [OF assms(1) inv assms(3) _ refl w, of y] assms(4,7,8) w
    by (simp add: isOpen_def)
qed

text \<open>C10. When a batch auction closes after its last round, every bidder other than its auctioneer and its
  own reserves receives exactly what the search for the matching price gave him, and gets back exactly
  what his bids had reserved less what he is charged; the charge is between zero and the reserved amount.\<close>

theorem batch_pays_matched_and_refunds_rest:
  assumes "fundraising k pool" and "reachable k s" and "GetAuction i s = Some (BatchAuction ba mn mp mx er)"
    and "ba_Status ba = AuctionStatusStarted" and "length (ba_EndTimes ba) = unat mx + 1"
    and "AccAddressFromBech32 k x = Some y" and "AccAddressString k y = x"
    and "GetAuctioneer k (BatchAuction ba mn mp mx er) \<noteq> Some y" and "y \<notin> reservesOf k i"
  defines "bids \<equiv> GetBidsByAuctionId i s"
  shows "\<exists>prices groups res t. BidsByPrice k bids = Ok (prices, groups)
    \<and> findMatch k prices groups (Amount (ba_SellingCoin ba)) (GetAllowedBiddersByAuction i s) = Ok res
    \<and> CloseBatchAuction k (BatchAuction ba mn mp mx er) s = (Ok (), t)
    \<and> spendable k y (Denom (ba_SellingCoin ba)) t = spendable k y (Denom (ba_SellingCoin ba)) s + matchedFor res x
    \<and> spendable k y (ba_PayingCoinDenom ba) t = spendable k y (ba_PayingCoinDenom ba) s
      + (reservedBy k (ba_PayingCoinDenom ba) bids x - chargedFor res x)
    \<and> 0 \<le> matchedFor res x \<and> 0 \<le> chargedFor res x
    \<and> chargedFor res x \<le> reservedBy k (ba_PayingCoinDenom ba) bids x"
proof -
  note inv = fundraising.reachable_Inv [OF assms(1,2)]
  have full: "mx + 1 = word_of_nat (length (ba_EndTimes ba))" using assms(5) by simp
  show ?thesis
    using fundraising.CloseBatchAuction_balances [OF assms(1) inv assms(3) refl assms(4) full assms(6-9)]
    unfolding bids_def by blast
qed

theorem fixed_price_pays_what_was_bought_witness:
  "\<exists>t. CloseFixedPriceAuction reference (fixedAuctionLeft 60) fixedBidState = (Ok (), t)
    \<and> spendable reference (bytesOf ''bob'') ''selling'' t = spendable reference (bytesOf ''bob'') ''selling'' fixedBidState + 40
    \<and> spendable reference (bytesOf ''bob'') ''paying'' t = spendable reference (bytesOf ''bob'') ''paying'' fixedBidState"
proof -
  have a: "GetAuction 1 fixedBidState = Some (FixedPriceAuction (base (fixedAuctionLeft 60)) (Coin ''selling'' 60))"
    by (simp add: GetAuction_def fixedBidState_def case_fixedAuction)
  have x: "GetAuctioneer reference (fixedAuctionLeft 60) \<noteq> Some (bytesOf ''bob'')"
    by (simp add: fixedAuctionLeft_def fixedAuctionOf_def baseFor_def fixedMsg_def GetAuctioneer_def bytesOf_usable bytesOf_def)
  have y: "bytesOf ''bob'' \<notin> reservesOf reference 1"
    using outsiders(2) by (auto simp: outsider_def bytesOf_usable reserveSet_def)
  have "GetBidsByAuctionId 1 fixedBidState = [fixedBid]"
    by (simp add: GetBidsByAuctionId_def oiter_def fixedBidState_def)
  then have "soldOut reference ''paying'' (filter (\<lambda>b. bid_Bidder b = ''bob'') (GetBidsByAuctionId 1 fixedBidState)) = 40"
    by (simp add: soldOut_def fixedBid_simps fixedBid_buys)
  then show ?thesis
    using fixed_price_pays_what_was_bought [OF ref_fund.fundraising_axioms fixed_bid_reachable a _ _ _ _ y, of "''bob''"] x
    by (simp add: case_fixedAuction fixedAuction_simps bytesOf_usable)
qed

theorem batch_pays_matched_and_refunds_rest_witness:
  "\<exists>prices groups res t. BidsByPrice reference [theBid] = Ok (prices, groups)
    \<and> findMatch reference prices groups 100 [limitFor ''bob'' 60] = Ok res
    \<and> CloseBatchAuction reference (theAuction 0) (bidState 0) = (Ok (), t)
    \<and> spendable reference (bytesOf ''bob'') ''selling'' t
      = spendable reference (bytesOf ''bob'') ''selling'' (bidState 0) + matchedFor res ''bob''"
proof -
  have r: "reachable reference (bidState 0)" by (rule scenario_reachable(3)) simp
  have a: "GetAuction 1 (bidState 0) = Some (BatchAuction (base (theAuction 0)) (whole 1) (Dec 0) 0 (whole 1))"
    using theAuction_shape [of 0] by (simp add: GetAuction_def bidState_def allowedState_fields)
  have y: "bytesOf ''bob'' \<notin> reservesOf reference 1"
    using outsiders(2) by (auto simp: outsider_def bytesOf_usable reserveSet_def)
  have x: "GetAuctioneer reference (theAuction 0) \<noteq> Some (bytesOf ''bob'')"
    by (simp add: theAuction_def batchAuctionOf_def baseFor_def createMsg_def GetAuctioneer_def bytesOf_usable bytesOf_def)
  have b: "GetBidsByAuctionId 1 (bidState 0) = [theBid]" "GetAllowedBiddersByAuction 1 (bidState 0) = [limitFor ''bob'' 60]"
    by (simp_all add: GetBidsByAuctionId_def GetAllowedBiddersByAuction_def oiter_def bidState_def allowedState_fields)
  have sh: "BatchAuction (base (theAuction 0)) (whole 1) (Dec 0) 0 (whole 1) = theAuction 0"
    by (rule theAuction_shape [symmetric])
  have t: "AccAddressFromBech32 reference ''bob'' = Some (bytesOf ''bob'')"
    "AccAddressString reference (bytesOf ''bob'') = ''bob''" "length [200 :: int] = unat (0 :: uint32) + 1"
    by (simp_all add: bytesOf_usable)
  show ?thesis
    using batch_pays_matched_and_refunds_rest [OF ref_fund.fundraising_axioms r a _ _ t(1,2) _ y]
    unfolding sh b theAuction_simps using x t(3) by auto
qed

end
