(* ===== verification/Search.thy ===== *)
theory Search
  imports Pricing
begin

text \<open>
  The cost of the search for the matching price: the closure that \<open>sort.Search\<close> calls is run with a
  counter beside its captured variable. Counting changes neither the index nor the captured result,
  and the search calls \<open>Match\<close> at most once more than the binary logarithm of the number of prices.
\<close>

section \<open>Counting the calls of a test\<close>

definition countedProbe ::
    "(nat \<Rightarrow> 'c \<Rightarrow> (bool \<times> 'c) res) \<Rightarrow> nat \<Rightarrow> nat \<times> 'c \<Rightarrow> (bool \<times> nat \<times> 'c) res" where
  "countedProbe f h st = bindR (f h (snd st)) (\<lambda>(b, c). Ok (b, fst st + 1, c))"

lemma countedProbe_res:
  "countedProbe f h (m, c) = (case f h c of Ok (b, c') \<Rightarrow> Ok (b, m + 1, c') | Err e \<Rightarrow> Err e | Panic \<Rightarrow> Panic)"
  by (cases "f h c") (auto simp: countedProbe_def)

lemma counted_step:
  "sortSearch (countedProbe f) i j (m, c) =
    (if i < j then case f ((i + j) div 2) c of
         Ok (b, d) \<Rightarrow> if b then sortSearch (countedProbe f) i ((i + j) div 2) (m + 1, d)
                     else sortSearch (countedProbe f) ((i + j) div 2 + 1) j (m + 1, d)
       | Err e \<Rightarrow> Err e | Panic \<Rightarrow> Panic
     else Ok (i, m, c))"
  by (subst sortSearch.simps) (auto simp: countedProbe_res split: result.splits)

text \<open>The counter is only carried along.\<close>

lemma counted_sortSearch:
  "sortSearch f i j c = bindR (sortSearch (countedProbe f) i j (m, c)) (\<lambda>(r, st). Ok (r, snd st))"
proof (induction "j - i" arbitrary: i j m c rule: less_induct)
  case less
  show ?case
  proof (cases "i < j")
    case True
    let ?h = "(i + j) div 2"
    have smaller: "?h - i < j - i" "j - (?h + 1) < j - i" using True by auto
    show ?thesis
    proof (cases "f ?h c")
      case (Ok z)
      obtain b d where z: "z = (b, d)" by (cases z)
      have "sortSearch f i j c = (if b then sortSearch f i ?h d else sortSearch f (?h + 1) j d)"
        using True Ok by (subst sortSearch.simps) (simp add: z)
      moreover have "sortSearch (countedProbe f) i j (m, c) = (if b then sortSearch (countedProbe f) i ?h (m + 1, d)
          else sortSearch (countedProbe f) (?h + 1) j (m + 1, d))"
        using True Ok by (subst counted_step) (simp add: z)
      ultimately show ?thesis
        using less [OF smaller(1), of d "m + 1"] less [OF smaller(2), of d "m + 1"] by (cases b) simp_all
    qed (use True in \<open>subst sortSearch.simps, subst counted_step, simp\<close>)+
  qed (simp add: sortSearch.simps [of f i j c] counted_step [of f i j])
qed

text \<open>Every call halves the interval.\<close>

lemma counted_calls:
  assumes "sortSearch (countedProbe f) i j (m, c) = Ok (r, m', c')"
  shows "\<exists>q. m' = m + q \<and> 2 ^ q \<le> max 1 (2 * (j - i))"
  using assms
proof (induction "j - i" arbitrary: i j m c rule: less_induct)
  case less
  show ?case
  proof (cases "i < j")
    case False
    then show ?thesis using less.prems by (auto simp: sortSearch.simps [of _ i j "(m, c)"])
  next
    case True
    define h where "h = (i + j) div 2"
    have h: "i \<le> h" "h < j" using True by (auto simp: h_def)
    obtain b d where b: "f h c = Ok (b, d)"
      and run: "(if b then sortSearch (countedProbe f) i h (m + 1, d)
        else sortSearch (countedProbe f) (h + 1) j (m + 1, d)) = Ok (r, m', c')"
      using less.prems True unfolding counted_step [of f i j] h_def [symmetric]
      by (auto split: result.splits prod.splits)
    have size: "h - i < j - i" "2 * (h - i) \<le> j - i" "j - (h + 1) < j - i" "2 * (j - (h + 1)) \<le> j - i"
      using h by (auto simp: h_def)
    have "\<exists>q n. m' = m + 1 + q \<and> 2 ^ q \<le> max 1 (2 * n) \<and> 2 * n \<le> j - i"
      using less.hyps [OF size(1), of "m + 1" d] less.hyps [OF size(3), of "m + 1" d] run size(2,4)
      by (cases b) (simp_all, blast+)
    then obtain q n where q: "m' = m + 1 + q" "2 ^ q \<le> max 1 (2 * n)" and n: "2 * n \<le> j - i" by blast
    have "(2::nat) ^ (q + 1) \<le> 2 * max 1 (2 * n)" using q(2) by simp
    also have "\<dots> \<le> max 1 (2 * (j - i))" using n True by auto
    finally show ?thesis using q(1) by (intro exI [of _ "q + 1"]) simp
  qed
qed

section \<open>The search for the matching price\<close>

definition countedMatch ::
    "'a sdk_math_scheme \<Rightarrow> dec list \<Rightarrow> (string, Bid list) omap \<Rightarrow> int \<Rightarrow> AllowedBidder list
     \<Rightarrow> (nat \<times> nat \<times> MatchResult) res" where
  "countedMatch S prices bidsByPrice sellingAmt allowedBidders =
     sortSearch (countedProbe (matchProbe S prices bidsByPrice sellingAmt allowedBidders))
       0 (length prices) (0, initMatchResult None)"

lemma findMatch_counted:
  "findMatch S prices groups sell allowed = bindR (countedMatch S prices groups sell allowed) (\<lambda>(r, m, res). Ok res)"
  unfolding findMatch_def countedMatch_def
  by (subst counted_sortSearch [where m = 0])
    (cases "sortSearch (countedProbe (matchProbe S prices groups sell allowed)) 0 (length prices) (0, initMatchResult None)",
      auto)



end
