(* ===== verification/Frames.thy ===== *)
theory Frames
  imports Scenario
begin

text \<open>
  What an operation leaves alone, whatever its outcome. The locale \<open>kept_core\<close> stands for a part of the
  state that most writes do not touch; a computation keeps the part when the state after it, be it
  after success, an error or a panic, has the same part. The extension \<open>kept\<close> adds the vesting queues,
  which only begin blocks write, two others the counters that messages write and the allowed bidders
  that one message writes.
\<close>

section \<open>Keeping a part of the state\<close>

named_theorems keeping \<open>computations that keep a part of the state\<close>

definition keepsPart :: "('s \<Rightarrow> 'c) \<Rightarrow> ('s, 'e, 'a) comp \<Rightarrow> bool" where
  "keepsPart f m \<longleftrightarrow> (\<forall>s. f (snd (m s)) = f s)"

lemma keeps_return [keeping]: "keepsPart f (returnM x)"
  by (simp add: keepsPart_def returnM_def)

lemma keeps_raise [keeping]: "keepsPart f (raiseM e)"
  by (simp add: keepsPart_def raiseM_def)

lemma keeps_panic [keeping]: "keepsPart f panicM"
  by (simp add: keepsPart_def panicM_def)

lemma keeps_gets [keeping]: "keepsPart f (getsM g)"
  by (simp add: keepsPart_def getsM_def)

lemma keeps_lift [keeping]: "keepsPart f (liftR r)"
  by (simp add: keepsPart_def liftR_def)

lemma keeps_guard [keeping]: "keepsPart f (guardM b e)"
  by (simp add: guardM_def keeping)

lemma keeps_modify: "(\<And>s. f (g s) = f s) \<Longrightarrow> keepsPart f (modifyM g)"
  by (simp add: keepsPart_def modifyM_def)

lemma keeps_bind [keeping]:
  assumes "keepsPart f m" and "\<And>x. keepsPart f (g x)"
  shows "keepsPart f (bindM m g)"
  unfolding keepsPart_def
proof
  fix s
  obtain r t where run: "m s = (r, t)" by (cases "m s")
  then have "f t = f s" using assms(1) by (metis keepsPart_def snd_conv)
  then show "f (snd (bindM m g s)) = f s"
    using run assms(2) by (cases r) (simp_all add: bindM_def keepsPart_def)
qed

lemma keeps_must [keeping]:
  assumes "keepsPart f m"
  shows "keepsPart f (mustM m)"
  unfolding keepsPart_def
proof
  fix s
  obtain r t where run: "m s = (r, t)" by (cases "m s")
  then have "f t = f s" using assms by (metis keepsPart_def snd_conv)
  then show "f (snd (mustM m s)) = f s" using run by (cases r) (simp_all add: mustM_def)
qed

lemma keeps_foreach [keeping]: "(\<And>x. keepsPart f (g x)) \<Longrightarrow> keepsPart f (foreachM g xs)"
  by (induction xs) (simp_all add: keeping)

text \<open>The branches of a program.\<close>

lemma keeps_if [keeping]: "keepsPart f m \<Longrightarrow> keepsPart f n \<Longrightarrow> keepsPart f (if b then m else n)"
  by simp

lemma keeps_option [keeping]:
  "keepsPart f m \<Longrightarrow> (\<And>x. keepsPart f (g x)) \<Longrightarrow> keepsPart f (case z of None \<Rightarrow> m | Some x \<Rightarrow> g x)"
  by (cases z) simp_all

lemma keeps_auction [keeping]:
  "(\<And>b r. keepsPart f (g b r)) \<Longrightarrow> (\<And>b mn mp mx er. keepsPart f (h b mn mp mx er))
    \<Longrightarrow> keepsPart f (case a of FixedPriceAuction b r \<Rightarrow> g b r | BatchAuction b mn mp mx er \<Rightarrow> h b mn mp mx er)"
  by (cases a) simp_all

lemma keeps_pair [keeping]: "(\<And>x y. keepsPart f (g x y)) \<Longrightarrow> keepsPart f (case z of (x, y) \<Rightarrow> g x y)"
  by (cases z) simp

section \<open>The part payments leave alone\<close>

definition hooksKeep :: "('b state \<Rightarrow> 'c) \<Rightarrow> ('b, 'z) keeper_scheme \<Rightarrow> bool" where
  "hooksKeep f k \<longleftrightarrow> (\<forall>h c s. khooks k = Some h \<longrightarrow> f (h c s) = f s)"

locale kept_core =
  fixes f :: "'b state \<Rightarrow> 'c" and k :: "('b, 'z) keeper_scheme"
  assumes hooks: "hooksKeep f k"
    and bank: "f (s\<lparr>bank := b\<rparr>) = f s" and events: "f (s\<lparr>events := e\<rparr>) = f s"
    and auctions: "f (s\<lparr>Auctions := as\<rparr>) = f s"
    and bids: "f (s\<lparr>Bids := bs\<rparr>) = f s" and index: "f (s\<lparr>BidIndex := is\<rparr>) = f s"
    and lens: "f (s\<lparr>MatchedBidsLens := ls\<rparr>) = f s"
begin

lemma callHook_keeps: "keepsPart f (callHook k c)"
  using hooks by (cases "khooks k") (simp_all add: callHook_def keeping keeps_modify hooksKeep_def)

lemma bankM_keeps: "keepsPart f (bankM op)"
  by (simp add: keepsPart_def bankM_def bank split: prod.splits option.splits)

lemma sendCoin_keeps: "keepsPart f (sendCoin k x y c)"
  unfolding sendCoin_def by (intro keeping bankM_keeps)

lemma write_keeps:
  "keepsPart f (modifyM (SetAuction a))" "keepsPart f (modifyM (SetMatchedBidsLen i n))" "keepsPart f (EmitEvent e)"
  by (simp_all add: keeps_modify SetAuction_def SetMatchedBidsLen_def EmitEvent_def auctions lens events)

lemma SetBid_keeps: "keepsPart f (SetBid k b)"
  unfolding SetBid_def by (intro keeping keeps_modify bids index)

lemmas steps = keeping callHook_keeps bankM_keeps sendCoin_keeps write_keeps SetBid_keeps

lemma payments_keep:
  "keepsPart f (AllocateSellingCoin k a mi)" "keepsPart f (RefundRemainingSellingCoin k a)"
  "keepsPart f (RefundPayingCoin k a mi)" "keepsPart f (ExtendRound a)" "keepsPart f (CalculateBatchAllocation k a)"
  by (simp_all add: AllocateSellingCoin_def RefundRemainingSellingCoin_def RefundPayingCoin_def
      ExtendRound_def CalculateBatchAllocation_def BeforeSellingCoinsAllocated_def Let_def steps)

end

section \<open>The part a begin block leaves alone\<close>

locale kept = kept_core +
  assumes queues: "f (s\<lparr>VestingQueues := qs\<rparr>) = f s"
begin

lemma queue_keeps: "keepsPart f (modifyM (SetVestingQueue q))"
  by (simp add: keeps_modify SetVestingQueue_def queues)

lemma vestingLoop_keeps: "keepsPart f (vestingLoop k a x c vs r)"
  by (induction vs arbitrary: r) (simp_all add: Let_def steps queue_keeps)

lemma releaseLoop_keeps: "keepsPart f (releaseLoop k a qs)"
  by (induction qs) (simp_all add: steps queue_keeps)

lemma closing_keeps:
  "keepsPart f (ApplyVestingSchedules k a)" "keepsPart f (finishBatch k a mi)" "keepsPart f (CloseFixedPriceAuction k a)"
  by (simp_all add: ApplyVestingSchedules_def finishBatch_def CloseFixedPriceAuction_def
      Let_def steps vestingLoop_keeps payments_keep)

lemma executeAuction_keeps: "keepsPart f (executeAuction k a)"
proof -
  have "keepsPart f (CloseBatchAuction k a)"
    unfolding CloseBatchAuction_def Let_def by (intro steps closing_keeps payments_keep)
  then show ?thesis
    by (cases "GetStatus a"; cases "GetType a")
      (simp_all add: executeAuction_def ExecuteStandByStatus_def ExecuteStartedStatus_def ExecuteVestingStatus_def
        ReleaseVestingPayingCoin_def steps closing_keeps releaseLoop_keeps)
qed

lemma BeginBlocker_keeps: "keepsPart f (BeginBlocker k)"
  unfolding BeginBlocker_def by (intro keeping executeAuction_keeps)

end

section \<open>The part most messages leave alone\<close>

locale kept_by_messages = kept_core +
  assumes lastAuction: "f (s\<lparr>LastAuctionId := n\<rparr>) = f s" and lastBids: "f (s\<lparr>LastBidIds := ns\<rparr>) = f s"
begin

lemma counters_keep: "keepsPart f GetNextAuctionIdWithUpdate" "keepsPart f (GetNextBidIdWithUpdate i)"
  by (simp_all add: GetNextAuctionIdWithUpdate_def GetNextBidIdWithUpdate_def SetAuctionId_def SetBidId_def
      steps keeps_modify lastAuction lastBids)

lemma fees_keep: "keepsPart f (PayCreationFee k x)" "keepsPart f (PayPlaceBidFee k x)"
  "keepsPart f (ReserveSellingCoin k i x c)" "keepsPart f (ReservePayingCoin k i x c)"
  by (simp_all add: PayCreationFee_def PayPlaceBidFee_def ReserveSellingCoin_def ReservePayingCoin_def steps)

lemma creation_keeps: "keepsPart f (CreateFixedPriceAuction k mf)" "keepsPart f (CreateBatchAuction k mb)"
  by (simp_all add: CreateFixedPriceAuction_def CreateBatchAuction_def hook_defs Let_def steps counters_keep fees_keep)

lemma CancelAuction_keeps: "keepsPart f (CancelAuction k mc)"
  unfolding CancelAuction_def hook_defs Let_def by (intro steps)

lemma placeByType_keeps: "keepsPart f (placeByType k a x b)"
proof -
  have check: "keepsPart f (checkMaxBidAmount k a b)" unfolding checkMaxBidAmount_def by (intro keeping)
  have "keepsPart f (ValidateFixedPriceBid k a b)" unfolding ValidateFixedPriceBid_def Let_def by (intro keeping)
  then have "keepsPart f (placeFixedPriceBid k a x b)"
    unfolding placeFixedPriceBid_def by (intro steps fees_keep)
  then show ?thesis
    by (cases "bid_Type b") (simp_all add: placeByType_def placeBatchWorthBid_def placeBatchManyBid_def
        ValidateBatchWorthBid_def ValidateBatchManyBid_def check steps fees_keep)
qed

lemma PlaceBid_keeps: "keepsPart f (PlaceBid k mp)"
  unfolding PlaceBid_def hook_defs Let_def by (intro steps counters_keep fees_keep placeByType_keeps)

lemma ModifyBid_keeps: "keepsPart f (ModifyBid k mm)"
proof -
  have "keepsPart f (reserveDifference k a x b mm)" for a x b
    by (cases "bid_Type b") (simp_all add: reserveDifference_def Let_def steps fees_keep)
  then show ?thesis unfolding ModifyBid_def hook_defs Let_def by (intro steps)
qed

lemmas message_keeps = creation_keeps CancelAuction_keeps PlaceBid_keeps ModifyBid_keeps

text \<open>The handler, for a message whose operation keeps the part.\<close>

lemma NewHandler_keeps: "keepsPart f (handleMsg k m) \<Longrightarrow> f (snd (NewHandler k m s)) = f s"
proof -
  assume m: "keepsPart f (handleMsg k m)"
  have "keepsPart f (bindM (handleMsg k m) (\<lambda>_. getsM state.events))" by (intro keeping m)
  then have "f (snd (bindM (handleMsg k m) (\<lambda>_. getsM state.events) (s\<lparr>events := []\<rparr>))) = f (s\<lparr>events := []\<rparr>)"
    by (simp add: keepsPart_def)
  then show ?thesis
    by (cases "bindM (handleMsg k m) (\<lambda>_. getsM state.events) (s\<lparr>events := []\<rparr>)")
      (simp add: NewHandler_def Let_def events)
qed

lemma handleMsg_keeps: "\<not> EnableAddAllowedBidder k \<Longrightarrow> keepsPart f (handleMsg k m)"
  by (cases m) (simp_all add: msgServer_CreateFixedPriceAuction_def msgServer_CreateBatchAuction_def
      msgServer_CancelAuction_def msgServer_PlaceBid_def msgServer_ModifyBid_def msgServer_AddAllowedBidder_def
      keeping message_keeps)

end

text \<open>The part every message leaves alone.\<close>

locale kept_by_all = kept_by_messages +
  assumes allowed: "f (s\<lparr>AllowedBidders := ab\<rparr>) = f s"
begin

lemma every_message_keeps: "keepsPart f (handleMsg k m)"
proof (cases m)
  case (AddAllowedBidderMsg ma)
  have "keepsPart f (addAllowedBidder k i a b)" for i a b
    unfolding addAllowedBidder_def SetAllowedBidder_def by (intro keeping keeps_modify allowed)
  then have "keepsPart f (AddAllowedBidders k i bs)" for i bs
    unfolding AddAllowedBidders_def hook_defs by (intro steps)
  then show ?thesis unfolding AddAllowedBidderMsg by (simp add: msgServer_AddAllowedBidder_def keeping)
qed (simp_all add: msgServer_CreateFixedPriceAuction_def msgServer_CreateBatchAuction_def
    msgServer_CancelAuction_def msgServer_PlaceBid_def msgServer_ModifyBid_def keeping message_keeps)

end

section \<open>The parts\<close>

definition blockPart :: "'b state \<Rightarrow> time \<times> Params \<times> (uint64 \<times> addrKey, AllowedBidder) omap \<times> uint64 \<times> (uint64, uint64) omap" where
  "blockPart s = (BlockTime s, params s, AllowedBidders s, LastAuctionId s, LastBidIds s)"

definition messagePart :: "'b state \<Rightarrow> time \<times> Params \<times> (uint64 \<times> addrKey, AllowedBidder) omap" where
  "messagePart s = (BlockTime s, params s, AllowedBidders s)"

definition commonPart :: "'b state \<Rightarrow> time \<times> Params" where
  "commonPart s = (BlockTime s, params s)"

lemma block_kept: "hooksKeep blockPart k \<Longrightarrow> kept blockPart k"
  by unfold_locales (simp_all add: blockPart_def)

lemma message_kept: "hooksKeep messagePart k \<Longrightarrow> kept_by_messages messagePart k"
  by unfold_locales (simp_all add: messagePart_def)

lemma common_kept: "hooksKeep commonPart k \<Longrightarrow> kept_by_all commonPart k"
  by unfold_locales (simp_all add: commonPart_def)

interpretation ref_block: kept blockPart reference
  by (rule block_kept) (simp add: hooksKeep_def)

interpretation ref_message: kept_by_messages messagePart reference
  by (rule message_kept) (simp add: hooksKeep_def)

interpretation ref_common: kept_by_all commonPart reference
  by (rule common_kept) (simp add: hooksKeep_def)

text \<open>C13. Whatever the outcome, success, error or panic: a begin block changes neither the parameters
  nor the allowed bidders nor the counters of auctions and bids; a message never changes the
  parameters or the block time, and without the build flag it never changes an allowed bidder.\<close>

theorem unrelated_state_is_kept:
  assumes "hooksKeep blockPart k" and "hooksKeep messagePart k" and "hooksKeep commonPart k"
  shows "blockPart (snd (BeginBlocker k s)) = blockPart s
    \<and> commonPart (snd (NewHandler k m s)) = commonPart s
    \<and> (EnableAddAllowedBidder k \<or> messagePart (snd (NewHandler k m s)) = messagePart s)"
proof -
  have "messagePart (snd (NewHandler k m s)) = messagePart s" if "\<not> EnableAddAllowedBidder k"
    by (rule kept_by_messages.NewHandler_keeps [OF message_kept [OF assms(2)]
      kept_by_messages.handleMsg_keeps [OF message_kept [OF assms(2)] that]])
  moreover have "commonPart (snd (NewHandler k m s)) = commonPart s"
    by (rule kept_by_messages.NewHandler_keeps [OF kept_by_all.axioms(1) [OF common_kept [OF assms(3)]]
      kept_by_all.every_message_keeps [OF common_kept [OF assms(3)]]])
  ultimately show ?thesis using kept.BeginBlocker_keeps [OF block_kept [OF assms(1)]] by (auto simp: keepsPart_def)
qed

theorem unrelated_state_is_kept_witness:
  "blockPart (snd (BeginBlocker reference (bidState 2))) = blockPart (bidState 2)
    \<and> commonPart (snd (NewHandler reference (PlaceBidMsg bidMsg) (bidState 2))) = commonPart (bidState 2)"
  using unrelated_state_is_kept [of reference "bidState 2" "PlaceBidMsg bidMsg"] by (simp add: hooksKeep_def)

end
