(* ===== verification/Settling.thy ===== *)
theory Settling
  imports Scenario
begin

text \<open>
  The split of the proceeds of an auction over its vesting schedules: what leaves the paying reserve,
  what the queues hold, and that nothing is lost to rounding.
\<close>

section \<open>Vesting\<close>

lemma stored_after_fold:
  assumes "distinct (map vq_ReleaseTime qs)" and "\<forall>q \<in> set qs. vq_AuctionId q = i" and "q \<in> set qs"
  shows "oget (VestingQueues (fold SetVestingQueue qs s)) (i, vq_ReleaseTime q) = Some q"
  using assms
proof (induction qs rule: rev_induct)
  case (snoc p qs)
  show ?case
  proof (cases "q = p")
    case True
    then show ?thesis using snoc.prems(2) by (simp add: SetVestingQueue_def)
  next
    case False
    then have mem: "q \<in> set qs" using snoc.prems(3) by simp
    moreover have "vq_ReleaseTime p \<notin> vq_ReleaseTime ` set qs" using snoc.prems(1) by simp
    ultimately have "vq_ReleaseTime q \<noteq> vq_ReleaseTime p" by (metis imageI)
    with mem show ?thesis using snoc by (simp add: SetVestingQueue_def)
  qed
qed simp



end
