(* ===== verification/Actions.thy ===== *)
theory Actions
  imports Scenario
begin

text \<open>
  The properties of the single operations: what placing, modifying, creating, cancelling and settling
  do on success, when they succeed, and which error each broken precondition gives.
\<close>

section \<open>Placing and modifying bids\<close>

text \<open>C14. A bid that is placed was placed in a started auction by an allowed bidder; it is stored under
  the next id of the auction with the fields of the message, and the paying reserve of the auction
  grows by exactly what the bid pays.\<close>

theorem place_bid_effect:
  assumes "fundraising k pool" and "reachable k s" and "mp_ValidateBasic k msg = Ok ()"
    and "outsider k (mp_Bidder msg)" and "PlaceBid k msg s = (Ok b, t)"
  shows "\<exists>a x. GetAuction (mp_AuctionId msg) s = Some a \<and> ba_Status (base a) = AuctionStatusStarted
    \<and> AccAddressFromBech32 k (mp_Bidder msg) = Some x \<and> GetAllowedBidder (mp_AuctionId msg) x s \<noteq> None
    \<and> bid_Id b = GetLastBidId (mp_AuctionId msg) s + 1 \<and> GetLastBidId (mp_AuctionId msg) t = bid_Id b
    \<and> GetBid (mp_AuctionId msg) (bid_Id b) t = Some b
    \<and> bid_Bidder b = mp_Bidder msg \<and> bid_Type b = mp_BidType msg \<and> bid_Price b = mp_Price msg \<and> bid_Coin b = mp_Coin msg
    \<and> spendable k (PayingReserveAddress k (mp_AuctionId msg)) (ba_PayingCoinDenom (base a)) t
      = spendable k (PayingReserveAddress k (mp_AuctionId msg)) (ba_PayingCoinDenom (base a)) s
        + ConvertToPayingAmount k b (ba_PayingCoinDenom (base a))"
proof -
  note inv = fundraising.reachable_Inv [OF assms(1,2)]
  let ?i = "mp_AuctionId msg" and ?P = "PayingReserveAddress k (mp_AuctionId msg)"
  obtain a x n c bk bk' bi ev where a: "GetAuction ?i s = Some a" "ba_Status (base a) = AuctionStatusStarted"
    and x: "AccAddressFromBech32 k (mp_Bidder msg) = Some x" "GetAllowedBidder ?i x s \<noteq> None"
    and n: "n = GetLastBidId ?i s + 1" and c: "c = bidOf msg n" and b: "b = placedBid a c"
    and fee: "FundCommunityPool k (bank s) (PlaceBidFee (params s)) x = (None, bk)"
    and mv: "moved k x ?P (ba_PayingCoinDenom (base a)) (ConvertToPayingAmount k c (ba_PayingCoinDenom (base a))) bk bk'"
    and t: "t = (afterPlacing k a c (s\<lparr>bank := bk', LastBidIds := oset ?i n (LastBidIds s)\<rparr>))
      \<lparr>Bids := oset (?i, n) b (Bids s), BidIndex := bi, events := ev\<rparr>"
    by (rule fundraising.PlaceBid_Ok [OF assms(1,5) inv assms(3)])
  have out: "x \<notin> reserveSet k" using assms(4) x(1) by (simp add: outsider_def)
  have P: "?P \<in> reserveSet k" by (auto simp: reserveSet_def reservesOf_def)
  then have "SpendableAmountOf k bk ?P d = spendable k ?P d s" for d
    by (rule fundraising.fee_frame [OF assms(1) fee out])
  then have "spendable k ?P (ba_PayingCoinDenom (base a)) t = spendable k ?P (ba_PayingCoinDenom (base a)) s
      + ConvertToPayingAmount k b (ba_PayingCoinDenom (base a))"
    using mv out P by (auto simp: t spendable_def moved_def b)
  moreover have "bid_Id b = n" "GetBid ?i n t = Some b" "GetLastBidId ?i t = n"
    by (simp_all add: b c bidOf_def t GetBid_def GetLastBidId_def)
  ultimately show ?thesis using a x n by (auto simp: b c bidOf_def)
qed

theorem place_bid_effect_witness:
  "GetBid 1 1 (bidState 2) = Some theBid
   \<and> spendable reference (PayingReserveAddress reference 1) ''paying'' (bidState 2)
     = spendable reference (PayingReserveAddress reference 1) ''paying'' (allowedState 2)
       + ConvertToPayingAmount reference theBid ''paying''"
proof -
  obtain u where u: "handleMsg reference (PlaceBidMsg bidMsg) ((allowedState 2)\<lparr>events := []\<rparr>) = (Ok (), u)"
    and t: "bidState 2 = u\<lparr>events := events (allowedState 2)\<rparr>"
    using bid_runs [of 2] NewHandler_Ok by blast
  then obtain b where run: "PlaceBid reference bidMsg ((allowedState 2)\<lparr>events := []\<rparr>) = (Ok b, u)"
    by (auto simp: msgServer_PlaceBid_def Ok_iffs)
  have r: "reachable reference (allowedState 2)" by (rule scenario_reachable) simp
  have "(allowedState 2)\<lparr>events := []\<rparr> = allowedState 2"
    by (simp add: allowedState_def createdState_def startState_def)
  then have run': "PlaceBid reference bidMsg (allowedState 2) = (Ok b, u)" using run by simp
  have m: "mp_AuctionId bidMsg = 1" "outsider reference (mp_Bidder bidMsg)" "mp_ValidateBasic reference bidMsg = Ok ()"
    using outsiders valid_messages(3) by (simp_all add: bidMsg_def)
  from place_bid_effect [OF ref_fund.fundraising_axioms r m(3,2) run'] obtain a where
    a: "GetAuction 1 (allowedState 2) = Some a" and b: "bid_Id b = GetLastBidId 1 (allowedState 2) + 1" "GetBid 1 (bid_Id b) u = Some b"
    and bal: "spendable reference (PayingReserveAddress reference 1) (ba_PayingCoinDenom (base a)) u
      = spendable reference (PayingReserveAddress reference 1) (ba_PayingCoinDenom (base a)) (allowedState 2)
        + ConvertToPayingAmount reference b (ba_PayingCoinDenom (base a))"
    unfolding m(1) by blast
  have pd: "ba_PayingCoinDenom (base a) = ''paying''"
    using a by (simp add: GetAuction_def allowedState_fields) (auto simp: theAuction_simps)
  have id: "bid_Id b = 1" using b(1) by (simp add: GetLastBidId_def allowedState_fields)
  have "Bids u = [((1, 1), theBid)]" using t by (auto simp: bidState_def dest!: arg_cong [of _ _ Bids])
  then have "b = theBid" using b(2) id by (simp add: GetBid_def)
  then show ?thesis using b(2) bal id pd by (simp add: t GetBid_def spendable_def)
qed



text \<open>C16. Modifying a bid only raises it: the bid keeps its owner, type, id and denomination, neither its
  price nor its amount falls and one of them rises, only the owner can do it, and the paying reserve
  grows by exactly the difference of what the bid pays.\<close>

theorem modify_bid_only_raises:
  assumes "fundraising k pool" and "reachable k s" and "outsider k (mm_Bidder msg)" and "ModifyBid k msg s = (Ok (), t)"
  shows "\<exists>a b b'. GetAuction (mm_AuctionId msg) s = Some a \<and> ba_Status (base a) = AuctionStatusStarted
    \<and> GetBid (mm_AuctionId msg) (mm_BidId msg) s = Some b \<and> GetBid (mm_AuctionId msg) (mm_BidId msg) t = Some b'
    \<and> AccAddressFromBech32 k (mm_Bidder msg) = AccAddressFromBech32 k (bid_Bidder b)
    \<and> b' = b\<lparr>bid_Price := mm_Price msg, bid_Coin := mm_Coin msg\<rparr> \<and> Denom (mm_Coin msg) = Denom (bid_Coin b)
    \<and> bid_Price b \<le> bid_Price b' \<and> Amount (bid_Coin b) \<le> Amount (bid_Coin b')
    \<and> (bid_Price b < bid_Price b' \<or> Amount (bid_Coin b) < Amount (bid_Coin b'))
    \<and> spendable k (PayingReserveAddress k (mm_AuctionId msg)) (ba_PayingCoinDenom (base a)) t
      = spendable k (PayingReserveAddress k (mm_AuctionId msg)) (ba_PayingCoinDenom (base a)) s
        + (ConvertToPayingAmount k b' (ba_PayingCoinDenom (base a)) - ConvertToPayingAmount k b (ba_PayingCoinDenom (base a)))"
proof -
  note inv = fundraising.reachable_Inv [OF assms(1,2)]
  let ?i = "mm_AuctionId msg" and ?P = "PayingReserveAddress k (mm_AuctionId msg)"
  obtain ba mn mp mx er b x b' bk bi where a: "GetAuction ?i s = Some (BatchAuction ba mn mp mx er)"
    and st: "ba_Status ba = AuctionStatusStarted" and b: "GetBid ?i (mm_BidId msg) s = Some b"
    and x: "AccAddressFromBech32 k (bid_Bidder b) = Some x" "AccAddressFromBech32 k (mm_Bidder msg) = Some x"
    and up: "Denom (mm_Coin msg) = Denom (bid_Coin b)" "bid_Price b \<le> mm_Price msg"
      "Amount (bid_Coin b) \<le> Amount (mm_Coin msg)"
      "mm_Price msg \<noteq> bid_Price b \<or> Amount (mm_Coin msg) \<noteq> Amount (bid_Coin b)"
    and b': "b' = b\<lparr>bid_Price := mm_Price msg, bid_Coin := mm_Coin msg\<rparr>"
    and mv: "moved k x ?P (ba_PayingCoinDenom ba)
      (ConvertToPayingAmount k b' (ba_PayingCoinDenom ba) - ConvertToPayingAmount k b (ba_PayingCoinDenom ba)) (bank s) bk"
    and t: "t = s\<lparr>bank := bk, Bids := oset (?i, mm_BidId msg) b' (Bids s), BidIndex := bi\<rparr>"
    by (rule fundraising.ModifyBid_Ok [OF assms(1,4) inv])
  have "x \<notin> reserveSet k" using assms(3) x(2) by (simp add: outsider_def)
  then have "?P \<noteq> x" by (auto simp: reserveSet_def reservesOf_def)
  then have "spendable k ?P (ba_PayingCoinDenom ba) t = spendable k ?P (ba_PayingCoinDenom ba) s
      + (ConvertToPayingAmount k b' (ba_PayingCoinDenom ba) - ConvertToPayingAmount k b (ba_PayingCoinDenom ba))"
    using mv by (simp add: t spendable_def moved_def)
  moreover have "GetBid ?i (mm_BidId msg) t = Some b'" by (simp add: t GetBid_def)
  moreover have "bid_Price b < mm_Price msg \<or> Amount (bid_Coin b) < Amount (mm_Coin msg)" using up by auto
  ultimately show ?thesis using a st b x up(1-3) b' by auto
qed

theorem modify_bid_only_raises_witness:
  "\<exists>t b'. ModifyBid reference modifyMsg (bidState 2) = (Ok (), t) \<and> GetBid 1 1 t = Some b'
    \<and> Amount (bid_Coin b') = 120 \<and> bid_Bidder b' = ''bob''"
proof -
  obtain t where run: "ModifyBid reference modifyMsg (bidState 2) = (Ok (), t)" using modify_runs by blast
  have r: "reachable reference (bidState 2)" by (rule scenario_reachable) simp
  have m: "mm_AuctionId modifyMsg = 1" "mm_BidId modifyMsg = 1" "outsider reference (mm_Bidder modifyMsg)"
    using outsiders by (simp_all add: modifyMsg_def)
  from modify_bid_only_raises [OF ref_fund.fundraising_axioms r m(3) run] obtain b b'
    where "GetBid 1 1 (bidState 2) = Some b" and "GetBid 1 1 t = Some b'"
      and "b' = b\<lparr>bid_Price := mm_Price modifyMsg, bid_Coin := mm_Coin modifyMsg\<rparr>"
    unfolding m(1,2) by blast
  then show ?thesis using run by (auto simp: GetBid_def bidState_fields theBid_simps modifyMsg_def)
qed

section \<open>Creating and cancelling auctions\<close>

context fundraising
begin

text \<open>A well formed auction passes the validation of auctions exactly when its vesting schedules are
  valid with respect to its last end time.\<close>

lemma validates_iff:
  assumes "auctionOK k i a"
  shows "BaseAuction_Validate k (base a) = Ok () \<longleftrightarrow>
    validSchedules (ba_VestingSchedules (base a)) (last (ba_EndTimes (base a)))"
proof -
  have ty: "ba_Type (base a) = AuctionTypeFixedPrice \<or> ba_Type (base a) = AuctionTypeBatch"
    using assms by (cases a) (simp_all add: auctionOK_def)
  show ?thesis
    using assms ty
    by (auto simp: BaseAuction_Validate_def bindR_Ok_iff auctionOK_def reserve_decode DecIsPositive_def
        CoinValidate_law lastTime_def ValidateVestingSchedules_Ok_iff)
qed

lemma batchAuctionOf_OK:
  assumes "mb_ValidateBasic k msg = Ok ()" and "mb_MaxExtendedRound msg \<le> MaxExtendedRoundLimit"
  shows "auctionOK k i (batchAuctionOf k msg i now)"
    and "BaseAuction_Validate k (base (batchAuctionOf k msg i now)) = Ok ()"
proof -
  show ok: "auctionOK k i (batchAuctionOf k msg i now)"
    using assms by (auto simp: mb_ValidateBasic_Ok auctionOK_def batchAuctionOf_def baseFor_def)
  show "BaseAuction_Validate k (base (batchAuctionOf k msg i now)) = Ok ()"
    unfolding validates_iff [OF ok] using assms(1) by (auto simp: mb_ValidateBasic_Ok batchAuctionOf_def baseFor_def)
qed

end



context fundraising
begin

lemma CancelAuction_run:
  assumes inv: "Inv k s" and a: "GetAuction (mc_AuctionId msg) s = Some a" and x: "GetAuctioneer k a = Some x"
    and may: "AccAddressString k x = mc_Auctioneer msg" "ba_Status (base a) = AuctionStatusStandBy"
  shows "\<exists>t. CancelAuction k msg s = (Ok (), t)"
proof -
  let ?i = "mc_AuctionId msg" and ?d = "Denom (ba_SellingCoin (base a))"
  have ok: "auctionOK k ?i a" by (rule InvD(2) [OF inv a])
  then have d: "ValidateDenom k ?d" by (simp add: auctionOK_def)
  obtain bk where send: "sendCoin k (SellingReserveAddress k ?i) x
      (Coin ?d (spendable k (SellingReserveAddress k ?i) ?d s)) s = (Ok (), s\<lparr>bank := bk\<rparr>)"
    using drain_run [OF d] by blast
  note run = CancelAuction_def run_simps a x may reserve_decodes(1) [OF ok] Let_def NewCoin_spendable [OF d] EmitEvent_def
  show ?thesis
  proof (cases "ba_Type (base a) = AuctionTypeFixedPrice")
    case True
    then have "\<exists>a'. (case a of FixedPriceAuction ba _ \<Rightarrow>
          bindM (liftR (orPanic (NewCoin k ?d 0))) (\<lambda>c. returnM (FixedPriceAuction ba c))
        | BatchAuction _ _ _ _ _ \<Rightarrow> (panicM :: ('b, AuctionI) kcomp)) u = (Ok a', u)" for u :: "'b state"
      using ok d by (cases a) (simp_all add: auctionOK_def NewCoin_law run_simps)
    then obtain a' where "(case a of FixedPriceAuction ba _ \<Rightarrow>
          bindM (liftR (orPanic (NewCoin k ?d 0))) (\<lambda>c. returnM (FixedPriceAuction ba c))
        | BatchAuction _ _ _ _ _ \<Rightarrow> (panicM :: ('b, AuctionI) kcomp)) (s\<lparr>bank := bk\<rparr>) = (Ok a', s\<lparr>bank := bk\<rparr>)" by blast
    then show ?thesis using True send by (simp add: run)
  next
    case False
    then show ?thesis using send by (simp add: run)
  qed
qed

end

text \<open>C18. An auction can be cancelled exactly by its auctioneer and exactly before it starts; then all its
  selling coins go back to him and the auction is cancelled for good.\<close>

theorem cancel_auction_exact:
  assumes "fundraising k pool" and "reachable k s"
  shows "((\<exists>t. CancelAuction k msg s = (Ok (), t)) \<longleftrightarrow>
      (\<exists>a x. GetAuction (mc_AuctionId msg) s = Some a \<and> GetAuctioneer k a = Some x
         \<and> AccAddressString k x = mc_Auctioneer msg \<and> ba_Status (base a) = AuctionStatusStandBy))
    \<and> (\<forall>t. CancelAuction k msg s = (Ok (), t) \<longrightarrow>
        (\<exists>a x. GetAuction (mc_AuctionId msg) s = Some a \<and> GetAuctioneer k a = Some x
         \<and> GetAuction (mc_AuctionId msg) t = Some (cancelled a)
         \<and> moved k (SellingReserveAddress k (mc_AuctionId msg)) x (Denom (ba_SellingCoin (base a)))
             (spendable k (SellingReserveAddress k (mc_AuctionId msg)) (Denom (ba_SellingCoin (base a))) s)
             (bank s) (bank t)))"
proof -
  note inv = fundraising.reachable_Inv [OF assms]
  have effect: "(\<exists>a x. GetAuction (mc_AuctionId msg) s = Some a \<and> GetAuctioneer k a = Some x
      \<and> AccAddressString k x = mc_Auctioneer msg \<and> ba_Status (base a) = AuctionStatusStandBy
      \<and> GetAuction (mc_AuctionId msg) t = Some (cancelled a)
      \<and> moved k (SellingReserveAddress k (mc_AuctionId msg)) x (Denom (ba_SellingCoin (base a)))
          (spendable k (SellingReserveAddress k (mc_AuctionId msg)) (Denom (ba_SellingCoin (base a))) s)
          (bank s) (bank t))" if run: "CancelAuction k msg s = (Ok (), t)" for t
  proof -
    obtain a x bk ev where a: "GetAuction (mc_AuctionId msg) s = Some a"
      and x: "GetAuctioneer k a = Some x" "AccAddressString k x = mc_Auctioneer msg" "ba_Status (base a) = AuctionStatusStandBy"
      and mv: "moved k (SellingReserveAddress k (mc_AuctionId msg)) x (Denom (ba_SellingCoin (base a)))
          (spendable k (SellingReserveAddress k (mc_AuctionId msg)) (Denom (ba_SellingCoin (base a))) s) (bank s) bk"
      and t: "t = (SetAuction (cancelled a) (s\<lparr>bank := bk\<rparr>))\<lparr>events := ev\<rparr>"
      by (rule fundraising.CancelAuction_Ok [OF assms(1) run inv])
    have "ba_Id (base (cancelled a)) = mc_AuctionId msg"
      using InvD(2) [OF inv a] by (cases a) (simp_all add: auctionOK_def cancelled_def)
    then have "GetAuction (mc_AuctionId msg) t = Some (cancelled a)" by (simp add: t SetAuction_def GetAuction_def)
    moreover have "bank t = bk" by (simp add: t SetAuction_def)
    ultimately show ?thesis using a x mv by blast
  qed
  show ?thesis
    using effect fundraising.CancelAuction_run [OF assms(1) inv] by blast
qed

theorem cancel_auction_exact_witness:
  "\<exists>t. CancelAuction reference \<lparr> mc_Auctioneer = ''alice'', mc_AuctionId = 1 \<rparr> (fixedState 150) = (Ok (), t)"
proof -
  let ?a = "fixedAuctionOf reference (fixedMsg 150) 1 100"
  have r: "reachable reference (fixedState 150)" by (rule fixed_reachable) simp
  have "GetAuction 1 (fixedState 150) = Some ?a" by (simp add: GetAuction_def fixedState_def)
  moreover have "GetAuctioneer reference ?a = Some (bytesOf ''alice'')" "ba_Status (base ?a) = AuctionStatusStandBy"
    by (simp_all add: GetAuctioneer_def fixedAuctionOf_def baseFor_def fixedMsg_def bytesOf_usable)
  ultimately show ?thesis
    using cancel_auction_exact [OF ref_fund.fundraising_axioms r, of "\<lparr> mc_Auctioneer = ''alice'', mc_AuctionId = 1 \<rparr>"]
    by auto
qed

section \<open>Allowed bidders\<close>

text \<open>The message that adds an allowed bidder is refused without any effect unless the build flag that
  enables it is set.\<close>

theorem add_allowed_bidder_disabled:
  assumes "\<not> EnableAddAllowedBidder k"
  shows "msgServer_AddAllowedBidder k msg s = (Err ErrInvalidRequest, s)"
  using assms by (simp add: msgServer_AddAllowedBidder_def raiseM_def)

theorem add_allowed_bidder_disabled_witness:
  "msgServer_AddAllowedBidder (reference\<lparr>EnableAddAllowedBidder := False\<rparr>) allowMsg (createdState 2)
    = (Err ErrInvalidRequest, createdState 2)"
  by (rule add_allowed_bidder_disabled) simp


section \<open>Handler\<close>

text \<open>The handler returns exactly the events of its message and leaves the events of the caller as
  they were; an unknown message is an error and changes nothing.\<close>

theorem handler_isolates_events:
  "(\<forall>evs t. NewHandler k msg s = (Ok evs, t) \<longrightarrow> events t = events s
      \<and> (\<exists>u. handleMsg k msg (s\<lparr>events := []\<rparr>) = (Ok (), u) \<and> evs = events u \<and> t = u\<lparr>events := events s\<rparr>))
   \<and> NewHandler k OtherMsg s = (Err ErrUnknownRequest, s)"
proof -
  have "events t = events s
      \<and> (\<exists>u. handleMsg k msg (s\<lparr>events := []\<rparr>) = (Ok (), u) \<and> evs = events u \<and> t = u\<lparr>events := events s\<rparr>)"
    if "NewHandler k msg s = (Ok evs, t)" for evs t
    by (rule NewHandler_Ok [OF that]) auto
  moreover have "NewHandler k OtherMsg s = (Err ErrUnknownRequest, s)" by (simp add: NewHandler_def monad_simps)
  ultimately show ?thesis by blast
qed

theorem handler_isolates_events_witness:
  "\<exists>evs. NewHandler reference (PlaceBidMsg bidMsg) (allowedState 2) = (Ok evs, bidState 2)
    \<and> events (bidState 2) = events (allowedState 2)"
  using bid_runs [of 2] handler_isolates_events [of reference "PlaceBidMsg bidMsg" "allowedState 2"] by auto

end
