(* ===== verification/Lifecycle.thy ===== *)
theory Lifecycle
  imports Scenario
begin

text \<open>
  The properties of the module in operation: what holds in every reachable state and how an auction
  moves from one state to the next, for every implementation of the libraries and keepers that obeys
  their laws (\<open>fundraising k pool\<close>), with instances on the run of theory Scenario.
\<close>

section \<open>Solvency\<close>

text \<open>C1. In every reachable state the invariant holds: the store is well formed, every auction is
  well formed, every bid fits its auction and belongs to an allowed bidder, before an auction closes
  its selling reserve holds the coins for sale and its paying reserve holds what its bids pay, and
  while it vests its vesting reserve holds what is not yet released.\<close>

theorem reachable_states_solvent:
  assumes "fundraising k pool" and "reachable k s"
  shows "Inv k s"
  by (rule fundraising.reachable_Inv [OF assms])

theorem reachable_states_solvent_witness: "Inv reference (bidState 2)"
  by (rule reachable_states_solvent [OF ref_fund.fundraising_axioms scenario_reachable(3)]) simp

lemma at_time_Inv: "Inv k s \<Longrightarrow> Inv k (s\<lparr>BlockTime := now\<rparr>)"
  by (erule Inv_same) (simp_all add: spendable_def)



text \<open>C11. The module's own run-time invariants never report a broken pool in a reachable state.\<close>

theorem module_invariants_hold:
  assumes "fundraising k pool" and "reachable k s"
  shows "AllInvariants k s = Ok False"
  by (rule fundraising.AllInvariants_hold [OF assms(1) fundraising.reachable_Inv [OF assms]])

theorem module_invariants_hold_witness: "AllInvariants reference (bidState 2) = Ok False"
  by (rule module_invariants_hold [OF ref_fund.fundraising_axioms scenario_reachable(3)]) simp

section \<open>The life of an auction\<close>

text \<open>C4. From a reachable state on, whatever messages, blocks and calls follow, every auction stays
  in the store under its id with the same terms: only its status moves, and only forward, end times
  are only appended, and at a fixed price the remaining amount changes.\<close>

theorem auction_terms_immutable:
  assumes "fundraising k pool" and "reachable k s" and "(chainStep k)\<^sup>*\<^sup>* s t" and "GetAuction i s = Some a"
  shows "\<exists>a'. GetAuction i t = Some a' \<and> sameTerms a a'"
  using fundraising.steps_keepTerms [OF assms(1) fundraising.reachable_Inv [OF assms(1,2)] assms(3)] assms(4)
  by (simp add: keepsTerms_def)

theorem auction_terms_immutable_witness:
  "\<exists>a'. GetAuction 1 (bidState 2) = Some a' \<and> sameTerms (theAuction 2) a'"
proof (rule auction_terms_immutable [OF ref_fund.fundraising_axioms scenario_reachable(1)])
  have "chainStep reference (createdState 2) (allowedState 2)" "chainStep reference (allowedState 2) (bidState 2)"
    by (rule scenario_steps, simp)+
  then show "(chainStep reference)\<^sup>*\<^sup>* (createdState 2) (bidState 2)"
    by (meson rtranclp.rtrancl_into_rtrancl rtranclp.rtrancl_refl)
  show "GetAuction 1 (createdState 2) = Some (theAuction 2)" by (simp add: GetAuction_def createdState_fields)
qed simp

text \<open>C12. A batch auction never has more end times than its maximum of extended rounds plus one, and
  that maximum is at most 30.\<close>

theorem rounds_bounded:
  assumes "fundraising k pool" and "reachable k s" and "GetAuction i s = Some (BatchAuction b mn mp mx er)"
  shows "length (ba_EndTimes b) \<le> unat mx + 1 \<and> unat mx \<le> 30"
proof -
  have "auctionOK k i (BatchAuction b mn mp mx er)"
    by (rule InvD(2) [OF fundraising.reachable_Inv [OF assms(1,2)] assms(3)])
  then have "length (ba_EndTimes b) \<le> unat mx + 1" and "mx \<le> MaxExtendedRoundLimit"
    by (simp_all add: auctionOK_def)
  moreover have "unat MaxExtendedRoundLimit = 30" by (simp add: MaxExtendedRoundLimit_def)
  ultimately show ?thesis by (metis word_le_nat_alt)
qed

theorem rounds_bounded_witness:
  "length (ba_EndTimes (base (theAuction 2))) \<le> unat (2 :: uint32) + 1 \<and> unat (2 :: uint32) \<le> 30"
proof (rule rounds_bounded [OF ref_fund.fundraising_axioms scenario_reachable(1)])
  show "GetAuction 1 (createdState 2) = Some (BatchAuction (base (theAuction 2)) (whole 1) (Dec 0) 2 (whole 1))"
    using theAuction_shape by (simp add: GetAuction_def createdState_fields)
qed simp

text \<open>C6. A batch auction that has used up its rounds is closed by the first begin block at or after
  its last end time: it is vesting, or finished when it has no vesting schedule.\<close>

theorem last_round_closes:
  assumes "fundraising k pool" and "reachable k s" and "GetAuction i s = Some (BatchAuction b mn mp mx er)"
    and "ba_Status b = AuctionStatusStarted" and "length (ba_EndTimes b) = unat mx + 1" and "last (ba_EndTimes b) \<le> now"
  shows "\<exists>t. BeginBlocker k (s\<lparr>BlockTime := now\<rparr>) = (Ok (), t)
    \<and> GetAuction i t = Some (closedAs (BatchAuction b mn mp mx er))"
proof -
  let ?s = "s\<lparr>BlockTime := now\<rparr>" and ?a = "BatchAuction b mn mp mx er"
  obtain t where t: "BeginBlocker k ?s = (Ok (), t)"
    and post: "\<forall>i. case GetAuction i ?s of None \<Rightarrow> GetAuction i t = None
         | Some a \<Rightarrow> \<exists>a'. GetAuction i t = Some a' \<and> evolves (BlockTime ?s) a a'"
    using fundraising.BeginBlocker_Inv [OF assms(1) at_time_Inv [OF fundraising.reachable_Inv [OF assms(1,2)]]]
    by blast
  obtain a' where "GetAuction i t = Some a'" and "evolves now ?a a'"
    using post [rule_format, of i] assms(3) by (auto simp: GetAuction_def)
  moreover have "\<not> oneMoreRound ?a a'" using assms(5) by (simp add: oneMoreRound_def)
  ultimately show ?thesis using t assms(4,6) by (auto simp: evolves_def)
qed

theorem last_round_closes_witness:
  "\<exists>t. BeginBlocker reference ((bidState 0)\<lparr>BlockTime := 200\<rparr>) = (Ok (), t)
    \<and> GetAuction 1 t = Some (closedAs (theAuction 0))"
proof -
  have "GetAuction 1 (bidState 0) = Some (BatchAuction (base (theAuction 0)) (whole 1) (Dec 0) 0 (whole 1))"
    using theAuction_shape by (simp add: GetAuction_def bidState_def allowedState_fields)
  then have "\<exists>t. BeginBlocker reference ((bidState 0)\<lparr>BlockTime := 200\<rparr>) = (Ok (), t)
    \<and> GetAuction 1 t = Some (closedAs (BatchAuction (base (theAuction 0)) (whole 1) (Dec 0) 0 (whole 1)))"
    by (rule last_round_closes [OF ref_fund.fundraising_axioms scenario_reachable(3), rotated])
      (simp_all add: theAuction_simps)
  then show ?thesis using theAuction_shape [of 0] by simp
qed

text \<open>C7. A vesting auction, in a begin block at whatever time: the queues whose release time has come
  are marked as released and the others stay as they are; the coins of those that were not yet
  released, and nothing else, go from the vesting reserve to the auctioneer; and when the last queue
  is one of them the auction is finished.\<close>

theorem vesting_releases_due_queues:
  fixes now :: time
  assumes "fundraising k pool" and "reachable k s" and "GetAuction i s = Some a"
    and "ba_Status (base a) = AuctionStatusVesting" and "GetAuctioneer k a = Some x"
  defines "qs \<equiv> GetVestingQueuesByAuctionId i s"
    and "due \<equiv> (\<lambda>q. vq_ReleaseTime q \<le> now \<and> \<not> vq_Released q)"
  shows "\<exists>t. ExecuteVestingStatus k a (s\<lparr>BlockTime := now\<rparr>) = (Ok (), t)
    \<and> GetVestingQueuesByAuctionId i t
        = map (\<lambda>q. q\<lparr>vq_Released := vq_Released q \<or> vq_ReleaseTime q \<le> now\<rparr>) qs
    \<and> moved k (VestingReserveAddress k i) x (ba_PayingCoinDenom (base a))
        (sum_list (map (\<lambda>q. Amount (vq_PayingCoin q)) (filter due qs))) (bank s) (bank t)
    \<and> GetAuction i t = Some (if qs \<noteq> [] \<and> due (last qs) then SetStatus AuctionStatusFinished a else a)"
proof -
  let ?s = "s\<lparr>BlockTime := now\<rparr>"
  have same: "GetVestingQueuesByAuctionId i ?s = qs" "GetAuction i ?s = Some a"
    using assms(3) by (simp_all add: qs_def GetVestingQueuesByAuctionId_def GetAuction_def)
  have due: "ShouldRelease q now = due q" for q by (auto simp: ShouldRelease_def due_def)
  have "releasedAt now q = q\<lparr>vq_Released := vq_Released q \<or> vq_ReleaseTime q \<le> now\<rparr>" for q
    by (auto simp: releasedAt_def due due_def SetReleased_def)
  then show ?thesis
    using fundraising.ExecuteVestingStatus_Inv [OF assms(1)
        at_time_Inv [OF fundraising.reachable_Inv [OF assms(1,2)], of now] same(2) assms(4,5)]
    by (auto simp: same(1) due dueCoins_def)
qed

theorem vesting_releases_due_queues_witness:
  "\<exists>s a t. reachable reference s \<and> GetAuction 1 s = Some a \<and> ba_Status (base a) = AuctionStatusVesting
    \<and> ExecuteVestingStatus reference a (s\<lparr>BlockTime := 300\<rparr>) = (Ok (), t)
    \<and> GetVestingQueuesByAuctionId 1 t = map (\<lambda>q. q\<lparr>vq_Released := vq_Released q \<or> vq_ReleaseTime q \<le> 300\<rparr>)
        (GetVestingQueuesByAuctionId 1 s)"
proof -
  obtain s a where s: "reachable reference s" "GetAuction 1 s = Some a" "ba_Status (base a) = AuctionStatusVesting"
    using vesting_reachable by blast
  obtain x where "GetAuctioneer reference a = Some x"
    by (rule ref_fund.auctioneer_decodes [OF InvD(2) [OF ref_fund.reachable_Inv [OF s(1)] s(2)]])
  from vesting_releases_due_queues [OF ref_fund.fundraising_axioms s this, of 300] s show ?thesis by blast
qed

end
