(* ===== verification/Keys.thy ===== *)
theory Keys
  imports Store "HOL-Library.Sublist"
begin

text \<open>
  The byte keys of the module's KV store (\<^verbatim>\<open>types/keys.go\<close>) and the correspondence between the
  typed maps of \<open>state\<close> and the one byte-keyed store the code reads and writes.

  The encodings come from the SDK: big-endian numbers, length-prefixed addresses and the sortable
  text form of a time. They are a parameter, the record \<open>keylib\<close>, and \<open>key_laws\<close> states what their
  documentation promises. A key function that panics for some addresses has an option as its result.
\<close>

section \<open>Encodings of the library\<close>

type_synonym bytes = "byte list"

record keylib =
  Uint64ToBigEndian :: "uint64 \<Rightarrow> bytes"
  BigEndianToUint64 :: "bytes \<Rightarrow> uint64 option"
  MustLengthPrefix :: "bytes \<Rightarrow> bytes option"
  FormatTimeBytes :: "time \<Rightarrow> bytes"

text \<open>The most significant byte first.\<close>

fun beBytes :: "nat \<Rightarrow> nat \<Rightarrow> bytes" where
  "beBytes 0 n = []"
| "beBytes (Suc w) n = of_nat (n div 256 ^ w) # beBytes w (n mod 256 ^ w)"

text \<open>The times whose year has four digits, from 0000-01-01 to 9999-12-31 in nanoseconds.\<close>

definition formattable :: "time \<Rightarrow> bool" where
  "formattable t \<longleftrightarrow> - 62167219200 * 10 ^ 9 \<le> t \<and> t < 253402300800 * 10 ^ 9"

locale key_laws =
  fixes L :: "'a keylib_scheme"
  assumes BigEndian_law: "Uint64ToBigEndian L n = beBytes 8 (unat n)"
    and BigEndian_read: "BigEndianToUint64 L (Uint64ToBigEndian L n @ r) = Some n"
    and LengthPrefix_law: "usableAddress a \<Longrightarrow> MustLengthPrefix L a = Some (of_nat (length a) # a)"
    and LengthPrefix_panic: "255 < length a \<Longrightarrow> MustLengthPrefix L a = None"
    and FormatTime_length: "formattable t \<Longrightarrow> length (FormatTimeBytes L t) = 29"
    and FormatTime_less: "formattable t \<Longrightarrow> formattable u \<Longrightarrow> t < u \<Longrightarrow> FormatTimeBytes L t < FormatTimeBytes L u"

section \<open>Key functions\<close>

definition LastAuctionIdKey :: bytes where "LastAuctionIdKey = [0x11]"
definition LastBidIdKeyPrefix :: bytes where "LastBidIdKeyPrefix = [0x12]"
definition AuctionKeyPrefix :: bytes where "AuctionKeyPrefix = [0x21]"
definition AllowedBidderKeyPrefix :: bytes where "AllowedBidderKeyPrefix = [0x22]"
definition BidKeyPrefix :: bytes where "BidKeyPrefix = [0x31]"
definition BidIndexKeyPrefix :: bytes where "BidIndexKeyPrefix = [0x32]"
definition MatchedBidsLenPrefix :: bytes where "MatchedBidsLenPrefix = [0x33]"
definition VestingQueueKeyPrefix :: bytes where "VestingQueueKeyPrefix = [0x41]"

lemmas key_prefixes = LastAuctionIdKey_def LastBidIdKeyPrefix_def AuctionKeyPrefix_def AllowedBidderKeyPrefix_def
  BidKeyPrefix_def BidIndexKeyPrefix_def MatchedBidsLenPrefix_def VestingQueueKeyPrefix_def

definition GetLastBidIdKey :: "'a keylib_scheme \<Rightarrow> uint64 \<Rightarrow> bytes" where
  "GetLastBidIdKey L auctionId = LastBidIdKeyPrefix @ Uint64ToBigEndian L auctionId"

definition GetAuctionKey :: "'a keylib_scheme \<Rightarrow> uint64 \<Rightarrow> bytes" where
  "GetAuctionKey L auctionId = AuctionKeyPrefix @ Uint64ToBigEndian L auctionId"

definition GetAllowedBidderKey :: "'a keylib_scheme \<Rightarrow> uint64 \<Rightarrow> accAddress \<Rightarrow> bytes option" where
  "GetAllowedBidderKey L auctionId bidder = map_option
     (\<lambda>p. (AllowedBidderKeyPrefix @ Uint64ToBigEndian L auctionId) @ p) (MustLengthPrefix L bidder)"

definition GetAllowedBiddersByAuctionKeyPrefix :: "'a keylib_scheme \<Rightarrow> uint64 \<Rightarrow> bytes" where
  "GetAllowedBiddersByAuctionKeyPrefix L auctionId = AllowedBidderKeyPrefix @ Uint64ToBigEndian L auctionId"

definition GetBidKey :: "'a keylib_scheme \<Rightarrow> uint64 \<Rightarrow> uint64 \<Rightarrow> bytes" where
  "GetBidKey L auctionId bidId = (BidKeyPrefix @ Uint64ToBigEndian L auctionId) @ Uint64ToBigEndian L bidId"

definition GetBidByAuctionIdPrefix :: "'a keylib_scheme \<Rightarrow> uint64 \<Rightarrow> bytes" where
  "GetBidByAuctionIdPrefix L auctionId = BidKeyPrefix @ Uint64ToBigEndian L auctionId"

definition GetBidIndexKey :: "'a keylib_scheme \<Rightarrow> accAddress \<Rightarrow> uint64 \<Rightarrow> uint64 \<Rightarrow> bytes option" where
  "GetBidIndexKey L bidder auctionId bidId = map_option
     (\<lambda>p. ((BidIndexKeyPrefix @ p) @ Uint64ToBigEndian L auctionId) @ Uint64ToBigEndian L bidId)
     (MustLengthPrefix L bidder)"

definition GetBidIndexByBidderPrefix :: "'a keylib_scheme \<Rightarrow> accAddress \<Rightarrow> bytes option" where
  "GetBidIndexByBidderPrefix L bidder = map_option (\<lambda>p. BidIndexKeyPrefix @ p) (MustLengthPrefix L bidder)"

definition GetVestingQueueKey :: "'a keylib_scheme \<Rightarrow> uint64 \<Rightarrow> time \<Rightarrow> bytes" where
  "GetVestingQueueKey L auctionId releaseTime =
     (VestingQueueKeyPrefix @ Uint64ToBigEndian L auctionId) @ FormatTimeBytes L releaseTime"

definition GetVestingQueueByAuctionIdPrefix :: "'a keylib_scheme \<Rightarrow> uint64 \<Rightarrow> bytes" where
  "GetVestingQueueByAuctionIdPrefix L auctionId = VestingQueueKeyPrefix @ Uint64ToBigEndian L auctionId"

definition GetLastMatchedBidsLenKey :: "'a keylib_scheme \<Rightarrow> uint64 \<Rightarrow> bytes" where
  "GetLastMatchedBidsLenKey L auctionId = MatchedBidsLenPrefix @ Uint64ToBigEndian L auctionId"

lemmas key_defs = GetLastBidIdKey_def GetAuctionKey_def GetAllowedBidderKey_def
  GetAllowedBiddersByAuctionKeyPrefix_def GetBidKey_def GetBidByAuctionIdPrefix_def GetBidIndexKey_def
  GetBidIndexByBidderPrefix_def GetVestingQueueKey_def GetVestingQueueByAuctionIdPrefix_def
  GetLastMatchedBidsLenKey_def

text \<open>A Go slice expression \<open>key[n:]\<close>; it panics when \<open>n\<close> exceeds the length.\<close>

definition sliceFrom :: "bytes \<Rightarrow> byte \<Rightarrow> bytes option" where
  "sliceFrom key n = (if unat n \<le> length key then Some (drop (unat n) key) else None)"

text \<open>The length of the address is a byte, and so are the offsets computed from it: \<open>2 + addrLen + 8\<close>
  wraps at 256.\<close>

definition ParseBidIndexKey :: "'a keylib_scheme \<Rightarrow> bytes \<Rightarrow> (uint64 \<times> uint64) option" where
  "ParseBidIndexKey L key =
     (if \<not> prefix BidIndexKeyPrefix key \<or> length key < 2 then None
      else let addrLen = key ! 1 in
        Option.bind (sliceFrom key (2 + addrLen)) (\<lambda>r.
        Option.bind (BigEndianToUint64 L r) (\<lambda>auctionId.
        Option.bind (sliceFrom key (2 + addrLen + 8)) (\<lambda>r'.
        Option.bind (BigEndianToUint64 L r') (\<lambda>bidId. Some (auctionId, bidId))))))"

definition SplitAuctionIdBidIdKey :: "'a keylib_scheme \<Rightarrow> bytes \<Rightarrow> (uint64 \<times> uint64) option" where
  "SplitAuctionIdBidIdKey L key =
     Option.bind (BigEndianToUint64 L key) (\<lambda>auctionId.
     Option.bind (sliceFrom key 8) (\<lambda>r.
     Option.bind (BigEndianToUint64 L r) (\<lambda>bidId. Some (auctionId, bidId))))"

section \<open>Order of encodings\<close>

lemma append_less_iff:
  fixes a b x y :: "'a::linorder list"
  assumes "length a = length b"
  shows "a @ x < b @ y \<longleftrightarrow> a < b \<or> a = b \<and> x < y"
  using assms by (induction a b rule: list_induct2) auto

lemma prefix_same_length: "length p = length q \<Longrightarrow> prefix p (q @ r) \<longleftrightarrow> p = q"
  by (auto simp: prefix_def)

lemma length_beBytes [simp]: "length (beBytes w n) = w"
  by (induction w arbitrary: n) auto

lemma byte_less: "m < 256 \<Longrightarrow> n < 256 \<Longrightarrow> (of_nat m :: byte) < of_nat n \<longleftrightarrow> m < n"
  by (simp add: word_less_nat_alt unat_of_nat)

lemma beBytes_less:
  assumes "m < 256 ^ w" and "n < 256 ^ w" and "m < n"
  shows "beBytes w m < beBytes w n"
  using assms
proof (induction w arbitrary: m n)
  case (Suc w)
  let ?m = "m div 256 ^ w" and ?n = "n div 256 ^ w"
  have small: "?m < 256" "?n < 256" using Suc.prems by (simp_all add: less_mult_imp_div_less)
  have "?m \<le> ?n" using Suc.prems(3) by (simp add: div_le_mono)
  show ?case
  proof (cases "?m = ?n")
    case True
    moreover have "m mod 256 ^ w < n mod 256 ^ w" using Suc.prems(3) True
      by (metis add_less_cancel_left div_mult_mod_eq)
    ultimately show ?thesis using Suc.IH [of "m mod 256 ^ w" "n mod 256 ^ w"] by simp
  next
    case False
    then have "(of_nat ?m :: byte) < of_nat ?n" using \<open>?m \<le> ?n\<close> small by (simp add: byte_less)
    then show ?thesis by simp
  qed
qed simp

text \<open>An encoding that keeps a strict order on a set of keys reflects it.\<close>

definition embeds :: "'k::linorder set \<Rightarrow> ('k \<Rightarrow> bytes) \<Rightarrow> bool" where
  "embeds K f \<longleftrightarrow> (\<forall>a \<in> K. \<forall>b \<in> K. a < b \<longrightarrow> f a < f b)"

lemma embeds_iff:
  assumes "embeds K f" and "a \<in> K" and "b \<in> K"
  shows "f a < f b \<longleftrightarrow> a < b" and "f a = f b \<longleftrightarrow> a = b"
  using assms unfolding embeds_def by (metis less_asym linorder_neqE)+

lemma embeds_subset: "embeds K f \<Longrightarrow> J \<subseteq> K \<Longrightarrow> embeds J f"
  by (auto simp: embeds_def)

text \<open>Writing through an encoding.\<close>

definition encoded :: "('k \<Rightarrow> bytes) \<Rightarrow> ('v \<Rightarrow> 'w) \<Rightarrow> ('k, 'v) omap \<Rightarrow> (bytes, 'w) omap" where
  "encoded f g m = map (map_prod f g) m"

lemma encoded_Nil [simp]: "encoded f g [] = []"
  by (simp add: encoded_def)

lemma keys_encoded [simp]: "fst ` set (encoded f g m) = f ` fst ` set m"
  by (force simp: encoded_def)

lemma encoded_oset:
  assumes "embeds (insert k (fst ` set m)) f"
  shows "oset (f k) (g v) (encoded f g m) = encoded f g (oset k v m)"
  using assms
proof (induction m)
  case (Cons e m)
  then have sub: "embeds (insert k (fst ` set m)) f" by (auto intro: embeds_subset)
  have "f k < f (fst e) \<longleftrightarrow> k < fst e" "f (fst e) = f k \<longleftrightarrow> fst e = k"
    using embeds_iff [OF Cons.prems] by simp_all
  then show ?case using Cons.IH [OF sub] by (cases e) (auto simp: encoded_def)
qed (simp add: encoded_def)

lemma owf_encoded:
  assumes "embeds (fst ` set m) f" and "owf m"
  shows "owf (encoded f g m)"
  using assms
proof (induction m)
  case (Cons e m)
  then have "embeds (fst ` set m) f" by (auto intro: embeds_subset)
  moreover have "\<forall>k \<in> fst ` set m. f (fst e) < f k" using Cons.prems by (auto simp: embeds_def owf_Cons)
  ultimately show ?case using Cons by (cases e) (auto simp: encoded_def owf_Cons)
qed simp

lemma oset_append_left:
  "\<forall>x \<in> fst ` set ys. k < x \<Longrightarrow> oset k v (xs @ ys) = oset k v xs @ ys"
  by (induction xs) (cases ys; auto)+

lemma oset_append_right:
  "\<forall>x \<in> fst ` set xs. x < k \<Longrightarrow> oset k v (xs @ ys) = xs @ oset k v ys"
  by (induction xs) auto

lemma owf_append:
  "owf (xs @ ys) \<longleftrightarrow> owf xs \<and> owf ys \<and> (\<forall>x \<in> fst ` set xs. \<forall>y \<in> fst ` set ys. x < y)"
  by (auto simp: owf_def sorted_wrt_append)

section \<open>The byte store of a state\<close>

text \<open>The values of the store before the codec turns them into bytes.\<close>

datatype kvValue =
    VId uint64 | VAuction AuctionI | VAllowedBidder AllowedBidder | VBid Bid | VIndex unit
  | VLen int | VQueue VestingQueue

type_synonym kv = "(bytes, kvValue) omap"

definition encAllowed :: "'a keylib_scheme \<Rightarrow> uint64 \<times> addrKey \<Rightarrow> bytes" where
  "encAllowed L k = the (GetAllowedBidderKey L (fst k) (snd (snd k)))"

definition encBid :: "'a keylib_scheme \<Rightarrow> uint64 \<times> uint64 \<Rightarrow> bytes" where
  "encBid L k = GetBidKey L (fst k) (snd k)"

definition encIndex :: "'a keylib_scheme \<Rightarrow> addrKey \<times> uint64 \<times> uint64 \<Rightarrow> bytes" where
  "encIndex L k = the (GetBidIndexKey L (snd (fst k)) (fst (snd k)) (snd (snd k)))"

definition encQueue :: "'a keylib_scheme \<Rightarrow> uint64 \<times> time \<Rightarrow> bytes" where
  "encQueue L k = GetVestingQueueKey L (fst k) (snd k)"

text \<open>The store that a state stands for, once the last auction id has been written.\<close>

definition kvOf :: "'a keylib_scheme \<Rightarrow> 'b state \<Rightarrow> kv" where
  "kvOf L s =
     [(LastAuctionIdKey, VId (LastAuctionId s))]
   @ encoded (GetLastBidIdKey L) VId (LastBidIds s)
   @ encoded (GetAuctionKey L) VAuction (Auctions s)
   @ encoded (encAllowed L) VAllowedBidder (AllowedBidders s)
   @ encoded (encBid L) VBid (Bids s)
   @ encoded (encIndex L) VIndex (BidIndex s)
   @ encoded (GetLastMatchedBidsLenKey L) VLen (MatchedBidsLens s)
   @ encoded (encQueue L) VQueue (VestingQueues s)"

text \<open>\<open>sdk.KVStorePrefixIterator\<close>: the entries whose key starts with a prefix, in key order.\<close>

definition prefixEntries :: "bytes \<Rightarrow> kv \<Rightarrow> (bytes \<times> kvValue) list" where
  "prefixEntries p m = filter (\<lambda>e. prefix p (fst e)) m"

text \<open>The keys that have an encoding, and the states that hold only such keys, in order.\<close>

definition addrKeys :: "addrKey set" where
  "addrKeys = {x. fst x = length (snd x) \<and> usableAddress (snd x)}"

definition allowedKeys :: "(uint64 \<times> addrKey) set" where
  "allowedKeys = {x. snd x \<in> addrKeys}"

definition indexKeys :: "(addrKey \<times> uint64 \<times> uint64) set" where
  "indexKeys = {x. fst x \<in> addrKeys}"

definition queueKeys :: "(uint64 \<times> time) set" where
  "queueKeys = {x. formattable (snd x)}"

definition encodable :: "'b state \<Rightarrow> bool" where
  "encodable s \<longleftrightarrow>
     owf (LastBidIds s) \<and> owf (Auctions s) \<and> owf (AllowedBidders s) \<and> owf (Bids s) \<and> owf (BidIndex s)
   \<and> owf (MatchedBidsLens s) \<and> owf (VestingQueues s)
   \<and> fst ` set (AllowedBidders s) \<subseteq> allowedKeys \<and> fst ` set (BidIndex s) \<subseteq> indexKeys
   \<and> fst ` set (VestingQueues s) \<subseteq> queueKeys"

lemma addrKey_mem: "usableAddress x \<Longrightarrow> addrKey x \<in> addrKeys"
  by (simp add: addrKeys_def addrKey_def)

lemma encodableD:
  assumes "encodable s"
  shows "owf (LastBidIds s)" "owf (Auctions s)" "owf (AllowedBidders s)" "owf (Bids s)" "owf (BidIndex s)"
    "owf (MatchedBidsLens s)" "owf (VestingQueues s)"
    "fst ` set (AllowedBidders s) \<subseteq> allowedKeys" "fst ` set (BidIndex s) \<subseteq> indexKeys"
    "fst ` set (VestingQueues s) \<subseteq> queueKeys"
  using assms by (simp_all add: encodable_def)

section \<open>Segments\<close>

text \<open>All keys of a segment start with the same byte; \<open>above\<close> says that they start with a greater one.\<close>

definition tagged :: "byte \<Rightarrow> kv \<Rightarrow> bool" where
  "tagged c m \<longleftrightarrow> (\<forall>x \<in> fst ` set m. \<exists>r. x = c # r)"

definition above :: "byte \<Rightarrow> kv \<Rightarrow> bool" where
  "above c m \<longleftrightarrow> (\<forall>x \<in> fst ` set m. \<exists>c' r. x = c' # r \<and> c < c')"

lemma above_append [simp]: "above c (xs @ ys) \<longleftrightarrow> above c xs \<and> above c ys"
  by (auto simp: above_def)

lemma tagged_above: "tagged c' m \<Longrightarrow> c < c' \<Longrightarrow> above c m"
  by (auto simp: tagged_def above_def)

lemma oset_skip: "tagged c' xs \<Longrightarrow> c' < c \<Longrightarrow> oset (c # r) v (xs @ ys) = xs @ oset (c # r) v ys"
  by (rule oset_append_right) (auto simp: tagged_def)

lemma oset_stop: "above c ys \<Longrightarrow> oset (c # r) v (xs @ ys) = oset (c # r) v xs @ ys"
  by (rule oset_append_left) (auto simp: above_def)

lemma owf_segment: "tagged c xs \<Longrightarrow> above c ys \<Longrightarrow> owf xs \<Longrightarrow> owf ys \<Longrightarrow> owf (xs @ ys)"
  by (force simp: owf_append tagged_def above_def)

lemma oget_other_tag: "tagged c' m \<Longrightarrow> c' \<noteq> c \<Longrightarrow> oget m (c # r) = None"
  by (auto simp: oget_None_keys tagged_def)

lemma oget_encoded:
  assumes "embeds (insert k (fst ` set m)) f"
  shows "oget (encoded f g m) (f k) = map_option g (oget m k)"
  using assms
proof (induction m)
  case (Cons e m)
  then have sub: "embeds (insert k (fst ` set m)) f" by (auto intro: embeds_subset)
  have "f (fst e) = f k \<longleftrightarrow> fst e = k" using embeds_iff(2) [OF Cons.prems] by simp
  then show ?case using Cons.IH [OF sub] by (cases e) (auto simp: encoded_def)
qed (simp add: encoded_def)

lemma prefixEntries_append [simp]: "prefixEntries p (xs @ ys) = prefixEntries p xs @ prefixEntries p ys"
  by (simp add: prefixEntries_def)

lemma prefixEntries_other_tag: "tagged c' m \<Longrightarrow> c' \<noteq> c \<Longrightarrow> prefixEntries (c # r) m = []"
  by (fastforce simp: prefixEntries_def tagged_def filter_empty_conv)

lemma prefixEntries_encoded:
  assumes "\<forall>k \<in> fst ` set m. prefix p (f k) \<longleftrightarrow> P k"
  shows "prefixEntries p (encoded f g m) = encoded f g (filter (\<lambda>e. P (fst e)) m)"
  using assms by (induction m) (auto simp: prefixEntries_def encoded_def)

context key_laws
begin

lemma be_length [simp]: "length (Uint64ToBigEndian L n) = 8"
  by (simp add: BigEndian_law)

lemma be_less: "m < n \<Longrightarrow> Uint64ToBigEndian L m < Uint64ToBigEndian L n"
  unfolding BigEndian_law
  by (rule beBytes_less) (use unsigned_less [of m] unsigned_less [of n] in \<open>simp_all add: word_less_nat_alt\<close>)

lemma be_eq_iff [simp]: "Uint64ToBigEndian L m = Uint64ToBigEndian L n \<longleftrightarrow> m = n"
  by (metis be_less less_irrefl linorder_neqE)

lemma be_append_less:
  "Uint64ToBigEndian L m @ x < Uint64ToBigEndian L n @ y \<longleftrightarrow> m < n \<or> m = n \<and> x < y"
  by (simp add: append_less_iff) (metis be_less less_asym linorder_neqE)

lemma prefix_be [simp]: "prefix (Uint64ToBigEndian L m) (Uint64ToBigEndian L n @ x) \<longleftrightarrow> m = n"
  by (simp add: prefix_same_length)

text \<open>The shapes of the keys with an address.\<close>

lemma encAllowed_shape:
  "k \<in> allowedKeys \<Longrightarrow> encAllowed L k
    = 0x22 # Uint64ToBigEndian L (fst k) @ of_nat (length (snd (snd k))) # snd (snd k)"
  by (auto simp: encAllowed_def GetAllowedBidderKey_def allowedKeys_def addrKeys_def LengthPrefix_law key_prefixes)

lemma encIndex_shape:
  "k \<in> indexKeys \<Longrightarrow> encIndex L k = 0x32 # of_nat (length (snd (fst k))) # snd (fst k)
    @ Uint64ToBigEndian L (fst (snd k)) @ Uint64ToBigEndian L (snd (snd k))"
  by (auto simp: encIndex_def GetBidIndexKey_def indexKeys_def addrKeys_def LengthPrefix_law key_prefixes)

lemma addr_less:
  assumes "a \<in> addrKeys" and "b \<in> addrKeys"
  shows "(of_nat (length (snd a)) :: byte) # snd a @ x < of_nat (length (snd b)) # snd b @ y
    \<longleftrightarrow> a < b \<or> a = b \<and> x < y"
proof (cases "length (snd a) = length (snd b)")
  case True
  then show ?thesis
    using assms by (cases a; cases b) (auto simp: append_less_iff addrKeys_def)
next
  case False
  have small: "length (snd a) < 256" "length (snd b) < 256" using assms by (auto simp: addrKeys_def usableAddress_def)
  then have "(of_nat (length (snd a)) :: byte) < of_nat (length (snd b)) \<longleftrightarrow> length (snd a) < length (snd b)"
    by (simp add: byte_less)
  moreover have "(of_nat (length (snd a)) :: byte) \<noteq> of_nat (length (snd b))"
    using small False by (metis byte_less linorder_neqE less_irrefl)
  ultimately show ?thesis using assms False by (cases a; cases b) (auto simp: addrKeys_def)
qed

lemma embeds_lastBid: "embeds K (GetLastBidIdKey L)"
  and embeds_auction: "embeds K (GetAuctionKey L)"
  and embeds_len: "embeds K (GetLastMatchedBidsLenKey L)"
  by (simp_all add: embeds_def key_defs key_prefixes be_less)

lemma embeds_bid: "embeds K (encBid L)"
  by (auto simp: embeds_def encBid_def GetBidKey_def key_prefixes be_append_less less_prod_def be_less)

lemma embeds_queue: "K \<subseteq> queueKeys \<Longrightarrow> embeds K (encQueue L)"
  by (auto simp: embeds_def encQueue_def GetVestingQueueKey_def key_prefixes be_append_less less_prod_def
      queueKeys_def FormatTime_less subset_iff)

lemma embeds_allowed: "K \<subseteq> allowedKeys \<Longrightarrow> embeds K (encAllowed L)"
  unfolding embeds_def
proof (intro ballI impI)
  fix a b assume K: "K \<subseteq> allowedKeys" and mem: "a \<in> K" "b \<in> K" and "a < b"
  then have "a \<in> allowedKeys" "b \<in> allowedKeys" by auto
  moreover have "fst a < fst b \<or> fst a = fst b \<and> snd a < snd b"
    using \<open>a < b\<close> by (cases a; cases b) auto
  ultimately show "encAllowed L a < encAllowed L b"
    using addr_less [of "snd a" "snd b" "[]" "[]"] by (auto simp: encAllowed_shape be_append_less allowedKeys_def)
qed

lemma embeds_index: "K \<subseteq> indexKeys \<Longrightarrow> embeds K (encIndex L)"
  unfolding embeds_def
proof (intro ballI impI)
  fix a b assume K: "K \<subseteq> indexKeys" and mem: "a \<in> K" "b \<in> K" and "a < b"
  then have *: "a \<in> indexKeys" "b \<in> indexKeys" by auto
  have "fst a < fst b \<or> fst a = fst b \<and> (fst (snd a) < fst (snd b)
      \<or> fst (snd a) = fst (snd b) \<and> snd (snd a) < snd (snd b))"
    using \<open>a < b\<close> by (cases a; cases b) auto
  then show "encIndex L a < encIndex L b"
    using * addr_less [of "fst a" "fst b"] be_append_less be_less by (auto simp: encIndex_shape indexKeys_def)
qed

text \<open>The segments of an encodable state carry their prefix byte.\<close>

lemma tags:
  assumes "encodable s"
  shows "tagged 0x11 [(LastAuctionIdKey, v)]" "tagged 0x12 (encoded (GetLastBidIdKey L) VId (LastBidIds s))"
    "tagged 0x21 (encoded (GetAuctionKey L) VAuction (Auctions s))"
    "tagged 0x22 (encoded (encAllowed L) VAllowedBidder (AllowedBidders s))"
    "tagged 0x31 (encoded (encBid L) VBid (Bids s))" "tagged 0x32 (encoded (encIndex L) VIndex (BidIndex s))"
    "tagged 0x33 (encoded (GetLastMatchedBidsLenKey L) VLen (MatchedBidsLens s))"
    "tagged 0x41 (encoded (encQueue L) VQueue (VestingQueues s))"
proof -
  have "\<forall>x \<in> fst ` set (AllowedBidders s). \<exists>r. encAllowed L x = 0x22 # r"
    using encodableD(8) [OF assms] encAllowed_shape by blast
  then show "tagged 0x22 (encoded (encAllowed L) VAllowedBidder (AllowedBidders s))" by (auto simp: tagged_def)
  have "\<forall>x \<in> fst ` set (BidIndex s). \<exists>r. encIndex L x = 0x32 # r"
    using encodableD(9) [OF assms] encIndex_shape by blast
  then show "tagged 0x32 (encoded (encIndex L) VIndex (BidIndex s))" by (auto simp: tagged_def)
qed (auto simp: tagged_def key_defs key_prefixes encBid_def encQueue_def)

lemma embeddings:
  assumes "encodable s"
  shows "embeds (fst ` set (AllowedBidders s)) (encAllowed L)" "embeds (fst ` set (BidIndex s)) (encIndex L)"
    "embeds (fst ` set (VestingQueues s)) (encQueue L)"
  using encodableD(8-10) [OF assms] by (simp_all add: embeds_allowed embeds_index embeds_queue)

text \<open>A write at a key of one segment changes that segment alone: the segments before it are skipped,
  those after it are not reached.\<close>

lemma kv_SetAuctionId: "kvOf L (SetAuctionId i s) = oset LastAuctionIdKey (VId i) (kvOf L s)"
  by (simp add: kvOf_def SetAuctionId_def LastAuctionIdKey_def)

lemma kv_SetBidId:
  assumes "encodable s"
  shows "kvOf L (SetBidId i n s) = oset (GetLastBidIdKey L i) (VId n) (kvOf L s)"
proof -
  note [simp] = tags [OF assms, THEN oset_skip] tags [OF assms, THEN tagged_above] oset_stop
  have "oset (GetLastBidIdKey L i) (VId n) (encoded (GetLastBidIdKey L) VId (LastBidIds s))
      = encoded (GetLastBidIdKey L) VId (oset i n (LastBidIds s))"
    by (rule encoded_oset) (rule embeds_lastBid)
  then show ?thesis by (simp add: kvOf_def SetBidId_def GetLastBidIdKey_def key_prefixes)
qed

lemma kv_SetAuction:
  assumes "encodable s"
  shows "kvOf L (SetAuction a s) = oset (GetAuctionKey L (GetId a)) (VAuction a) (kvOf L s)"
proof -
  note [simp] = tags [OF assms, THEN oset_skip] tags [OF assms, THEN tagged_above] oset_stop
  have "oset (GetAuctionKey L (GetId a)) (VAuction a) (encoded (GetAuctionKey L) VAuction (Auctions s))
      = encoded (GetAuctionKey L) VAuction (oset (GetId a) a (Auctions s))"
    by (rule encoded_oset) (rule embeds_auction)
  then show ?thesis by (simp add: kvOf_def SetAuction_def GetAuctionKey_def key_prefixes)
qed

lemma kv_SetMatchedBidsLen:
  assumes "encodable s"
  shows "kvOf L (SetMatchedBidsLen i n s) = oset (GetLastMatchedBidsLenKey L i) (VLen n) (kvOf L s)"
proof -
  note [simp] = tags [OF assms, THEN oset_skip] tags [OF assms, THEN tagged_above] oset_stop
  have "oset (GetLastMatchedBidsLenKey L i) (VLen n) (encoded (GetLastMatchedBidsLenKey L) VLen (MatchedBidsLens s))
      = encoded (GetLastMatchedBidsLenKey L) VLen (oset i n (MatchedBidsLens s))"
    by (rule encoded_oset) (rule embeds_len)
  then show ?thesis by (simp add: kvOf_def SetMatchedBidsLen_def GetLastMatchedBidsLenKey_def key_prefixes)
qed

lemma kv_SetVestingQueue:
  assumes "encodable s" and "formattable (vq_ReleaseTime q)"
  shows "kvOf L (SetVestingQueue q s)
    = oset (GetVestingQueueKey L (vq_AuctionId q) (vq_ReleaseTime q)) (VQueue q) (kvOf L s)"
proof -
  note [simp] = tags [OF assms(1), THEN oset_skip] tags [OF assms(1), THEN tagged_above] oset_stop
  have "oset (encQueue L (vq_AuctionId q, vq_ReleaseTime q)) (VQueue q) (encoded (encQueue L) VQueue (VestingQueues s))
      = encoded (encQueue L) VQueue (oset (vq_AuctionId q, vq_ReleaseTime q) q (VestingQueues s))"
    by (intro encoded_oset embeds_queue) (use encodableD(10) [OF assms(1)] assms(2) in \<open>auto simp: queueKeys_def\<close>)
  then show ?thesis by (simp add: kvOf_def SetVestingQueue_def encQueue_def GetVestingQueueKey_def key_prefixes)
qed

lemma kv_AllowedBidders:
  assumes "encodable s" and "usableAddress x"
  shows "\<exists>key. GetAllowedBidderKey L i x = Some key
    \<and> kvOf L (s\<lparr>AllowedBidders := oset (i, addrKey x) ab (AllowedBidders s)\<rparr>) = oset key (VAllowedBidder ab) (kvOf L s)"
proof -
  note [simp] = tags [OF assms(1), THEN oset_skip] tags [OF assms(1), THEN tagged_above] oset_stop
  have mem: "(i, addrKey x) \<in> allowedKeys" using assms(2) by (simp add: allowedKeys_def addrKey_mem)
  have "oset (encAllowed L (i, addrKey x)) (VAllowedBidder ab) (encoded (encAllowed L) VAllowedBidder (AllowedBidders s))
      = encoded (encAllowed L) VAllowedBidder (oset (i, addrKey x) ab (AllowedBidders s))"
    by (intro encoded_oset embeds_allowed) (use encodableD(8) [OF assms(1)] mem in auto)
  moreover have "GetAllowedBidderKey L i x = Some (encAllowed L (i, addrKey x))"
    using assms(2) by (simp add: GetAllowedBidderKey_def encAllowed_def LengthPrefix_law addrKey_def)
  ultimately show ?thesis using mem by (simp add: kvOf_def encAllowed_shape LastAuctionIdKey_def)
qed

lemma kv_Bids:
  assumes "encodable s"
  shows "kvOf L (s\<lparr>Bids := oset (i, j) b (Bids s)\<rparr>) = oset (GetBidKey L i j) (VBid b) (kvOf L s)"
proof -
  note [simp] = tags [OF assms, THEN oset_skip] tags [OF assms, THEN tagged_above] oset_stop
  have "oset (encBid L (i, j)) (VBid b) (encoded (encBid L) VBid (Bids s))
      = encoded (encBid L) VBid (oset (i, j) b (Bids s))"
    by (intro encoded_oset embeds_bid)
  then show ?thesis by (simp add: kvOf_def encBid_def GetBidKey_def key_prefixes)
qed

lemma kv_BidIndex:
  assumes "encodable s" and "usableAddress x"
  shows "\<exists>key. GetBidIndexKey L x i j = Some key
    \<and> kvOf L (s\<lparr>BidIndex := oset (addrKey x, i, j) () (BidIndex s)\<rparr>) = oset key (VIndex ()) (kvOf L s)"
proof -
  note [simp] = tags [OF assms(1), THEN oset_skip] tags [OF assms(1), THEN tagged_above] oset_stop
  have mem: "(addrKey x, i, j) \<in> indexKeys" using assms(2) by (simp add: indexKeys_def addrKey_mem)
  have "oset (encIndex L (addrKey x, i, j)) (VIndex ()) (encoded (encIndex L) VIndex (BidIndex s))
      = encoded (encIndex L) VIndex (oset (addrKey x, i, j) () (BidIndex s))"
    by (intro encoded_oset embeds_index) (use encodableD(9) [OF assms(1)] mem in auto)
  moreover have "GetBidIndexKey L x i j = Some (encIndex L (addrKey x, i, j))"
    using assms(2) by (simp add: GetBidIndexKey_def encIndex_def LengthPrefix_law addrKey_def)
  ultimately show ?thesis using mem by (simp add: kvOf_def encIndex_shape LastAuctionIdKey_def)
qed

text \<open>The segments of a state, in order, are the whole store in order.\<close>

lemma kvOf_ordered: "encodable s \<Longrightarrow> owf (kvOf L s)"
  unfolding kvOf_def
  by (intro owf_segment [OF tags(1)] owf_segment [OF tags(2)] owf_segment [OF tags(3)] owf_segment [OF tags(4)]
      owf_segment [OF tags(5)] owf_segment [OF tags(6)] owf_segment [OF tags(7)] owf_encoded embeddings
      embeds_lastBid embeds_auction embeds_bid embeds_len)
    (simp_all add: encodableD tags [THEN tagged_above] owf_Cons)

text \<open>Reading and iterating.\<close>

lemma kv_reads:
  assumes "encodable s"
  shows "oget (kvOf L s) LastAuctionIdKey = Some (VId (GetLastAuctionId s))"
    "oget (kvOf L s) (GetAuctionKey L i) = map_option VAuction (GetAuction i s)"
    "oget (kvOf L s) (GetLastBidIdKey L i) = map_option VId (oget (LastBidIds s) i)"
    "oget (kvOf L s) (GetBidKey L i j) = map_option VBid (GetBid i j s)"
    "oget (kvOf L s) (GetLastMatchedBidsLenKey L i) = map_option VLen (oget (MatchedBidsLens s) i)"
proof -
  note [simp] = tags [OF assms, THEN oget_other_tag] map_add_def
  show "oget (kvOf L s) LastAuctionIdKey = Some (VId (GetLastAuctionId s))"
    by (simp add: kvOf_def GetLastAuctionId_def)
  show "oget (kvOf L s) (GetAuctionKey L i) = map_option VAuction (GetAuction i s)"
    using oget_encoded [OF embeds_auction, where k = i and m = "Auctions s" and g = VAuction]
    by (simp add: kvOf_def GetAuction_def GetAuctionKey_def key_prefixes split: option.split)
  show "oget (kvOf L s) (GetLastBidIdKey L i) = map_option VId (oget (LastBidIds s) i)"
    using oget_encoded [OF embeds_lastBid, where k = i and m = "LastBidIds s" and g = VId]
    by (simp add: kvOf_def GetLastBidIdKey_def key_prefixes split: option.split)
  show "oget (kvOf L s) (GetBidKey L i j) = map_option VBid (GetBid i j s)"
    using oget_encoded [OF embeds_bid, where k = "(i, j)" and m = "Bids s" and g = VBid]
    by (simp add: kvOf_def GetBid_def encBid_def GetBidKey_def key_prefixes split: option.split)
  show "oget (kvOf L s) (GetLastMatchedBidsLenKey L i) = map_option VLen (oget (MatchedBidsLens s) i)"
    using oget_encoded [OF embeds_len, where k = i and m = "MatchedBidsLens s" and g = VLen]
    by (simp add: kvOf_def GetLastMatchedBidsLenKey_def key_prefixes split: option.split)
qed

lemma kv_read_addresses:
  assumes "encodable s" and "usableAddress x"
  shows "\<exists>key. GetAllowedBidderKey L i x = Some key
      \<and> oget (kvOf L s) key = map_option VAllowedBidder (GetAllowedBidder i x s)"
    and "formattable t \<Longrightarrow> oget (kvOf L s) (GetVestingQueueKey L i t) = map_option VQueue (oget (VestingQueues s) (i, t))"
proof -
  note [simp] = tags [OF assms(1), THEN oget_other_tag] map_add_def
  have mem: "(i, addrKey x) \<in> allowedKeys" using assms(2) by (simp add: allowedKeys_def addrKey_mem)
  have "embeds (insert (i, addrKey x) (fst ` set (AllowedBidders s))) (encAllowed L)"
    by (rule embeds_allowed) (use encodableD(8) [OF assms(1)] mem in auto)
  then have "oget (kvOf L s) (encAllowed L (i, addrKey x)) = map_option VAllowedBidder (GetAllowedBidder i x s)"
    using oget_encoded [where k = "(i, addrKey x)" and m = "AllowedBidders s" and g = VAllowedBidder and f = "encAllowed L"] mem
    by (simp add: kvOf_def GetAllowedBidder_def encAllowed_shape LastAuctionIdKey_def split: option.split)
  moreover have "GetAllowedBidderKey L i x = Some (encAllowed L (i, addrKey x))"
    using assms(2) by (simp add: GetAllowedBidderKey_def encAllowed_def LengthPrefix_law addrKey_def)
  ultimately show "\<exists>key. GetAllowedBidderKey L i x = Some key
      \<and> oget (kvOf L s) key = map_option VAllowedBidder (GetAllowedBidder i x s)" by blast
  show "oget (kvOf L s) (GetVestingQueueKey L i t) = map_option VQueue (oget (VestingQueues s) (i, t))" if "formattable t"
  proof -
    have "embeds (insert (i, t) (fst ` set (VestingQueues s))) (encQueue L)"
      by (rule embeds_queue) (use encodableD(10) [OF assms(1)] that in \<open>auto simp: queueKeys_def\<close>)
    then show ?thesis
      using oget_encoded [where k = "(i, t)" and m = "VestingQueues s" and g = VQueue and f = "encQueue L"]
      by (simp add: kvOf_def encQueue_def GetVestingQueueKey_def key_prefixes split: option.split)
  qed
qed

text \<open>Iteration over a prefix visits exactly the entries of one segment, or of one auction or bidder
  in it, in the order of the typed map.\<close>

lemma snd_encoded: "map snd (encoded f g m) = map g (map snd m)"
  by (simp add: encoded_def comp_def)

lemma iterations:
  assumes "encodable s"
  shows "map snd (prefixEntries AuctionKeyPrefix (kvOf L s)) = map VAuction (GetAuctions s)"
    "map snd (prefixEntries BidKeyPrefix (kvOf L s)) = map VBid (GetBids s)"
    "map snd (prefixEntries VestingQueueKeyPrefix (kvOf L s)) = map VQueue (GetVestingQueues s)"
    "map snd (prefixEntries (GetBidByAuctionIdPrefix L i) (kvOf L s)) = map VBid (GetBidsByAuctionId i s)"
    "map snd (prefixEntries (GetVestingQueueByAuctionIdPrefix L i) (kvOf L s))
      = map VQueue (GetVestingQueuesByAuctionId i s)"
    "map snd (prefixEntries (GetAllowedBiddersByAuctionKeyPrefix L i) (kvOf L s))
      = map VAllowedBidder (GetAllowedBiddersByAuction i s)"
proof -
  note [simp] = tags [OF assms, THEN prefixEntries_other_tag] snd_encoded
  have last': "prefixEntries (c # r) (([0x11], v) # m) = prefixEntries (c # r) m" if "c \<noteq> 0x11" for c r v m
    using that by (simp add: prefixEntries_def)
  show "map snd (prefixEntries AuctionKeyPrefix (kvOf L s)) = map VAuction (GetAuctions s)"
    using prefixEntries_encoded [where P = "\<lambda>_. True" and m = "Auctions s" and g = VAuction and f = "GetAuctionKey L" and p = "[0x21]"]
    by (simp add: kvOf_def last' GetAuctions_def oiter_def GetAuctionKey_def key_prefixes)
  show "map snd (prefixEntries BidKeyPrefix (kvOf L s)) = map VBid (GetBids s)"
    using prefixEntries_encoded [where P = "\<lambda>_. True" and m = "Bids s" and g = VBid and f = "encBid L" and p = "[0x31]"]
    by (simp add: kvOf_def last' GetBids_def oiter_def encBid_def GetBidKey_def key_prefixes)
  show "map snd (prefixEntries VestingQueueKeyPrefix (kvOf L s)) = map VQueue (GetVestingQueues s)"
    using prefixEntries_encoded [where P = "\<lambda>_. True" and m = "VestingQueues s" and g = VQueue and f = "encQueue L" and p = "[0x41]"]
    by (simp add: kvOf_def last' GetVestingQueues_def oiter_def encQueue_def GetVestingQueueKey_def key_prefixes)
  have "\<forall>k \<in> fst ` set (Bids s). prefix (GetBidByAuctionIdPrefix L i) (encBid L k) \<longleftrightarrow> fst k = i"
    by (auto simp: GetBidByAuctionIdPrefix_def encBid_def GetBidKey_def key_prefixes)
  from prefixEntries_encoded [OF this, of VBid]
  show "map snd (prefixEntries (GetBidByAuctionIdPrefix L i) (kvOf L s)) = map VBid (GetBidsByAuctionId i s)"
    by (simp add: kvOf_def last' GetBidsByAuctionId_def oiter_def GetBidByAuctionIdPrefix_def key_prefixes)
  have "\<forall>k \<in> fst ` set (VestingQueues s). prefix (GetVestingQueueByAuctionIdPrefix L i) (encQueue L k) \<longleftrightarrow> fst k = i"
    by (auto simp: GetVestingQueueByAuctionIdPrefix_def encQueue_def GetVestingQueueKey_def key_prefixes)
  from prefixEntries_encoded [OF this, of VQueue]
  show "map snd (prefixEntries (GetVestingQueueByAuctionIdPrefix L i) (kvOf L s))
      = map VQueue (GetVestingQueuesByAuctionId i s)"
    by (simp add: kvOf_def last' GetVestingQueuesByAuctionId_def oiter_def GetVestingQueueByAuctionIdPrefix_def key_prefixes)
  have "\<forall>k \<in> fst ` set (AllowedBidders s). prefix (GetAllowedBiddersByAuctionKeyPrefix L i) (encAllowed L k) \<longleftrightarrow> fst k = i"
  proof
    fix k assume "k \<in> fst ` set (AllowedBidders s)"
    then have "k \<in> allowedKeys" using encodableD(8) [OF assms] by blast
    then show "prefix (GetAllowedBiddersByAuctionKeyPrefix L i) (encAllowed L k) \<longleftrightarrow> fst k = i"
      by (auto simp: GetAllowedBiddersByAuctionKeyPrefix_def encAllowed_shape key_prefixes)
  qed
  from prefixEntries_encoded [OF this, of VAllowedBidder]
  show "map snd (prefixEntries (GetAllowedBiddersByAuctionKeyPrefix L i) (kvOf L s))
      = map VAllowedBidder (GetAllowedBiddersByAuction i s)"
    by (simp add: kvOf_def last' LastAuctionIdKey_def GetAllowedBiddersByAuction_def oiter_def GetAllowedBiddersByAuctionKeyPrefix_def key_prefixes)
qed

text \<open>The entries of a bidder in the bid index, and what their keys parse to.\<close>

lemma prefix_addr:
  assumes "usableAddress x" and "usableAddress y"
  shows "prefix ((of_nat (length x) :: byte) # x) (of_nat (length y) # y @ r) \<longleftrightarrow> x = y"
proof
  assume "prefix ((of_nat (length x) :: byte) # x) (of_nat (length y) # y @ r)"
  then have l: "(of_nat (length x) :: byte) = of_nat (length y)" and p: "prefix x (y @ r)" by auto
  have "length x < 256" "length y < 256" using assms by (simp_all add: usableAddress_def)
  then have "length x = length y" using l by (metis byte_less linorder_neqE less_irrefl)
  then show "x = y" using p by (simp add: prefix_same_length)
qed simp

lemma indexEntries:
  assumes "encodable s" and "usableAddress x"
  shows "\<exists>p. GetBidIndexByBidderPrefix L x = Some p
    \<and> prefixEntries p (kvOf L s) = encoded (encIndex L) VIndex (filter (\<lambda>e. fst (fst e) = addrKey x) (BidIndex s))"
proof -
  note [simp] = tags [OF assms(1), THEN prefixEntries_other_tag]
  have other: "prefixEntries (c # r) (([0x11], v) # m) = prefixEntries (c # r) m" if "c \<noteq> 0x11" for c r v m
    using that by (simp add: prefixEntries_def)
  define p where "p = (0x32 :: byte) # of_nat (length x) # x"
  have "\<forall>k \<in> fst ` set (BidIndex s). prefix p (encIndex L k) \<longleftrightarrow> fst k = addrKey x"
  proof
    fix k assume "k \<in> fst ` set (BidIndex s)"
    then have k: "k \<in> indexKeys" using encodableD(9) [OF assms(1)] by blast
    then have u: "usableAddress (snd (fst k))" and eq: "fst k = addrKey (snd (fst k))"
      by (auto simp: indexKeys_def addrKeys_def addrKey_def prod_eq_iff)
    have "prefix p (encIndex L k) \<longleftrightarrow> x = snd (fst k)"
      using prefix_addr [OF assms(2) u] by (simp add: p_def encIndex_shape [OF k])
    also have "\<dots> \<longleftrightarrow> fst k = addrKey x" by (subst eq) auto
    finally show "prefix p (encIndex L k) \<longleftrightarrow> fst k = addrKey x" .
  qed
  from prefixEntries_encoded [OF this, of VIndex]
  have "prefixEntries p (kvOf L s) = encoded (encIndex L) VIndex (filter (\<lambda>e. fst (fst e) = addrKey x) (BidIndex s))"
    by (simp add: kvOf_def other p_def key_prefixes)
  moreover have "GetBidIndexByBidderPrefix L x = Some p"
    using assms(2) by (simp add: GetBidIndexByBidderPrefix_def LengthPrefix_law key_prefixes p_def)
  ultimately show ?thesis by blast
qed

lemma parse_encIndex:
  assumes "k \<in> indexKeys" and "length (snd (fst k)) < 246"
  shows "ParseBidIndexKey L (encIndex L k) = Some (snd k)"
proof -
  let ?a = "snd (fst k)" and ?i = "fst (snd k)" and ?j = "snd (snd k)"
  let ?n = "of_nat (length ?a) :: byte"
  have key: "encIndex L k = 0x32 # ?n # ?a @ Uint64ToBigEndian L ?i @ Uint64ToBigEndian L ?j"
    by (rule encIndex_shape) (rule assms(1))
  have n2: "unat (2 + ?n) = 2 + length ?a" and n10: "unat (2 + ?n + 8) = 10 + length ?a"
    using assms(2) by (simp_all add: unat_word_ariths unat_of_nat)
  have "sliceFrom (encIndex L k) (2 + ?n) = Some (Uint64ToBigEndian L ?i @ Uint64ToBigEndian L ?j)"
    by (simp add: sliceFrom_def n2 key)
  moreover have "sliceFrom (encIndex L k) (2 + ?n + 8) = Some (Uint64ToBigEndian L ?j)"
  proof -
    have "10 + length ?a = Suc (Suc (length ?a + 8))" by simp
    then have "drop (10 + length ?a) (encIndex L k) = Uint64ToBigEndian L ?j"
      unfolding key by (simp only: drop_Suc_Cons) simp
    then show ?thesis unfolding sliceFrom_def n10 by (simp add: key)
  qed
  moreover have "BigEndianToUint64 L (Uint64ToBigEndian L ?j) = Some ?j" using BigEndian_read [of ?j "[]"] by simp
  ultimately show ?thesis
    by (simp add: ParseBidIndexKey_def key key_prefixes BigEndian_read Let_def)
qed

lemma split_ids: "SplitAuctionIdBidIdKey L (Uint64ToBigEndian L i @ Uint64ToBigEndian L j) = Some (i, j)"
  using BigEndian_read [of j "[]"] by (simp add: SplitAuctionIdBidIdKey_def BigEndian_read sliceFrom_def)

text \<open>From 246 bytes of address on, the offset of the bid id wraps around to the start of the key.\<close>

lemma parse_wraps:
  assumes "length x = 246"
  shows "ParseBidIndexKey L (the (GetBidIndexKey L x i j))
    = Option.bind (BigEndianToUint64 L (the (GetBidIndexKey L x i j))) (\<lambda>n. Some (i, n))"
proof -
  have "usableAddress x" using assms by (auto simp: usableAddress_def)
  then have key: "the (GetBidIndexKey L x i j) = 0x32 # 246 # x @ Uint64ToBigEndian L i @ Uint64ToBigEndian L j"
    using assms by (simp add: GetBidIndexKey_def LengthPrefix_law key_prefixes)
  have "sliceFrom (the (GetBidIndexKey L x i j)) (2 + 246) = Some (Uint64ToBigEndian L i @ Uint64ToBigEndian L j)"
    using assms by (simp add: sliceFrom_def key)
  then show ?thesis
    using assms by (simp add: ParseBidIndexKey_def key key_prefixes BigEndian_read Let_def sliceFrom_def)
qed

end

end
