(* ===== verification/Encoding.thy ===== *)
theory Encoding
  imports Keys Scenario
begin

text \<open>
  The typed maps of the state as a faithful view of the byte store: every write of the keeper is the
  write of its key, every iteration is the iteration over its prefix, and the keys of the bid index
  parse back to what they were built from. The reference encodings at the beginning satisfy the laws
  of \<open>key_laws\<close>.
\<close>

section \<open>Reference encodings\<close>

fun beValue :: "bytes \<Rightarrow> nat" where
  "beValue [] = 0"
| "beValue (b # bs) = unat b * 256 ^ length bs + beValue bs"

definition refKeylib :: keylib where
  "refKeylib =
   \<lparr> Uint64ToBigEndian = (\<lambda>n. beBytes 8 (unat n)),
     BigEndianToUint64 = (\<lambda>bz. if bz = [] then Some 0 else if length bz < 8 then None
       else Some (of_nat (beValue (take 8 bz)))),
     MustLengthPrefix = (\<lambda>a. if a = [] then Some [] else if 255 < length a then None
       else Some (of_nat (length a) # a)),
     FormatTimeBytes = (\<lambda>t. beBytes 29 (nat (t + 62167219200 * 10 ^ 9))) \<rparr>"

lemma beBytes_numeral:
  "beBytes (numeral w) n = of_nat (n div 256 ^ pred_numeral w) # beBytes (pred_numeral w) (n mod 256 ^ pred_numeral w)"
  by (simp add: numeral_eq_Suc)

lemma beValue_beBytes: "n < 256 ^ w \<Longrightarrow> beValue (beBytes w n) = n"
proof (induction w arbitrary: n)
  case (Suc w)
  then have "n div 256 ^ w < 256" by (simp add: less_mult_imp_div_less)
  then have "unat (of_nat (n div 256 ^ w) :: byte) = n div 256 ^ w" by (simp add: unat_of_nat)
  then show ?case using Suc.IH [of "n mod 256 ^ w"] div_mult_mod_eq [of n "256 ^ w"] by simp
qed simp

lemma ref_key_laws: "key_laws refKeylib"
proof
  fix n :: uint64 and r
  have "unat n < 256 ^ 8" using unsigned_less [of n] by simp
  then have "beValue (beBytes 8 (unat n)) = unat n" by (rule beValue_beBytes)
  then show "BigEndianToUint64 refKeylib (Uint64ToBigEndian refKeylib n @ r) = Some n"
    by (simp add: refKeylib_def flip: length_0_conv)
next
  fix t u :: time assume "formattable t" "formattable u" "t < u"
  then show "FormatTimeBytes refKeylib t < FormatTimeBytes refKeylib u"
    unfolding refKeylib_def keylib.simps formattable_def by (intro beBytes_less) simp_all
qed (auto simp: refKeylib_def usableAddress_def)

interpretation ref_keys: key_laws refKeylib
  by (rule ref_key_laws)

section \<open>Keys read back\<close>



section \<open>Writes\<close>

lemma encodable_writes:
  assumes "encodable s"
  shows "encodable (SetAuctionId i s)" "encodable (SetAuction a s)" "encodable (SetBidId i n s)"
    "encodable (SetMatchedBidsLen i m s)" "formattable (vq_ReleaseTime q) \<Longrightarrow> encodable (SetVestingQueue q s)"
    "encodable (s\<lparr>Bids := oset kb b (Bids s)\<rparr>)"
    "usableAddress x \<Longrightarrow> encodable (s\<lparr>AllowedBidders := oset (i, addrKey x) ab (AllowedBidders s)\<rparr>)"
    "usableAddress x \<Longrightarrow> encodable (s\<lparr>BidIndex := oset (addrKey x, i, j) () (BidIndex s)\<rparr>)"
  using assms by (simp_all add: encodable_def SetAuctionId_def SetAuction_def SetBidId_def SetMatchedBidsLen_def
      SetVestingQueue_def queueKeys_def allowedKeys_def indexKeys_def addrKey_mem)

text \<open>C29. Every write of the keeper's store operations is, in the byte store that the state stands for,
  the write of the value under its key and nothing else; a bid is written twice, under its own key and
  in the index of its bidder. The state stays one whose keys have an encoding.\<close>

theorem writes_refine_byte_store:
  assumes "key_laws L" and "encodable s" and "formattable (vq_ReleaseTime q)"
    and "AllowedBidder_GetBidder S ab = Some x" and "usableAddress x"
    and "Bid_GetBidder S b = Some y" and "usableAddress y"
  shows "kvOf L (SetAuctionId i s) = oset LastAuctionIdKey (VId i) (kvOf L s)
    \<and> kvOf L (SetAuction a s) = oset (GetAuctionKey L (GetId a)) (VAuction a) (kvOf L s)
    \<and> kvOf L (SetBidId i n s) = oset (GetLastBidIdKey L i) (VId n) (kvOf L s)
    \<and> kvOf L (SetMatchedBidsLen i m s) = oset (GetLastMatchedBidsLenKey L i) (VLen m) (kvOf L s)
    \<and> kvOf L (SetVestingQueue q s)
      = oset (GetVestingQueueKey L (vq_AuctionId q) (vq_ReleaseTime q)) (VQueue q) (kvOf L s)
    \<and> (\<exists>t key. SetAllowedBidder S i ab s = (Ok (), t) \<and> encodable t
        \<and> GetAllowedBidderKey L i x = Some key \<and> kvOf L t = oset key (VAllowedBidder ab) (kvOf L s))
    \<and> (\<exists>t key. SetBid S b s = (Ok (), t) \<and> encodable t
        \<and> GetBidIndexKey L y (bid_AuctionId b) (bid_Id b) = Some key
        \<and> kvOf L t = oset key (VIndex ()) (oset (GetBidKey L (bid_AuctionId b) (bid_Id b)) (VBid b) (kvOf L s)))"
proof -
  note laws = assms(1) and enc = assms(2)
  let ?t = "s\<lparr>AllowedBidders := oset (i, addrKey x) ab (AllowedBidders s)\<rparr>"
  have "SetAllowedBidder S i ab s = (Ok (), ?t)" by (simp add: SetAllowedBidder_def monad_simps assms(4))
  moreover have "encodable ?t" by (rule encodable_writes(7) [OF enc assms(5)])
  ultimately have allowed: "\<exists>t key. SetAllowedBidder S i ab s = (Ok (), t) \<and> encodable t
      \<and> GetAllowedBidderKey L i x = Some key \<and> kvOf L t = oset key (VAllowedBidder ab) (kvOf L s)"
    using key_laws.kv_AllowedBidders [OF laws enc assms(5), of i ab] by blast
  define u where "u = s\<lparr>Bids := oset (bid_AuctionId b, bid_Id b) b (Bids s)\<rparr>"
  let ?v = "u\<lparr>BidIndex := oset (addrKey y, bid_AuctionId b, bid_Id b) () (BidIndex u)\<rparr>"
  have "SetBid S b s = (Ok (), ?v)" by (simp add: SetBid_def monad_simps assms(6) u_def)
  moreover have eu: "encodable u" unfolding u_def by (rule encodable_writes(6) [OF enc])
  moreover have "encodable ?v" by (rule encodable_writes(8) [OF eu assms(7)])
  moreover have "kvOf L u = oset (GetBidKey L (bid_AuctionId b) (bid_Id b)) (VBid b) (kvOf L s)"
    unfolding u_def by (rule key_laws.kv_Bids [OF laws enc])
  ultimately have "\<exists>t key. SetBid S b s = (Ok (), t) \<and> encodable t
      \<and> GetBidIndexKey L y (bid_AuctionId b) (bid_Id b) = Some key
      \<and> kvOf L t = oset key (VIndex ()) (oset (GetBidKey L (bid_AuctionId b) (bid_Id b)) (VBid b) (kvOf L s))"
    using key_laws.kv_BidIndex [OF laws eu assms(7), of "bid_AuctionId b" "bid_Id b"] by auto
  then show ?thesis
    using allowed key_laws.kv_SetAuctionId [OF laws] key_laws.kv_SetAuction [OF laws enc]
      key_laws.kv_SetBidId [OF laws enc] key_laws.kv_SetMatchedBidsLen [OF laws enc]
      key_laws.kv_SetVestingQueue [OF laws enc assms(3)] by blast
qed

lemma bidState_encodable: "encodable (bidState mx)"
  by (simp add: encodable_def bidState_def allowedState_def createdState_def startState_def allowedKeys_def indexKeys_def
      addrKey_mem usableAddress_def bytesOf_def owf_Cons)

theorem writes_refine_byte_store_witness:
  "kvOf refKeylib (SetAuction (theAuction 2) (bidState 2))
    = oset (GetAuctionKey refKeylib (GetId (theAuction 2))) (VAuction (theAuction 2)) (kvOf refKeylib (bidState 2))"
proof -
  let ?q = "zeroVestingQueue\<lparr>vq_ReleaseTime := 300\<rparr>"
  have f: "formattable (vq_ReleaseTime ?q)" by (simp add: formattable_def zeroVestingQueue_def)
  have ab: "AllowedBidder_GetBidder reference (limitFor ''bob'' 60) = Some (bytesOf ''bob'')"
    by (simp add: AllowedBidder_GetBidder_def limitFor_def bytesOf_usable)
  have b: "Bid_GetBidder reference theBid = Some (bytesOf ''bob'')"
    by (simp add: Bid_GetBidder_def theBid_def bidOf_def bidMsg_def bytesOf_usable)
  have u: "usableAddress (bytesOf ''bob'')" by (simp add: usableAddress_def bytesOf_def)
  show ?thesis
    using writes_refine_byte_store [OF ref_key_laws bidState_encodable f ab u b u] by blast
qed

section \<open>Iterations\<close>

text \<open>C30. The byte store of a state is ordered by its keys, and iterating over a prefix of it, as the
  code does, gives exactly the values the typed operations return, in the same order.\<close>

theorem iterations_refine_byte_store:
  assumes "key_laws L" and "encodable s"
  shows "owf (kvOf L s)
    \<and> map snd (prefixEntries AuctionKeyPrefix (kvOf L s)) = map VAuction (GetAuctions s)
    \<and> map snd (prefixEntries BidKeyPrefix (kvOf L s)) = map VBid (GetBids s)
    \<and> map snd (prefixEntries VestingQueueKeyPrefix (kvOf L s)) = map VQueue (GetVestingQueues s)
    \<and> map snd (prefixEntries (GetBidByAuctionIdPrefix L i) (kvOf L s)) = map VBid (GetBidsByAuctionId i s)
    \<and> map snd (prefixEntries (GetVestingQueueByAuctionIdPrefix L i) (kvOf L s))
      = map VQueue (GetVestingQueuesByAuctionId i s)
    \<and> map snd (prefixEntries (GetAllowedBiddersByAuctionKeyPrefix L i) (kvOf L s))
      = map VAllowedBidder (GetAllowedBiddersByAuction i s)"
  using key_laws.kvOf_ordered [OF assms] key_laws.iterations [OF assms] by blast

theorem iterations_refine_byte_store_witness:
  "map snd (prefixEntries BidKeyPrefix (kvOf refKeylib (bidState 2))) = [VBid theBid]"
  using iterations_refine_byte_store [OF ref_key_laws bidState_encodable, of 2]
  by (simp add: GetBids_def bidState_def)

text \<open>C31. The bids of a bidder, found by parsing the keys of the index under his prefix, are those of
  the typed index, as long as the index holds no address of 246 bytes or more.\<close>

theorem bids_by_bidder_parse_the_index:
  assumes "key_laws L" and "encodable s" and "usableAddress x" and "length x < 246"
  shows "\<exists>p. GetBidIndexByBidderPrefix L x = Some p
    \<and> GetBidsByBidder x s = map (\<lambda>e. case ParseBidIndexKey L (fst e) of
        Some (i, j) \<Rightarrow> (case GetBid i j s of None \<Rightarrow> zeroBid | Some b \<Rightarrow> b)
      | None \<Rightarrow> zeroBid) (prefixEntries p (kvOf L s))
    \<and> (\<forall>e \<in> set (prefixEntries p (kvOf L s)). ParseBidIndexKey L (fst e) \<noteq> None)"
proof -
  let ?m = "filter (\<lambda>e. fst (fst e) = addrKey x) (BidIndex s)"
  obtain p where p: "GetBidIndexByBidderPrefix L x = Some p"
    and e: "prefixEntries p (kvOf L s) = encoded (encIndex L) VIndex ?m"
    using key_laws.indexEntries [OF assms(1-3)] by blast
  have parse: "ParseBidIndexKey L (encIndex L (fst e)) = Some (snd (fst e))" if "e \<in> set ?m" for e
  proof (rule key_laws.parse_encIndex [OF assms(1)])
    show "fst e \<in> indexKeys" using that encodableD(9) [OF assms(2)] by auto
    show "length (snd (fst (fst e))) < 246" using that assms(4) by (simp add: addrKey_def)
  qed
  have "GetBidsByBidder x s = map (\<lambda>e. case ParseBidIndexKey L (fst e) of
        Some (i, j) \<Rightarrow> (case GetBid i j s of None \<Rightarrow> zeroBid | Some b \<Rightarrow> b)
      | None \<Rightarrow> zeroBid) (prefixEntries p (kvOf L s))"
    using parse by (auto simp: GetBidsByBidder_def e encoded_def split: prod.splits)
  moreover have "\<forall>e \<in> set (prefixEntries p (kvOf L s)). ParseBidIndexKey L (fst e) \<noteq> None"
    using parse by (fastforce simp: e encoded_def)
  ultimately show ?thesis using p by blast
qed

theorem bids_by_bidder_parse_the_index_witness:
  "\<exists>p. GetBidIndexByBidderPrefix refKeylib (bytesOf ''bob'') = Some p
    \<and> (\<forall>e \<in> set (prefixEntries p (kvOf refKeylib (bidState 2))). ParseBidIndexKey refKeylib (fst e) \<noteq> None)"
  using bids_by_bidder_parse_the_index [OF ref_key_laws bidState_encodable, of "bytesOf ''bob''" 2]
  by (auto simp: usableAddress_def bytesOf_def)

end
