(* ===== verification/Iteration.thy ===== *)
theory Iteration
  imports Store
begin

text \<open>
  The iterations of the store with a callback that may stop them (\<^verbatim>\<open>keeper/store.go\<close>). The callback
  is a closure that updates a captured variable; what it returns says whether to stop. The lemmas show
  that the operations that return a list are the iterations that collect all entries.
\<close>

section \<open>Loops that may stop\<close>

fun iterateUntil :: "('x \<Rightarrow> 'c \<Rightarrow> bool \<times> 'c) \<Rightarrow> 'x list \<Rightarrow> 'c \<Rightarrow> 'c" where
  "iterateUntil cb [] c = c"
| "iterateUntil cb (x # xs) c = (let (stop, c') = cb x c in if stop then c' else iterateUntil cb xs c')"

text \<open>A callback that may also fail: the error ends the iteration.\<close>

fun iterateErr :: "('x \<Rightarrow> 'c \<Rightarrow> (bool \<times> 'c) res) \<Rightarrow> 'x list \<Rightarrow> 'c \<Rightarrow> 'c res" where
  "iterateErr cb [] c = Ok c"
| "iterateErr cb (x # xs) c = bindR (cb x c) (\<lambda>(stop, c'). if stop then Ok c' else iterateErr cb xs c')"

definition appendAll :: "'x \<Rightarrow> 'x list \<Rightarrow> bool \<times> 'x list" where
  "appendAll x xs = (False, xs @ [x])"

lemma iterate_appendAll: "iterateUntil appendAll xs ys = ys @ xs"
  by (induction xs arbitrary: ys) (simp_all add: appendAll_def)

lemma iterateErr_total: "(\<And>x c. cb x c = Ok (g x c)) \<Longrightarrow> iterateErr cb xs c = Ok (iterateUntil g xs c)"
  by (induction xs arbitrary: c) (simp_all add: Let_def split: prod.splits)

text \<open>The callback sees exactly the entries up to the first at which it stops.\<close>

lemma iterate_stops:
  "iterateUntil (\<lambda>x c. (P x, c @ [x])) xs c = c @ takeWhile (\<lambda>x. \<not> P x) xs @ take 1 (dropWhile (\<lambda>x. \<not> P x) xs)"
  by (induction xs arbitrary: c) simp_all

section \<open>The iterations of the store\<close>

definition IterateAuctions :: "(AuctionI \<Rightarrow> 'c \<Rightarrow> bool \<times> 'c) \<Rightarrow> 'b state \<Rightarrow> 'c \<Rightarrow> 'c" where
  "IterateAuctions cb s = iterateUntil cb (oiter (\<lambda>_. True) (Auctions s))"

definition IterateAllowedBiddersByAuction ::
    "uint64 \<Rightarrow> (AllowedBidder \<Rightarrow> 'c \<Rightarrow> (bool \<times> 'c) res) \<Rightarrow> 'b state \<Rightarrow> 'c \<Rightarrow> 'c res" where
  "IterateAllowedBiddersByAuction auctionId cb s = iterateErr cb (oiter (\<lambda>k. fst k = auctionId) (AllowedBidders s))"

definition IterateBids :: "(Bid \<Rightarrow> 'c \<Rightarrow> bool \<times> 'c) \<Rightarrow> 'b state \<Rightarrow> 'c \<Rightarrow> 'c" where
  "IterateBids cb s = iterateUntil cb (oiter (\<lambda>_. True) (Bids s))"

definition IterateBidsByAuctionId :: "uint64 \<Rightarrow> (Bid \<Rightarrow> 'c \<Rightarrow> bool \<times> 'c) \<Rightarrow> 'b state \<Rightarrow> 'c \<Rightarrow> 'c" where
  "IterateBidsByAuctionId auctionId cb s = iterateUntil cb (oiter (\<lambda>k. fst k = auctionId) (Bids s))"

definition IterateBidsByBidder :: "accAddress \<Rightarrow> (Bid \<Rightarrow> 'c \<Rightarrow> bool \<times> 'c) \<Rightarrow> 'b state \<Rightarrow> 'c \<Rightarrow> 'c" where
  "IterateBidsByBidder bidderAddr cb s =
     iterateUntil (\<lambda>(i, n). cb (case GetBid i n s of None \<Rightarrow> zeroBid | Some b \<Rightarrow> b))
       (map (\<lambda>e. snd (fst e)) (filter (\<lambda>e. fst (fst e) = addrKey bidderAddr) (BidIndex s)))"

definition IterateVestingQueues :: "(VestingQueue \<Rightarrow> 'c \<Rightarrow> bool \<times> 'c) \<Rightarrow> 'b state \<Rightarrow> 'c \<Rightarrow> 'c" where
  "IterateVestingQueues cb s = iterateUntil cb (oiter (\<lambda>_. True) (VestingQueues s))"

definition IterateVestingQueuesByAuctionId ::
    "uint64 \<Rightarrow> (VestingQueue \<Rightarrow> 'c \<Rightarrow> bool \<times> 'c) \<Rightarrow> 'b state \<Rightarrow> 'c \<Rightarrow> 'c" where
  "IterateVestingQueuesByAuctionId auctionId cb s = iterateUntil cb (oiter (\<lambda>k. fst k = auctionId) (VestingQueues s))"

lemma lists_collect_iterations:
  "GetAuctions s = IterateAuctions appendAll s []"
  "Ok (GetAllowedBiddersByAuction i s) = IterateAllowedBiddersByAuction i (\<lambda>x c. Ok (appendAll x c)) s []"
  "GetBids s = IterateBids appendAll s []"
  "GetBidsByAuctionId i s = IterateBidsByAuctionId i appendAll s []"
  "GetVestingQueues s = IterateVestingQueues appendAll s []"
  "GetVestingQueuesByAuctionId i s = IterateVestingQueuesByAuctionId i appendAll s []"
  by (simp_all add: GetAuctions_def IterateAuctions_def GetAllowedBiddersByAuction_def IterateAllowedBiddersByAuction_def
      GetBids_def IterateBids_def GetBidsByAuctionId_def IterateBidsByAuctionId_def GetVestingQueues_def
      IterateVestingQueues_def GetVestingQueuesByAuctionId_def IterateVestingQueuesByAuctionId_def
      iterate_appendAll iterateErr_total [where g = appendAll])

lemma iterate_map: "iterateUntil cb (map f xs) c = iterateUntil (\<lambda>x. cb (f x)) xs c"
  by (induction xs arbitrary: c) (simp_all add: Let_def split: prod.splits)

lemma bids_by_bidder_collect: "GetBidsByBidder x s = IterateBidsByBidder x appendAll s []"
proof -
  let ?bid = "\<lambda>p. case GetBid (fst p) (snd p) s of None \<Rightarrow> zeroBid | Some b \<Rightarrow> b"
  have "IterateBidsByBidder x appendAll s [] = iterateUntil (\<lambda>p. appendAll (?bid p))
      (map (\<lambda>e. snd (fst e)) (filter (\<lambda>e. fst (fst e) = addrKey x) (BidIndex s))) []"
    by (simp add: IterateBidsByBidder_def case_prod_unfold)
  also have "\<dots> = map ?bid (map (\<lambda>e. snd (fst e)) (filter (\<lambda>e. fst (fst e) = addrKey x) (BidIndex s)))"
    unfolding iterate_map [symmetric, where f = ?bid] by (simp add: iterate_appendAll)
  finally show ?thesis by (simp add: GetBidsByBidder_def comp_def)
qed

end
