(* ===== verification/Query.thy ===== *)
theory Query
  imports Keys
begin

text \<open>
  The gRPC queries (\<^verbatim>\<open>keeper/grpc_query.go\<close>). They read the state and never change it.

  \<open>query.FilteredPaginate\<close> is the SDK's: it iterates over a prefix of the store, calls a function on
  each key and value that says whether the entry is a hit, and picks the hits of the requested page.
  It is a parameter, given the outcome of the function on every entry and returning the positions of
  the picked entries and the page response; \<open>pagination_laws\<close> states what its documentation promises.
  The packing of an auction into a protobuf \<open>Any\<close> is the codec's and is left out; a request pointer
  that may be nil is an option. Error texts are left out, their codes are kept.
\<close>

section \<open>Requests and errors\<close>

datatype grpcError = InvalidArgument | NotFound | Internal

type_synonym 'a qres = "(grpcError, 'a) result"

record PageRequest =
  pr_Key :: bytes
  pr_Offset :: uint64
  pr_Limit :: uint64
  pr_CountTotal :: bool
  pr_Reverse :: bool

record PageResponse =
  ps_NextKey :: bytes
  ps_Total :: uint64

record QueryAuctionsRequest =
  qas_Status :: string
  qas_Type :: string
  qas_Pagination :: "PageRequest option"

record QueryAuctionRequest =
  qa_AuctionId :: uint64

record QueryAllowedBidderRequest =
  qb_AuctionId :: uint64
  qb_Bidder :: string

record QueryAllowedBiddersRequest =
  qbs_AuctionId :: uint64
  qbs_Pagination :: "PageRequest option"

record QueryBidsRequest =
  qis_AuctionId :: uint64
  qis_Bidder :: string
  qis_IsMatched :: string
  qis_Pagination :: "PageRequest option"

record QueryBidRequest =
  qi_AuctionId :: uint64
  qi_BidId :: uint64

record QueryVestingsRequest =
  qv_AuctionId :: uint64

record querylib = keylib +
  FilteredPaginate ::
    "PageRequest option \<Rightarrow> (bytes \<times> bool qres) list \<Rightarrow> (nat list \<times> PageResponse) qres"

text \<open>\<open>strconv.ParseBool\<close>\<close>

definition ParseBool :: "string \<Rightarrow> bool qres" where
  "ParseBool t =
     (if t \<in> {''1'', ''t'', ''T'', ''TRUE'', ''true'', ''True''} then Ok True
      else if t \<in> {''0'', ''f'', ''F'', ''FALSE'', ''false'', ''False''} then Ok False
      else Err InvalidArgument)"

section \<open>Pagination\<close>

text \<open>\<open>prefix.NewStore\<close>: the entries under a prefix, by the rest of their key.\<close>

definition NewStore :: "bytes \<Rightarrow> kv \<Rightarrow> (bytes \<times> kvValue) list" where
  "NewStore p m = map (\<lambda>e. (drop (length p) (fst e), snd e)) (prefixEntries p m)"

text \<open>The function on an entry returns the value to append when the entry is a hit; it appends it when
  the page asks for it.\<close>

fun isHit :: "'x option qres \<Rightarrow> bool qres" where
  "isHit (Ok x) = Ok (x \<noteq> None)"
| "isHit (Err e) = Err e"
| "isHit Panic = Panic"

fun hitValue :: "'x option qres \<Rightarrow> 'x" where
  "hitValue (Ok (Some x)) = x"

definition paginate :: "'a querylib_scheme \<Rightarrow> PageRequest option \<Rightarrow> (bytes \<Rightarrow> kvValue \<Rightarrow> 'x option qres)
    \<Rightarrow> (bytes \<times> kvValue) list \<Rightarrow> ('x list \<times> PageResponse) qres" where
  "paginate L rq onResult es =
     bindR (FilteredPaginate L rq (map (\<lambda>e. (fst e, isHit (onResult (fst e) (snd e)))) es)) (\<lambda>p.
     Ok (map (\<lambda>i. hitValue (onResult (fst (es ! i)) (snd (es ! i)))) (fst p), snd p))"

text \<open>\<open>if err != nil \{ return nil, status.Error(codes.Internal, err.Error()) \}\<close>\<close>

fun internalR :: "'x qres \<Rightarrow> 'x qres" where
  "internalR (Ok x) = Ok x"
| "internalR (Err e) = Err Internal"
| "internalR Panic = Panic"

section \<open>Queries\<close>

definition QParams :: "'b state \<Rightarrow> Params qres" where
  "QParams s = Ok (params s)"

definition onAuction :: "QueryAuctionsRequest \<Rightarrow> bytes \<Rightarrow> kvValue \<Rightarrow> AuctionI option qres" where
  "onAuction req key v = (case v of
     VAuction auction \<Rightarrow>
       if qas_Type req \<noteq> [] \<and> AuctionType_String (GetType auction) \<noteq> qas_Type req then Ok None
       else if qas_Status req \<noteq> [] \<and> AuctionStatus_String (GetStatus auction) \<noteq> qas_Status req then Ok None
       else Ok (Some auction)
   | _ \<Rightarrow> Err Internal)"

definition QAuctions :: "'a querylib_scheme \<Rightarrow> QueryAuctionsRequest option \<Rightarrow> 'b state
    \<Rightarrow> (AuctionI list \<times> PageResponse) qres" where
  "QAuctions L rq s = (case rq of None \<Rightarrow> Err InvalidArgument
   | Some req \<Rightarrow>
     if qas_Type req \<noteq> [] \<and> \<not> (qas_Type req = AuctionType_String AuctionTypeFixedPrice
          \<or> qas_Type req = AuctionType_String AuctionTypeBatch) then Err InvalidArgument
     else if qas_Status req \<noteq> [] \<and> \<not> (qas_Status req = AuctionStatus_String AuctionStatusStandBy
          \<or> qas_Status req = AuctionStatus_String AuctionStatusStarted
          \<or> qas_Status req = AuctionStatus_String AuctionStatusVesting
          \<or> qas_Status req = AuctionStatus_String AuctionStatusFinished
          \<or> qas_Status req = AuctionStatus_String AuctionStatusCancelled) then Err InvalidArgument
     else internalR (paginate L (qas_Pagination req) (onAuction req) (NewStore AuctionKeyPrefix (kvOf L s))))"

definition QAuction :: "QueryAuctionRequest option \<Rightarrow> 'b state \<Rightarrow> AuctionI qres" where
  "QAuction rq s = (case rq of None \<Rightarrow> Err InvalidArgument
   | Some req \<Rightarrow> (case GetAuction (qa_AuctionId req) s of None \<Rightarrow> Err NotFound | Some a \<Rightarrow> Ok a))"

definition QAllowedBidder :: "'z sdk_scheme \<Rightarrow> QueryAllowedBidderRequest option \<Rightarrow> 'b state \<Rightarrow> AllowedBidder qres" where
  "QAllowedBidder S rq s = (case rq of None \<Rightarrow> Err InvalidArgument
   | Some req \<Rightarrow>
     if qb_AuctionId req = 0 then Err InvalidArgument
     else if qb_Bidder req = [] then Err InvalidArgument
     else (case GetAuction (qb_AuctionId req) s of None \<Rightarrow> Err NotFound
       | Some _ \<Rightarrow> (case AccAddressFromBech32 S (qb_Bidder req) of None \<Rightarrow> Err InvalidArgument
         | Some bidderAddr \<Rightarrow> (case GetAllowedBidder (qb_AuctionId req) bidderAddr s of
             None \<Rightarrow> Err NotFound | Some ab \<Rightarrow> Ok ab))))"

definition onAllowedBidder :: "bytes \<Rightarrow> kvValue \<Rightarrow> AllowedBidder option qres" where
  "onAllowedBidder key v = (case v of VAllowedBidder ab \<Rightarrow> Ok (Some ab) | _ \<Rightarrow> Ok None)"

definition QAllowedBidders :: "'a querylib_scheme \<Rightarrow> QueryAllowedBiddersRequest option \<Rightarrow> 'b state
    \<Rightarrow> (AllowedBidder list \<times> PageResponse) qres" where
  "QAllowedBidders L rq s = (case rq of None \<Rightarrow> Err InvalidArgument
   | Some req \<Rightarrow>
     if qbs_AuctionId req = 0 then Err InvalidArgument
     else (case GetAuction (qbs_AuctionId req) s of None \<Rightarrow> Err NotFound
       | Some _ \<Rightarrow> internalR (paginate L (qbs_Pagination req) onAllowedBidder
           (NewStore (GetAllowedBiddersByAuctionKeyPrefix L (qbs_AuctionId req)) (kvOf L s)))))"

definition onBid :: "QueryBidsRequest \<Rightarrow> bytes \<Rightarrow> kvValue \<Rightarrow> Bid option qres" where
  "onBid req key v = (case v of
     VBid b \<Rightarrow> if bid_AuctionId b \<noteq> qis_AuctionId req then Ok None else Ok (Some b)
   | _ \<Rightarrow> Ok None)"

definition queryAllBids :: "'a querylib_scheme \<Rightarrow> QueryBidsRequest \<Rightarrow> 'b state \<Rightarrow> (Bid list \<times> PageResponse) qres" where
  "queryAllBids L req s =
     internalR (paginate L (qis_Pagination req) (onBid req) (NewStore BidKeyPrefix (kvOf L s)))"

text \<open>The function on an entry of the bid index; a missing bid reads as the zero value.\<close>

definition onIndex :: "'a keylib_scheme \<Rightarrow> QueryBidsRequest \<Rightarrow> 'b state \<Rightarrow> bytes \<Rightarrow> kvValue \<Rightarrow> Bid option qres" where
  "onIndex L req s key v =
     bindR (orPanic (SplitAuctionIdBidIdKey L key)) (\<lambda>(auctionId, bidId).
     let b = (case GetBid auctionId bidId s of None \<Rightarrow> zeroBid | Some b \<Rightarrow> b) in
     if qis_Bidder req \<noteq> bid_Bidder b then Ok None
     else if qis_IsMatched req \<noteq> [] then
       bindR (ParseBool (qis_IsMatched req)) (\<lambda>isMatched.
       if bid_IsMatched b \<noteq> isMatched then Ok None else Ok (Some b))
     else Ok (Some b))"

definition queryBidsByBidder :: "'z sdk_scheme \<Rightarrow> 'a querylib_scheme \<Rightarrow> QueryBidsRequest \<Rightarrow> 'b state
    \<Rightarrow> (Bid list \<times> PageResponse) qres" where
  "queryBidsByBidder S L req s = (case AccAddressFromBech32 S (qis_Bidder req) of None \<Rightarrow> Err InvalidArgument
   | Some bidderAddr \<Rightarrow>
     bindR (orPanic (GetBidIndexByBidderPrefix L bidderAddr)) (\<lambda>p.
     internalR (paginate L (qis_Pagination req) (onIndex L req s) (NewStore p (kvOf L s)))))"

definition onMatchedBid :: "QueryBidsRequest \<Rightarrow> bool \<Rightarrow> bytes \<Rightarrow> kvValue \<Rightarrow> Bid option qres" where
  "onMatchedBid req isMatched key v = (case v of
     VBid b \<Rightarrow> if bid_AuctionId b \<noteq> qis_AuctionId req then Ok None
       else if bid_IsMatched b \<noteq> isMatched then Ok None else Ok (Some b)
   | _ \<Rightarrow> Ok None)"

definition queryBidsByIsMatched :: "'a querylib_scheme \<Rightarrow> QueryBidsRequest \<Rightarrow> 'b state
    \<Rightarrow> (Bid list \<times> PageResponse) qres" where
  "queryBidsByIsMatched L req s =
     bindR (ParseBool (qis_IsMatched req)) (\<lambda>isMatched.
     internalR (paginate L (qis_Pagination req) (onMatchedBid req isMatched) (NewStore BidKeyPrefix (kvOf L s))))"

definition QBids :: "'z sdk_scheme \<Rightarrow> 'a querylib_scheme \<Rightarrow> QueryBidsRequest option \<Rightarrow> 'b state
    \<Rightarrow> (Bid list \<times> PageResponse) qres" where
  "QBids S L rq s = (case rq of None \<Rightarrow> Err InvalidArgument
   | Some req \<Rightarrow> (case GetAuction (qis_AuctionId req) s of None \<Rightarrow> Err NotFound
     | Some _ \<Rightarrow> internalR
         (if qis_Bidder req \<noteq> [] \<and> qis_IsMatched req = [] then queryBidsByBidder S L req s
          else if qis_Bidder req = [] \<and> qis_IsMatched req \<noteq> [] then queryBidsByIsMatched L req s
          else if qis_Bidder req \<noteq> [] \<and> qis_IsMatched req \<noteq> [] then queryBidsByBidder S L req s
          else queryAllBids L req s)))"

definition QBid :: "QueryBidRequest option \<Rightarrow> 'b state \<Rightarrow> Bid qres" where
  "QBid rq s = (case rq of None \<Rightarrow> Err InvalidArgument
   | Some req \<Rightarrow> (case GetBid (qi_AuctionId req) (qi_BidId req) s of None \<Rightarrow> Err NotFound | Some b \<Rightarrow> Ok b))"

definition QVestings :: "QueryVestingsRequest option \<Rightarrow> 'b state \<Rightarrow> VestingQueue list qres" where
  "QVestings rq s = (case rq of None \<Rightarrow> Err InvalidArgument
   | Some req \<Rightarrow> (case GetAuction (qv_AuctionId req) s of None \<Rightarrow> Err NotFound
     | Some auction \<Rightarrow> Ok (GetVestingQueuesByAuctionId (GetId auction) s)))"

section \<open>What the queries rely on from the pagination\<close>

text \<open>The page that holds all of \<open>n\<close> hits: it starts at the first one, in key order, and its limit,
  100 when none is given, is at least \<open>n\<close>.\<close>

fun wholePage :: "PageRequest option \<Rightarrow> nat \<Rightarrow> bool" where
  "wholePage None n \<longleftrightarrow> n \<le> 100"
| "wholePage (Some rq) n \<longleftrightarrow> pr_Key rq = [] \<and> pr_Offset rq = 0 \<and> \<not> pr_Reverse rq
     \<and> n \<le> (if pr_Limit rq = 0 then 100 else unat (pr_Limit rq))"

definition hitPositions :: "(bytes \<times> bool qres) list \<Rightarrow> nat list" where
  "hitPositions es = filter (\<lambda>i. snd (es ! i) = Ok True) [0..<length es]"

locale pagination_laws =
  fixes L :: "'a querylib_scheme"
  assumes Page_hits: "FilteredPaginate L rq es = Ok (ixs, pr) \<Longrightarrow>
      distinct ixs \<and> set ixs \<subseteq> set (hitPositions es)"
    and Page_whole: "(\<forall>e \<in> set es. \<exists>b. snd e = Ok b) \<Longrightarrow> wholePage rq (length (hitPositions es)) \<Longrightarrow>
      \<exists>pr. FilteredPaginate L rq es = Ok (hitPositions es, pr)"
begin

text \<open>A whole page of a function that never fails: the hits of all entries, in key order. Any page: hits
  of some of the entries.\<close>

lemma hits_of_positions:
  assumes "\<forall>e \<in> set es. \<exists>x. f (fst e) (snd e) = Ok x"
  shows "map (\<lambda>i. hitValue (f (fst (es ! i)) (snd (es ! i))))
      (hitPositions (map (\<lambda>e. (fst e, isHit (f (fst e) (snd e)))) es))
    = concat (map (\<lambda>e. case f (fst e) (snd e) of Ok (Some x) \<Rightarrow> [x] | _ \<Rightarrow> []) es)"
  using assms
proof (induction es)
  case (Cons e es)
  let ?es = "map (\<lambda>e. (fst e, isHit (f (fst e) (snd e)))) es"
  have step: "hitPositions (a # ys) = (if snd a = Ok True then [0] else []) @ map Suc (hitPositions ys)" for a ys
  proof -
    have "[0..<length (a # ys)] = 0 # map Suc [0..<length ys]"
      by (simp add: map_Suc_upt upt_conv_Cons del: upt_Suc)
    then show ?thesis by (simp only: hitPositions_def) (simp add: filter_map comp_def)
  qed
  from Cons.prems obtain x where "f (fst e) (snd e) = Ok x" by auto
  then show ?case using Cons by (cases x) (simp_all add: step comp_def)
qed (simp add: hitPositions_def)

lemma paginate_whole:
  assumes "\<forall>e \<in> set es. \<exists>x. f (fst e) (snd e) = Ok x"
    and "hits = concat (map (\<lambda>e. case f (fst e) (snd e) of Ok (Some x) \<Rightarrow> [x] | _ \<Rightarrow> []) es)"
    and "wholePage rq (length hits)"
  shows "\<exists>pr. paginate L rq f es = Ok (hits, pr)"
proof -
  let ?es = "map (\<lambda>e. (fst e, isHit (f (fst e) (snd e)))) es"
  note hits = hits_of_positions [OF assms(1)]
  have all: "\<forall>e \<in> set ?es. \<exists>b. snd e = Ok b"
  proof
    fix e' assume "e' \<in> set ?es"
    then obtain e where "e \<in> set es" and e': "e' = (fst e, isHit (f (fst e) (snd e)))" by auto
    then obtain x where "f (fst e) (snd e) = Ok x" using assms(1) by blast
    then show "\<exists>b. snd e' = Ok b" by (simp add: e')
  qed
  have whole: "wholePage rq (length (hitPositions ?es))"
    using assms(3) unfolding assms(2) hits [symmetric] length_map .
  obtain pr where "FilteredPaginate L rq ?es = Ok (hitPositions ?es, pr)" using Page_whole [OF all whole] ..
  then have "paginate L rq f es
      = Ok (map (\<lambda>i. hitValue (f (fst (es ! i)) (snd (es ! i)))) (hitPositions ?es), pr)"
    by (simp only: paginate_def bindR.simps fst_conv snd_conv)
  then show ?thesis unfolding hits assms(2) by (rule exI)
qed

lemma paginate_some:
  assumes "paginate L rq f es = Ok (xs, pr)" and "x \<in> set xs"
  shows "\<exists>e \<in> set es. f (fst e) (snd e) = Ok (Some x)"
proof -
  let ?es = "map (\<lambda>e. (fst e, isHit (f (fst e) (snd e)))) es"
  obtain ixs where page: "FilteredPaginate L rq ?es = Ok (ixs, pr)"
    and xs: "xs = map (\<lambda>i. hitValue (f (fst (es ! i)) (snd (es ! i)))) ixs"
    using assms(1) by (auto simp: paginate_def bindR_Ok_iff)
  from xs assms(2) obtain i where i: "i \<in> set ixs" and x: "x = hitValue (f (fst (es ! i)) (snd (es ! i)))" by auto
  have "i \<in> set (hitPositions ?es)" using Page_hits [OF page] i by blast
  then have "i < length es" and "isHit (f (fst (es ! i)) (snd (es ! i))) = Ok True" by (auto simp: hitPositions_def)
  then have "f (fst (es ! i)) (snd (es ! i)) = Ok (Some x)"
    using x by (cases "f (fst (es ! i)) (snd (es ! i))") auto
  then show ?thesis using \<open>i < length es\<close> nth_mem by blast
qed

end

end
