(* ===== verification/Queries.thy ===== *)
theory Queries
  imports Query Encoding
begin

text \<open>
  What the queries return: the bids of an auction, the bids of a bidder, the auctions of a type and
  status. Each is a filter of what the store operations return, in the same order, when the page is
  large enough; an instance of the pagination at the beginning satisfies its laws.
\<close>

section \<open>A reference pagination\<close>

definition refPage :: "PageRequest option \<Rightarrow> (bytes \<times> bool qres) list \<Rightarrow> nat list" where
  "refPage rq es = (let hs = hitPositions es in case rq of
     None \<Rightarrow> take 100 hs
   | Some r \<Rightarrow>
       let from = (if pr_Key r = [] then hs else filter (\<lambda>i. pr_Key r \<le> fst (es ! i)) hs) in
       take (if pr_Limit r = 0 then 100 else unat (pr_Limit r))
         (drop (unat (pr_Offset r)) (if pr_Reverse r then rev from else from)))"

definition refQuerylib :: querylib where
  "refQuerylib = keylib.extend refKeylib
   \<lparr> FilteredPaginate = (\<lambda>rq es. if \<forall>e \<in> set es. is_Ok (snd e)
       then Ok (refPage rq es, \<lparr> ps_NextKey = [], ps_Total = of_nat (length (hitPositions es)) \<rparr>)
       else Err Internal) \<rparr>"

lemma distinct_hitPositions [simp]: "distinct (hitPositions es)"
  by (simp add: hitPositions_def)

lemma ref_pagination_laws: "pagination_laws refQuerylib"
proof
  fix rq es ixs pr assume "FilteredPaginate refQuerylib rq es = Ok (ixs, pr)"
  then have ixs: "ixs = refPage rq es" by (simp add: refQuerylib_def keylib.defs split: if_splits)
  show "distinct ixs \<and> set ixs \<subseteq> set (hitPositions es)"
    unfolding ixs by (cases rq) (auto simp: refPage_def Let_def dest!: in_set_takeD in_set_dropD)
next
  fix rq and es :: "(bytes \<times> bool qres) list"
  assume ok: "\<forall>e \<in> set es. \<exists>b. snd e = Ok b" and whole: "wholePage rq (length (hitPositions es))"
  have "\<forall>e \<in> set es. is_Ok (snd e)" using ok by force
  moreover have "refPage rq es = hitPositions es" using whole by (cases rq) (simp_all add: refPage_def Let_def)
  ultimately show "\<exists>pr. FilteredPaginate refQuerylib rq es = Ok (hitPositions es, pr)"
    by (simp add: refQuerylib_def keylib.defs)
qed

lemma ref_query_keys: "key_laws refQuerylib"
proof -
  have eqs: "Uint64ToBigEndian refQuerylib = Uint64ToBigEndian refKeylib" "BigEndianToUint64 refQuerylib = BigEndianToUint64 refKeylib"
    "MustLengthPrefix refQuerylib = MustLengthPrefix refKeylib" "FormatTimeBytes refQuerylib = FormatTimeBytes refKeylib"
    by (simp_all add: refQuerylib_def keylib.defs)
  show ?thesis unfolding key_laws_def eqs by (rule ref_key_laws [unfolded key_laws_def])
qed

interpretation ref_pages: pagination_laws refQuerylib
  by (rule ref_pagination_laws)

section \<open>Iterating over values\<close>

lemma snd_NewStore: "map snd (NewStore p m) = map snd (prefixEntries p m)"
  by (simp add: NewStore_def comp_def)

lemma internalR_Ok_iff: "internalR m = Ok x \<longleftrightarrow> m = Ok x"
  by (cases m) auto

text \<open>A page whose function looks at the value only, over entries whose values are known.\<close>

lemma paginate_values:
  assumes "pagination_laws L" and "map snd es = map V xs" and "\<forall>x \<in> set xs. \<forall>key. f key (V x) = Ok (if P x then Some x else None)"
    and "wholePage rq (length (filter P xs))"
  shows "\<exists>pr. paginate L rq f es = Ok (filter P xs, pr)"
proof (rule pagination_laws.paginate_whole [OF assms(1) _ _ assms(4)])
  have isV: "\<exists>x \<in> set xs. snd e = V x" if "e \<in> set es" for e
  proof -
    have "snd e \<in> set (map V xs)" using that assms(2) by (metis in_set_zipE imageI set_map)
    then show ?thesis by auto
  qed
  then show "\<forall>e \<in> set es. \<exists>x. f (fst e) (snd e) = Ok x" using assms(3) isV by metis
  have "concat (map (\<lambda>e. case f (fst e) (snd e) of Ok (Some x) \<Rightarrow> [x] | _ \<Rightarrow> []) es) = filter P xs"
    using assms(2,3)
  proof (induction xs arbitrary: es)
    case (Cons x xs)
    then obtain e es' where "es = e # es'" "snd e = V x" "map snd es' = map V xs" by (cases es) auto
    with Cons show ?case by simp
  qed simp
  then show "filter P xs = concat (map (\<lambda>e. case f (fst e) (snd e) of Ok (Some x) \<Rightarrow> [x] | _ \<Rightarrow> []) es)" by simp
qed

lemma hits_of_map:
  "(\<And>y. y \<in> set ys \<Longrightarrow> f (fst (k y)) (snd (k y)) = Ok (if Q (g y) then Some (g y) else None)) \<Longrightarrow>
    filter Q (map g ys) = concat (map (\<lambda>e. case f (fst e) (snd e) of Ok (Some x) \<Rightarrow> [x] | _ \<Rightarrow> []) (map k ys))"
  by (induction ys) auto

section \<open>Bids\<close>

text \<open>C33. A query for the bids of an auction without a bidder returns, when they fit on the page, all bids
  of this auction in the order of their ids, only the matched or only the unmatched ones if the
  request says so; a text that is no truth value is an internal error.\<close>

theorem query_bids_of_auction:
  assumes "key_laws L" and "pagination_laws L" and "encodable s" and "storeOK S s"
    and "GetAuction (qis_AuctionId rq) s \<noteq> None" and "qis_Bidder rq = []"
  shows "(qis_IsMatched rq = [] \<longrightarrow> wholePage (qis_Pagination rq) (length (GetBidsByAuctionId (qis_AuctionId rq) s))
        \<longrightarrow> (\<exists>pr. QBids S L (Some rq) s = Ok (GetBidsByAuctionId (qis_AuctionId rq) s, pr)))
    \<and> (\<forall>m. qis_IsMatched rq \<noteq> [] \<longrightarrow> ParseBool (qis_IsMatched rq) = Ok m
        \<longrightarrow> wholePage (qis_Pagination rq) (length (filter (\<lambda>b. bid_IsMatched b = m) (GetBidsByAuctionId (qis_AuctionId rq) s)))
        \<longrightarrow> (\<exists>pr. QBids S L (Some rq) s
              = Ok (filter (\<lambda>b. bid_IsMatched b = m) (GetBidsByAuctionId (qis_AuctionId rq) s), pr)))
    \<and> (\<forall>e. qis_IsMatched rq \<noteq> [] \<longrightarrow> ParseBool (qis_IsMatched rq) = Err e \<longrightarrow> QBids S L (Some rq) s = Err Internal)"
proof -
  let ?i = "qis_AuctionId rq" and ?es = "NewStore BidKeyPrefix (kvOf L s)"
  obtain a where a: "GetAuction ?i s = Some a" using assms(5) by blast
  have vals: "map snd ?es = map VBid (GetBids s)"
    by (simp only: snd_NewStore key_laws.iterations(2) [OF assms(1,3)])
  note own = bids_of_auction_filter [OF assms(4), of ?i]
  have all: "\<exists>pr. paginate L (qis_Pagination rq) (onBid rq) ?es = Ok (GetBidsByAuctionId ?i s, pr)"
    if "wholePage (qis_Pagination rq) (length (GetBidsByAuctionId ?i s))"
    using paginate_values [OF assms(2) vals, of "onBid rq" "\<lambda>b. bid_AuctionId b = ?i"] that
    by (simp add: onBid_def own)
  have matched: "\<exists>pr. paginate L (qis_Pagination rq) (onMatchedBid rq m) ?es
      = Ok (filter (\<lambda>b. bid_IsMatched b = m) (GetBidsByAuctionId ?i s), pr)"
    if "wholePage (qis_Pagination rq) (length (filter (\<lambda>b. bid_IsMatched b = m) (GetBidsByAuctionId ?i s)))" for m
  proof -
    have two: "filter (\<lambda>b. bid_AuctionId b = ?i \<and> bid_IsMatched b = m) (GetBids s)
        = filter (\<lambda>b. bid_IsMatched b = m) (GetBidsByAuctionId ?i s)"
      by (simp add: conj_commute flip: own)
    show ?thesis
      using paginate_values [OF assms(2) vals, of "onMatchedBid rq m" "\<lambda>b. bid_AuctionId b = ?i \<and> bid_IsMatched b = m"] that
      by (simp add: onMatchedBid_def two)
  qed
  show ?thesis
    using a assms(6) by (auto simp: QBids_def queryAllBids_def queryBidsByIsMatched_def internalR_Ok_iff intro: all matched)
qed

definition allBidsOf :: "uint64 \<Rightarrow> QueryBidsRequest" where
  "allBidsOf i = \<lparr> qis_AuctionId = i, qis_Bidder = [], qis_IsMatched = [], qis_Pagination = None \<rparr>"

theorem query_bids_of_auction_witness:
  "\<exists>pr. QBids reference refQuerylib (Some (allBidsOf 1)) (bidState 2) = Ok ([theBid], pr)"
proof -
  have ok: "storeOK reference (bidState 2)" using scenario_Inv(3) [of 2] by (simp add: Inv_def)
  have a: "GetAuction (qis_AuctionId (allBidsOf 1)) (bidState 2) \<noteq> None"
    by (simp add: allBidsOf_def GetAuction_def bidState_def allowedState_def createdState_def)
  have "GetBidsByAuctionId 1 (bidState 2) = [theBid]" by (simp add: GetBidsByAuctionId_def bidState_def)
  then show ?thesis
    using query_bids_of_auction [OF ref_query_keys ref_pagination_laws bidState_encodable ok a]
    by (simp add: allBidsOf_def)
qed

text \<open>C34. A query for the bids of a bidder returns, when they fit on the page, his bids in ALL auctions:
  the auction id of the request only has to be the id of some auction, it does not select.\<close>

theorem query_bids_of_bidder_ignores_auction:
  assumes "key_laws L" and "pagination_laws L" and "encodable s"
    and "GetAuction (qis_AuctionId rq) s \<noteq> None" and "qis_Bidder rq \<noteq> []" and "qis_IsMatched rq = []"
    and "AccAddressFromBech32 S (qis_Bidder rq) = Some x" and "usableAddress x"
    and "wholePage (qis_Pagination rq) (length (filter (\<lambda>b. bid_Bidder b = qis_Bidder rq) (GetBidsByBidder x s)))"
  shows "\<exists>pr. QBids S L (Some rq) s = Ok (filter (\<lambda>b. bid_Bidder b = qis_Bidder rq) (GetBidsByBidder x s), pr)"
proof -
  obtain a where a: "GetAuction (qis_AuctionId rq) s = Some a" using assms(4) by blast
  let ?m = "filter (\<lambda>e. fst (fst e) = addrKey x) (BidIndex s)"
  define bidAt where "bidAt = (\<lambda>k :: uint64 \<times> uint64. case GetBid (fst k) (snd k) s of None \<Rightarrow> zeroBid | Some b \<Rightarrow> b)"
  obtain p where p: "GetBidIndexByBidderPrefix L x = Some p"
    and e: "prefixEntries p (kvOf L s) = encoded (encIndex L) VIndex ?m"
    using key_laws.indexEntries [OF assms(1,3,8)] by blast
  have plen: "length p = 2 + length x" using p key_laws.LengthPrefix_law [OF assms(1,8)]
    by (auto simp: GetBidIndexByBidderPrefix_def key_prefixes)
  have key: "SplitAuctionIdBidIdKey L (drop (length p) (encIndex L (fst e))) = Some (snd (fst e))" if "e \<in> set ?m" for e
  proof -
    have k: "fst e \<in> indexKeys" and ad: "snd (fst (fst e)) = x"
      using that encodableD(9) [OF assms(3)] by (auto simp: addrKey_def)
    have "drop (length p) (encIndex L (fst e))
        = Uint64ToBigEndian L (fst (snd (fst e))) @ Uint64ToBigEndian L (snd (snd (fst e)))"
      by (simp add: key_laws.encIndex_shape [OF assms(1) k] plen ad)
    then show ?thesis by (simp add: key_laws.split_ids [OF assms(1)])
  qed
  define es where "es = NewStore p (kvOf L s)"
  have es: "es = map (\<lambda>e. (drop (length p) (encIndex L (fst e)), VIndex (snd e))) ?m"
    by (simp add: es_def NewStore_def e encoded_def comp_def)
  define f where "f = onIndex L rq s"
  have f: "f (drop (length p) (encIndex L (fst e))) v
      = Ok (if bid_Bidder (bidAt (snd (fst e))) = qis_Bidder rq then Some (bidAt (snd (fst e))) else None)"
    if "e \<in> set ?m" for e v
    using key [OF that] assms(6) by (cases "snd (fst e)") (simp add: f_def onIndex_def bidAt_def Let_def)
  have all: "GetBidsByBidder x s = map (\<lambda>e. bidAt (snd (fst e))) ?m" by (simp add: GetBidsByBidder_def bidAt_def)
  have hits: "filter (\<lambda>b. bid_Bidder b = qis_Bidder rq) (GetBidsByBidder x s)
      = concat (map (\<lambda>e. case f (fst e) (snd e) of Ok (Some x) \<Rightarrow> [x] | _ \<Rightarrow> []) es)"
    unfolding all es by (rule hits_of_map) (simp add: f)
  have ok: "\<forall>e \<in> set es. \<exists>x. f (fst e) (snd e) = Ok x" using f by (auto simp: es)
  obtain pr where "paginate L (qis_Pagination rq) f es
      = Ok (filter (\<lambda>b. bid_Bidder b = qis_Bidder rq) (GetBidsByBidder x s), pr)"
    using pagination_laws.paginate_whole [OF assms(2) ok hits assms(9)] by blast
  then show ?thesis
    using a p assms(5-7) by (simp add: QBids_def queryBidsByBidder_def f_def es_def)
qed

text \<open>Bob has one bid, in auction 1; asked for his bids in auction 2, the query returns it.\<close>

definition twoAuctions :: "ledger state" where
  "twoAuctions = SetAuction (batchAuctionOf reference (createMsg 2) 2 100) (bidState 2)"

theorem query_bids_of_bidder_ignores_auction_witness:
  "\<exists>pr. QBids reference refQuerylib (Some ((allBidsOf 2)\<lparr>qis_Bidder := ''bob''\<rparr>)) twoAuctions = Ok ([theBid], pr)
    \<and> bid_AuctionId theBid = 1"
proof -
  let ?rq = "(allBidsOf 2)\<lparr>qis_Bidder := ''bob''\<rparr>"
  have e: "encodable twoAuctions" unfolding twoAuctions_def by (rule encodable_writes(2) [OF bidState_encodable])
  have a: "GetAuction (qis_AuctionId ?rq) twoAuctions \<noteq> None"
    by (simp add: allBidsOf_def GetAuction_def twoAuctions_def SetAuction_def GetId_def batchAuctionOf_def baseFor_def)
  have x: "AccAddressFromBech32 reference (qis_Bidder ?rq) = Some (bytesOf ''bob'')" "usableAddress (bytesOf ''bob'')"
    by (simp_all add: bytesOf_usable usableAddress_def) (simp_all add: bytesOf_def)
  have bid: "bid_AuctionId theBid = 1" "bid_Bidder theBid = ''bob''" by (simp_all add: theBid_def bidOf_def bidMsg_def)
  have bids: "GetBidsByBidder (bytesOf ''bob'') twoAuctions = [theBid]"
    by (simp add: GetBidsByBidder_def twoAuctions_def SetAuction_def bidState_def GetBid_def)
  show ?thesis
    using query_bids_of_bidder_ignores_auction [OF ref_query_keys ref_pagination_laws e a _ _ x]
    by (simp add: bids bid allBidsOf_def)
qed

section \<open>Auctions\<close>

definition asksFor :: "QueryAuctionsRequest \<Rightarrow> AuctionI \<Rightarrow> bool" where
  "asksFor rq a \<longleftrightarrow> (qas_Type rq = [] \<or> AuctionType_String (GetType a) = qas_Type rq)
     \<and> (qas_Status rq = [] \<or> AuctionStatus_String (GetStatus a) = qas_Status rq)"

text \<open>A query for auctions refuses a type or a status that no auction can have, and otherwise returns
  the auctions of the type and status it asks for, in the order of their ids; an empty text asks for
  every one.\<close>

theorem query_auctions_filters:
  assumes "key_laws L" and "pagination_laws L" and "encodable s"
  shows "if (\<exists>ty. ty \<noteq> AuctionTypeNil \<and> qas_Type rq \<in> {[], AuctionType_String ty})
        \<and> (\<exists>st. st \<noteq> AuctionStatusNil \<and> qas_Status rq \<in> {[], AuctionStatus_String st})
      then wholePage (qas_Pagination rq) (length (filter (asksFor rq) (GetAuctions s)))
        \<longrightarrow> (\<exists>pr. QAuctions L (Some rq) s = Ok (filter (asksFor rq) (GetAuctions s), pr))
      else QAuctions L (Some rq) s = Err InvalidArgument"
proof -
  let ?es = "NewStore AuctionKeyPrefix (kvOf L s)"
  have vals: "map snd ?es = map VAuction (GetAuctions s)"
    by (simp only: snd_NewStore key_laws.iterations(1) [OF assms(1,3)])
  have page: "wholePage (qas_Pagination rq) (length (filter (asksFor rq) (GetAuctions s)))
      \<Longrightarrow> \<exists>pr. paginate L (qas_Pagination rq) (onAuction rq) ?es = Ok (filter (asksFor rq) (GetAuctions s), pr)"
    by (rule paginate_values [OF assms(2) vals]) (auto simp: onAuction_def asksFor_def)
  have types: "(\<exists>ty. P ty) \<longleftrightarrow> P AuctionTypeNil \<or> P AuctionTypeFixedPrice \<or> P AuctionTypeBatch" for P
    by (metis AuctionType.exhaust)
  have stats: "(\<exists>st. P st) \<longleftrightarrow> P AuctionStatusNil \<or> P AuctionStatusStandBy \<or> P AuctionStatusStarted
      \<or> P AuctionStatusVesting \<or> P AuctionStatusFinished \<or> P AuctionStatusCancelled" for P
    by (metis AuctionStatus.exhaust)
  show ?thesis unfolding types stats QAuctions_def using page by (auto simp: internalR_Ok_iff)
qed

theorem query_auctions_filters_witness:
  "\<exists>pr. QAuctions refQuerylib (Some \<lparr> qas_Status = ''AUCTION_STATUS_STARTED'', qas_Type = [], qas_Pagination = None \<rparr>)
    (bidState 2) = Ok ([theAuction 2], pr)"
proof -
  let ?rq = "\<lparr> qas_Status = ''AUCTION_STATUS_STARTED'', qas_Type = [], qas_Pagination = None \<rparr>"
  have "GetAuctions (bidState 2) = [theAuction 2]"
    by (simp add: GetAuctions_def bidState_def allowedState_def createdState_def)
  moreover have "asksFor ?rq (theAuction 2)" by (simp add: asksFor_def GetStatus_def theAuction_simps)
  moreover have "\<exists>st. st \<noteq> AuctionStatusNil \<and> ''AUCTION_STATUS_STARTED'' \<in> {[], AuctionStatus_String st}"
    by (rule exI [of _ AuctionStatusStarted]) simp
  moreover have "\<exists>ty. ty \<noteq> AuctionTypeNil" by (rule exI [of _ AuctionTypeBatch]) simp
  ultimately show ?thesis
    using query_auctions_filters [OF ref_query_keys ref_pagination_laws bidState_encodable, of ?rq 2] by auto
qed

end
