(* ===== verification/Client.thy ===== *)
theory Client
  imports Query MsgServer
begin

text \<open>
  The command line client (\<^verbatim>\<open>client/cli/utils.go\<close>, \<^verbatim>\<open>tx.go\<close>, \<^verbatim>\<open>query.go\<close>): how each command turns
  its arguments and flags into a message or a query request.

  A command is the function that its \<open>RunE\<close> computes up to the call that sends the message or the
  request, with the check of the number of arguments in front. The reading of files, the JSON decoder,
  the parsers of the SDK and the flags of the command line are parameters, the record \<open>clientlib\<close>;
  \<open>strconv.ParseUint\<close> and \<open>strings.ToLower\<close> are those of Go's library. Help texts are left out.
\<close>

section \<open>Requests in files\<close>

record FixedPriceAuctionRequest =
  fr_StartPrice :: dec
  fr_SellingCoin :: coin
  fr_PayingCoinDenom :: denom
  fr_VestingSchedules :: "VestingSchedule list"
  fr_StartTime :: time
  fr_EndTime :: time

record BatchAuctionRequest =
  br_StartPrice :: dec
  br_MinBidPrice :: dec
  br_SellingCoin :: coin
  br_PayingCoinDenom :: denom
  br_MaxExtendedRound :: uint32
  br_ExtendedRoundRate :: dec
  br_VestingSchedules :: "VestingSchedule list"
  br_StartTime :: time
  br_EndTime :: time

text \<open>What a command finds outside its arguments: the client context (no context is an error), the
  address given by \<open>--from\<close>, files and their decoders, the SDK's parsers, and the flags.\<close>

record clientlib =
  HasContext :: bool
  FromAddress :: accAddress
  ReadFile :: "string \<Rightarrow> string option"
  UnmarshalFixedPrice :: "string \<Rightarrow> FixedPriceAuctionRequest option"
  UnmarshalBatch :: "string \<Rightarrow> BatchAuctionRequest option"
  NewDecFromStr :: "string \<Rightarrow> dec option"
  ParseCoinNormalized :: "string \<Rightarrow> coin option"
  NewIntFromString :: "string \<Rightarrow> int option"
  FlagStatus :: string
  FlagType :: string
  FlagBidderAddr :: string
  FlagIsMatched :: string
  ReadPageRequest :: "PageRequest option"

datatype cliError =
    WrongArguments | NoContext | BadFile | BadNumber | BadBidType | BadDec | BadCoin | BadAddress
  | BadMaxBidAmount | BadPage

type_synonym 'a cres = "(cliError, 'a) result"

definition orErr :: "cliError \<Rightarrow> 'a option \<Rightarrow> 'a cres" where
  "orErr e x = (case x of None \<Rightarrow> Err e | Some y \<Rightarrow> Ok y)"

definition ParseFixedPriceAuctionRequest :: "'c clientlib_scheme \<Rightarrow> string \<Rightarrow> FixedPriceAuctionRequest cres" where
  "ParseFixedPriceAuctionRequest C fileName =
     bindR (orErr BadFile (ReadFile C fileName)) (\<lambda>contents.
     orErr BadFile (UnmarshalFixedPrice C contents))"

definition ParseBatchAuctionRequest :: "'c clientlib_scheme \<Rightarrow> string \<Rightarrow> BatchAuctionRequest cres" where
  "ParseBatchAuctionRequest C fileName =
     bindR (orErr BadFile (ReadFile C fileName)) (\<lambda>contents.
     orErr BadFile (UnmarshalBatch C contents))"

section \<open>Numbers and names\<close>

text \<open>\<open>strconv.ParseUint(s, 10, 64)\<close>: one or more decimal digits, no sign, below \<open>2 ^ 64\<close>.\<close>

definition isDigit :: "char \<Rightarrow> bool" where
  "isDigit c \<longleftrightarrow> 48 \<le> (of_char c :: nat) \<and> (of_char c :: nat) \<le> 57"

definition decimalValue :: "string \<Rightarrow> nat" where
  "decimalValue = foldl (\<lambda>n c. n * 10 + (of_char c - 48)) 0"

definition ParseUint :: "string \<Rightarrow> uint64 option" where
  "ParseUint t = (if t = [] \<or> \<not> list_all isDigit t \<or> 2 ^ 64 \<le> decimalValue t then None
     else Some (of_nat (decimalValue t)))"

text \<open>\<open>strings.ToLower\<close> on UTF-8. Of the letters outside ASCII only the capital I with a dot and the
  Kelvin sign have an ASCII lower case; the others are left as they are here, because the texts they
  are compared with are ASCII.\<close>

definition lowerChar :: "char \<Rightarrow> char" where
  "lowerChar c = (if 65 \<le> (of_char c :: nat) \<and> (of_char c :: nat) \<le> 90 then char_of (of_char c + 32 :: nat) else c)"

function ToLower :: "string \<Rightarrow> string" where
  "ToLower [] = []"
| "ToLower (c # r) =
     (if c = CHR 0xC4 \<and> take 1 r = [CHR 0xB0] then CHR ''i'' # ToLower (drop 1 r)
      else if c = CHR 0xE2 \<and> take 2 r = [CHR 0x84, CHR 0xAA] then CHR ''k'' # ToLower (drop 2 r)
      else lowerChar c # ToLower r)"
  by pat_completeness auto
termination by (relation "measure length") auto

definition ParseBidType :: "string \<Rightarrow> BidType cres" where
  "ParseBidType t =
     (if ToLower t \<in> {''fixed-price'', ''fp'', ''f''} then Ok BidTypeFixedPrice
      else if ToLower t \<in> {''batch-worth'', ''bw'', ''w''} then Ok BidTypeBatchWorth
      else if ToLower t \<in> {''batch-many'', ''bm'', ''m''} then Ok BidTypeBatchMany
      else Err BadBidType)"

section \<open>Commands that send a message\<close>

text \<open>\<open>cobra.ExactArgs(n)\<close>, then \<open>client.GetClientTxContext(cmd)\<close>\<close>

definition withArgs :: "'c clientlib_scheme \<Rightarrow> nat \<Rightarrow> string list \<Rightarrow> unit cres" where
  "withArgs C n args =
     (if length args \<noteq> n then Err WrongArguments else if \<not> HasContext C then Err NoContext else Ok ())"

definition NewCreateFixedPriceAuctionCmd ::
    "'z sdk_scheme \<Rightarrow> 'c clientlib_scheme \<Rightarrow> string list \<Rightarrow> Msg cres" where
  "NewCreateFixedPriceAuctionCmd S C args =
     bindR (withArgs C 1 args) (\<lambda>_.
     bindR (ParseFixedPriceAuctionRequest C (args ! 0)) (\<lambda>auction.
     Ok (CreateFixedPriceAuctionMsg (NewMsgCreateFixedPriceAuction (AccAddressString S (FromAddress C))
       (fr_StartPrice auction) (fr_SellingCoin auction) (fr_PayingCoinDenom auction)
       (fr_VestingSchedules auction) (fr_StartTime auction) (fr_EndTime auction)))))"

definition NewCreateBatchAuctionCmd ::
    "'z sdk_scheme \<Rightarrow> 'c clientlib_scheme \<Rightarrow> string list \<Rightarrow> Msg cres" where
  "NewCreateBatchAuctionCmd S C args =
     bindR (withArgs C 1 args) (\<lambda>_.
     bindR (ParseBatchAuctionRequest C (args ! 0)) (\<lambda>auction.
     Ok (CreateBatchAuctionMsg (NewMsgCreateBatchAuction (AccAddressString S (FromAddress C))
       (br_StartPrice auction) (br_MinBidPrice auction) (br_SellingCoin auction) (br_PayingCoinDenom auction)
       (br_VestingSchedules auction) (br_MaxExtendedRound auction) (br_ExtendedRoundRate auction)
       (br_StartTime auction) (br_EndTime auction)))))"

definition NewCancelAuctionCmd :: "'z sdk_scheme \<Rightarrow> 'c clientlib_scheme \<Rightarrow> string list \<Rightarrow> Msg cres" where
  "NewCancelAuctionCmd S C args =
     bindR (withArgs C 1 args) (\<lambda>_.
     bindR (orErr BadNumber (ParseUint (args ! 0))) (\<lambda>auctionId.
     Ok (CancelAuctionMsg (NewMsgCancelAuction (AccAddressString S (FromAddress C)) auctionId))))"

definition NewPlaceBidCmd :: "'z sdk_scheme \<Rightarrow> 'c clientlib_scheme \<Rightarrow> string list \<Rightarrow> Msg cres" where
  "NewPlaceBidCmd S C args =
     bindR (withArgs C 4 args) (\<lambda>_.
     bindR (orErr BadNumber (ParseUint (args ! 0))) (\<lambda>auctionId.
     bindR (ParseBidType (args ! 1)) (\<lambda>bidType.
     bindR (orErr BadDec (NewDecFromStr C (args ! 2))) (\<lambda>price.
     bindR (orErr BadCoin (ParseCoinNormalized C (args ! 3))) (\<lambda>c.
     Ok (PlaceBidMsg (NewMsgPlaceBid auctionId (AccAddressString S (FromAddress C)) bidType price c)))))))"

definition NewModifyBidCmd :: "'z sdk_scheme \<Rightarrow> 'c clientlib_scheme \<Rightarrow> string list \<Rightarrow> Msg cres" where
  "NewModifyBidCmd S C args =
     bindR (withArgs C 4 args) (\<lambda>_.
     bindR (orErr BadNumber (ParseUint (args ! 0))) (\<lambda>auctionId.
     bindR (orErr BadNumber (ParseUint (args ! 1))) (\<lambda>bidId.
     bindR (orErr BadDec (NewDecFromStr C (args ! 2))) (\<lambda>price.
     bindR (orErr BadCoin (ParseCoinNormalized C (args ! 3))) (\<lambda>c.
     Ok (ModifyBidMsg (NewMsgModifyBid auctionId (AccAddressString S (FromAddress C)) bidId price c)))))))"

definition NewAddAllowedBidderCmd :: "'z sdk_scheme \<Rightarrow> 'c clientlib_scheme \<Rightarrow> string list \<Rightarrow> Msg cres" where
  "NewAddAllowedBidderCmd S C args =
     bindR (withArgs C 3 args) (\<lambda>_.
     bindR (orErr BadNumber (ParseUint (args ! 0))) (\<lambda>auctionId.
     bindR (orErr BadAddress (AccAddressFromBech32 S (args ! 1))) (\<lambda>bidderAddr.
     bindR (orErr BadMaxBidAmount (NewIntFromString C (args ! 2))) (\<lambda>maxBidAmt.
     Ok (AddAllowedBidderMsg (NewMsgAddAllowedBidder auctionId
       \<lparr> ab_Bidder = AccAddressString S bidderAddr, ab_MaxBidAmount = Some maxBidAmt \<rparr>))))))"

text \<open>The subcommands of \<open>tx fundraising\<close> by name.\<close>

definition GetTxCmd :: "('b, 'z) keeper_scheme \<Rightarrow> 'c clientlib_scheme \<Rightarrow> string \<Rightarrow> (string list \<Rightarrow> Msg cres) option" where
  "GetTxCmd k C name =
     (if name = ''create-fixed-price-auction'' then Some (NewCreateFixedPriceAuctionCmd k C)
      else if name = ''create-batch-auction'' then Some (NewCreateBatchAuctionCmd k C)
      else if name = ''cancel'' then Some (NewCancelAuctionCmd k C)
      else if name = ''bid'' then Some (NewPlaceBidCmd k C)
      else if name = ''modify-bid'' then Some (NewModifyBidCmd k C)
      else if name = ''add-allowed-bidder'' \<and> EnableAddAllowedBidder k then Some (NewAddAllowedBidderCmd k C)
      else None)"

section \<open>Commands that query\<close>

definition NewQueryAuctionsCmd :: "'c clientlib_scheme \<Rightarrow> string list \<Rightarrow> QueryAuctionsRequest cres" where
  "NewQueryAuctionsCmd C args =
     bindR (withArgs C 0 args) (\<lambda>_.
     bindR (orErr BadPage (ReadPageRequest C)) (\<lambda>pageReq.
     Ok \<lparr> qas_Status = FlagStatus C, qas_Type = FlagType C, qas_Pagination = Some pageReq \<rparr>))"

definition NewQueryAuctionCmd :: "'c clientlib_scheme \<Rightarrow> string list \<Rightarrow> QueryAuctionRequest cres" where
  "NewQueryAuctionCmd C args =
     bindR (withArgs C 1 args) (\<lambda>_.
     bindR (orErr BadNumber (ParseUint (args ! 0))) (\<lambda>auctionId. Ok \<lparr> qa_AuctionId = auctionId \<rparr>))"

definition NewQueryAllowedBidderCmd ::
    "'z sdk_scheme \<Rightarrow> 'c clientlib_scheme \<Rightarrow> string list \<Rightarrow> QueryAllowedBidderRequest cres" where
  "NewQueryAllowedBidderCmd S C args =
     bindR (withArgs C 2 args) (\<lambda>_.
     bindR (orErr BadNumber (ParseUint (args ! 0))) (\<lambda>auctionId.
     bindR (orErr BadAddress (AccAddressFromBech32 S (args ! 1))) (\<lambda>bidderAddr.
     Ok \<lparr> qb_AuctionId = auctionId, qb_Bidder = AccAddressString S bidderAddr \<rparr>)))"

definition NewQueryAllowedBiddersCmd :: "'c clientlib_scheme \<Rightarrow> string list \<Rightarrow> QueryAllowedBiddersRequest cres" where
  "NewQueryAllowedBiddersCmd C args =
     bindR (withArgs C 1 args) (\<lambda>_.
     bindR (orErr BadNumber (ParseUint (args ! 0))) (\<lambda>auctionId.
     bindR (orErr BadPage (ReadPageRequest C)) (\<lambda>pageReq.
     Ok \<lparr> qbs_AuctionId = auctionId, qbs_Pagination = Some pageReq \<rparr>)))"

definition NewQueryBidsCmd :: "'c clientlib_scheme \<Rightarrow> string list \<Rightarrow> QueryBidsRequest cres" where
  "NewQueryBidsCmd C args =
     bindR (withArgs C 1 args) (\<lambda>_.
     bindR (orErr BadNumber (ParseUint (args ! 0))) (\<lambda>auctionId.
     bindR (orErr BadPage (ReadPageRequest C)) (\<lambda>pageReq.
     Ok \<lparr> qis_AuctionId = auctionId, qis_Bidder = FlagBidderAddr C, qis_IsMatched = FlagIsMatched C,
          qis_Pagination = Some pageReq \<rparr>)))"

definition NewQueryVestingsCmd :: "'c clientlib_scheme \<Rightarrow> string list \<Rightarrow> QueryVestingsRequest cres" where
  "NewQueryVestingsCmd C args =
     bindR (withArgs C 1 args) (\<lambda>_.
     bindR (orErr BadNumber (ParseUint (args ! 0))) (\<lambda>auctionId. Ok \<lparr> qv_AuctionId = auctionId \<rparr>))"

definition NewQueryParamsCmd :: "'c clientlib_scheme \<Rightarrow> string list \<Rightarrow> unit cres" where
  "NewQueryParamsCmd C args = withArgs C 0 args"

text \<open>The subcommands of \<open>query fundraising\<close> by name, each with the request it makes.\<close>

datatype QueryRequest =
    ParamsRequest | AuctionsRequest QueryAuctionsRequest | AuctionRequest QueryAuctionRequest
  | AllowedBidderRequest QueryAllowedBidderRequest | AllowedBiddersRequest QueryAllowedBiddersRequest
  | BidsRequest QueryBidsRequest | VestingsRequest QueryVestingsRequest

definition request :: "('x \<Rightarrow> QueryRequest) \<Rightarrow> (string list \<Rightarrow> 'x cres) \<Rightarrow> string list \<Rightarrow> QueryRequest cres" where
  "request f cmd args = bindR (cmd args) (\<lambda>x. Ok (f x))"

definition GetQueryCmd :: "'z sdk_scheme \<Rightarrow> 'c clientlib_scheme \<Rightarrow> string \<Rightarrow> (string list \<Rightarrow> QueryRequest cres) option" where
  "GetQueryCmd S C name =
     (if name = ''params'' then Some (request (\<lambda>_. ParamsRequest) (NewQueryParamsCmd C))
      else if name = ''auctions'' then Some (request AuctionsRequest (NewQueryAuctionsCmd C))
      else if name = ''auction'' then Some (request AuctionRequest (NewQueryAuctionCmd C))
      else if name = ''allowed-bidder'' then Some (request AllowedBidderRequest (NewQueryAllowedBidderCmd S C))
      else if name = ''allowed-bidders'' then Some (request AllowedBiddersRequest (NewQueryAllowedBiddersCmd C))
      else if name = ''bids'' then Some (request BidsRequest (NewQueryBidsCmd C))
      else if name = ''vestings'' then Some (request VestingsRequest (NewQueryVestingsCmd C))
      else None)"

text \<open>No command panics, whatever its arguments.\<close>

lemma withArgs_safe: "withArgs C n args \<noteq> Panic"
  by (simp add: withArgs_def)

lemma orErr_safe: "orErr e x \<noteq> Panic"
  by (simp add: orErr_def split: option.split)

lemma bindR_Panic_iff: "bindR m f = Panic \<longleftrightarrow> m = Panic \<or> (\<exists>x. m = Ok x \<and> f x = Panic)"
  by (cases m) simp_all

lemmas command_safe = withArgs_safe orErr_safe bindR_Panic_iff

lemma commands_never_panic:
  "GetTxCmd k C name = Some cmd \<Longrightarrow> cmd args \<noteq> Panic"
  "GetQueryCmd S C name = Some qcmd \<Longrightarrow> qcmd args \<noteq> Panic"
  by (auto simp: GetTxCmd_def NewCreateFixedPriceAuctionCmd_def NewCreateBatchAuctionCmd_def NewCancelAuctionCmd_def
      NewPlaceBidCmd_def NewModifyBidCmd_def NewAddAllowedBidderCmd_def ParseFixedPriceAuctionRequest_def
      ParseBatchAuctionRequest_def ParseBidType_def command_safe split: if_split_asm)
    (auto simp: GetQueryCmd_def request_def NewQueryParamsCmd_def NewQueryAuctionsCmd_def NewQueryAuctionCmd_def
      NewQueryAllowedBidderCmd_def NewQueryAllowedBiddersCmd_def NewQueryBidsCmd_def NewQueryVestingsCmd_def
      command_safe split: if_split_asm)

end
