(* ===== verification/Commands.thy ===== *)
theory Commands
  imports Client Queries
begin

text \<open>
  What the commands of the client produce: numbers are read back exactly within 64 bits, who has to
  sign the message of a command, and the auction type of the help text that no query accepts.
\<close>

section \<open>A client\<close>

definition refClient :: clientlib where
  "refClient =
   \<lparr> HasContext = True, FromAddress = bytesOf ''alice'', ReadFile = (\<lambda>_. None),
     UnmarshalFixedPrice = (\<lambda>_. None), UnmarshalBatch = (\<lambda>_. None), NewDecFromStr = (\<lambda>_. None),
     ParseCoinNormalized = (\<lambda>_. None), NewIntFromString = (\<lambda>_. Some 60), FlagStatus = [],
     FlagType = ''AUCTION_TYPE_ENGLISH'', FlagBidderAddr = [], FlagIsMatched = [],
     ReadPageRequest = Some \<lparr> pr_Key = [], pr_Offset = 0, pr_Limit = 0, pr_CountTotal = False, pr_Reverse = False \<rparr> \<rparr>"

section \<open>Numbers\<close>

text \<open>The decimal form of a number.\<close>

fun decimal :: "nat \<Rightarrow> string" where
  "decimal n = (if n < 10 then [char_of (48 + n)] else decimal (n div 10) @ [char_of (48 + n mod 10)])"

declare decimal.simps [simp del]

lemma of_char_digit: "n < 10 \<Longrightarrow> (of_char (char_of (48 + n) :: char) :: nat) = 48 + n"
  by (simp add: of_char_of)

lemma decimal_reads:
  "decimal n \<noteq> [] \<and> list_all isDigit (decimal n) \<and> decimalValue (decimal n) = n"
proof (induction n rule: decimal.induct)
  case (1 n)
  show ?case
  proof (cases "n < 10")
    case True
    then show ?thesis by (simp add: decimal.simps [of n] isDigit_def decimalValue_def of_char_digit)
  next
    case False
    have "decimalValue (xs @ [c]) = decimalValue xs * 10 + (of_char c - 48)" for xs c by (simp add: decimalValue_def)
    then show ?thesis using 1 False by (simp add: decimal.simps [of n] isDigit_def of_char_digit)
  qed
qed

text \<open>The number of an auction on the command line reads back as this number when it fits in 64 bits,
  and is refused, not wrapped around, when it does not.\<close>

theorem auction_number_roundtrip:
  assumes "HasContext C"
  shows "NewCancelAuctionCmd S C [decimal n]
    = (if n < 2 ^ 64 then Ok (CancelAuctionMsg (NewMsgCancelAuction (AccAddressString S (FromAddress C)) (of_nat n)))
       else Err BadNumber)
    \<and> (n < 2 ^ 64 \<longrightarrow> unat (of_nat n :: uint64) = n)"
  using assms decimal_reads [of n]
  by (auto simp: NewCancelAuctionCmd_def withArgs_def orErr_def ParseUint_def unat_of_nat)

theorem auction_number_roundtrip_witness: "NewCancelAuctionCmd reference refClient [decimal (2 ^ 64)] = Err BadNumber"
  using auction_number_roundtrip [of refClient reference "2 ^ 64"] by (simp add: refClient_def)

section \<open>Signers\<close>

fun Msg_GetSigners :: "'a sdk_scheme \<Rightarrow> Msg \<Rightarrow> accAddress list option" where
  "Msg_GetSigners S (CreateFixedPriceAuctionMsg m) = mf_GetSigners S m"
| "Msg_GetSigners S (CreateBatchAuctionMsg m) = mb_GetSigners S m"
| "Msg_GetSigners S (CancelAuctionMsg m) = mc_GetSigners S m"
| "Msg_GetSigners S (PlaceBidMsg m) = mp_GetSigners S m"
| "Msg_GetSigners S (ModifyBidMsg m) = mm_GetSigners S m"
| "Msg_GetSigners S (AddAllowedBidderMsg m) = ma_GetSigners S m"
| "Msg_GetSigners S OtherMsg = None"

lemmas command_defs = NewCreateFixedPriceAuctionCmd_def NewCreateBatchAuctionCmd_def NewCancelAuctionCmd_def
  NewPlaceBidCmd_def NewModifyBidCmd_def NewAddAllowedBidderCmd_def

lemmas message_defs = NewMsgCreateFixedPriceAuction_def NewMsgCreateBatchAuction_def NewMsgCancelAuction_def
  NewMsgPlaceBid_def NewMsgModifyBid_def NewMsgAddAllowedBidder_def mf_GetSigners_def mb_GetSigners_def
  mc_GetSigners_def mp_GetSigners_def mm_GetSigners_def ma_GetSigners_def

lemma orErr_Ok_iff: "orErr e x = Ok y \<longleftrightarrow> x = Some y"
  by (cases x) (auto simp: orErr_def)

text \<open>C35. Every message that a command builds has to be signed by the account given by \<open>--from\<close>, except that
  of \<open>add-allowed-bidder\<close>: it has to be signed by the bidder it names, whoever sends it.\<close>

theorem command_signers:
  assumes "address_laws k module N" and "usableAddress (FromAddress C)" and "GetTxCmd k C name = Some cmd" and "cmd args = Ok msg"
  shows "if name = ''add-allowed-bidder''
    then \<exists>x. AccAddressFromBech32 k (args ! 1) = Some x \<and> Msg_GetSigners k msg = Some [x]
    else Msg_GetSigners k msg = Some [FromAddress C]"
proof -
  have r: "AccAddressFromBech32 k (AccAddressString k a) = Some a" if "usableAddress a" for a
    by (rule address_laws.bech32_roundtrip [OF assms(1) that])
  have u: "usableAddress a" if "AccAddressFromBech32 k t = Some a" for t a
    by (rule address_laws.bech32_usable [OF assms(1) that])
  show ?thesis
    using assms(2-4) by (auto simp: GetTxCmd_def command_defs message_defs bindR_Ok_iff orErr_Ok_iff r u split: if_splits)
qed

theorem command_signers_witness:
  "\<exists>cmd msg. GetTxCmd reference refClient ''add-allowed-bidder'' = Some cmd \<and> cmd [''1'', ''bob'', ''60''] = Ok msg
    \<and> Msg_GetSigners reference msg = Some [bytesOf ''bob''] \<and> bytesOf ''bob'' \<noteq> FromAddress refClient"
proof -
  let ?args = "[''1'', ''bob'', ''60'']"
  have cmd: "GetTxCmd reference refClient ''add-allowed-bidder'' = Some (NewAddAllowedBidderCmd reference refClient)"
    by (simp add: GetTxCmd_def)
  have "ParseUint ''1'' = Some 1" by (simp add: ParseUint_def isDigit_def decimalValue_def)
  then obtain msg where run: "NewAddAllowedBidderCmd reference refClient ?args = Ok msg"
    by (simp add: NewAddAllowedBidderCmd_def withArgs_def refClient_def orErr_def bytesOf_usable)
  have laws: "address_laws reference ModuleName reserveNames"
    using ref_addr.reserve_addresses_axioms by (simp add: reserve_addresses_def)
  have f: "usableAddress (FromAddress refClient)" by (simp add: refClient_def usableAddress_def bytesOf_def)
  show ?thesis
    using command_signers [OF laws f cmd run] cmd run by (simp add: bytesOf_usable refClient_def bytesOf_def)
qed

section \<open>The documented auction types\<close>

text \<open>The help of \<open>query auctions\<close> names AUCTION_TYPE_ENGLISH as one of the two auction types; no type
  has this name, and the query with it is refused in every state.\<close>

theorem documented_auction_type_is_refused:
  assumes "HasContext C" and "ReadPageRequest C = Some pr" and "FlagType C = ''AUCTION_TYPE_ENGLISH''"
  shows "\<exists>rq. NewQueryAuctionsCmd C [] = Ok rq \<and> QAuctions L (Some rq) s = Err InvalidArgument
    \<and> AuctionType_String ty \<noteq> ''AUCTION_TYPE_ENGLISH''"
  using assms by (cases ty) (simp_all add: NewQueryAuctionsCmd_def withArgs_def orErr_def QAuctions_def)

theorem documented_auction_type_is_refused_witness:
  "\<exists>rq. NewQueryAuctionsCmd refClient [] = Ok rq \<and> QAuctions refQuerylib (Some rq) (bidState 2) = Err InvalidArgument"
  using documented_auction_type_is_refused [of refClient "the (ReadPageRequest refClient)" refQuerylib "bidState 2"]
  by (auto simp: refClient_def)

end
