(* ===== verification/Genesis.thy ===== *)
theory Genesis
  imports MsgServer
begin

text \<open>
  Genesis state: default, validation, import and export (\<^verbatim>\<open>types/genesis.go\<close>,
  \<^verbatim>\<open>keeper/genesis.go\<close>). Auctions are packed into a protobuf \<open>Any\<close> on export and unpacked on
  import; the packing is the codec's and is left out, so that a genesis state holds auctions.
\<close>

record AllowedBidderRecord =
  abr_AuctionId :: uint64
  abr_AllowedBidder :: AllowedBidder

record GenesisState =
  gs_Params :: Params
  gs_Auctions :: "AuctionI list"
  gs_AllowedBidderRecords :: "AllowedBidderRecord list"
  gs_Bids :: "Bid list"
  gs_VestingQueues :: "VestingQueue list"

section \<open>Defaults\<close>

text \<open>\<open>sdk.DefaultBondDenom\<close> is a variable of the SDK.\<close>

definition DefaultParams :: "denom \<Rightarrow> Params" where
  "DefaultParams bondDenom =
   \<lparr> AuctionCreationFee = [Coin bondDenom 100000000], PlaceBidFee = [], ExtendedPeriod = 1 \<rparr>"

definition DefaultGenesisState :: "denom \<Rightarrow> GenesisState" where
  "DefaultGenesisState bondDenom =
   \<lparr> gs_Params = DefaultParams bondDenom, gs_Auctions = [], gs_AllowedBidderRecords = [],
     gs_Bids = [], gs_VestingQueues = [] \<rparr>"

section \<open>Validation\<close>

definition AllowedBidderRecord_Validate :: "'a sdk_scheme \<Rightarrow> AllowedBidderRecord \<Rightarrow> unit res" where
  "AllowedBidderRecord_Validate S r =
     bindR (check (abr_AuctionId r = 0) ErrInvalidRequest) (\<lambda>_.
     AllowedBidder_Validate S (abr_AllowedBidder r))"

text \<open>A loop that returns the first error.\<close>

definition validateAll :: "('x \<Rightarrow> unit res) \<Rightarrow> 'x list \<Rightarrow> unit res" where
  "validateAll f xs = foldR (\<lambda>x _. f x) xs ()"

definition GenesisState_Validate :: "'a sdk_scheme \<Rightarrow> GenesisState \<Rightarrow> unit res" where
  "GenesisState_Validate S gs =
     bindR (Params_Validate S (gs_Params gs)) (\<lambda>_.
     bindR (validateAll (\<lambda>a. BaseAuction_Validate S (base a)) (gs_Auctions gs)) (\<lambda>_.
     bindR (validateAll (AllowedBidderRecord_Validate S) (gs_AllowedBidderRecords gs)) (\<lambda>_.
     bindR (validateAll (Bid_Validate S) (gs_Bids gs)) (\<lambda>_.
     validateAll (VestingQueue_Validate S) (gs_VestingQueues gs)))))"

section \<open>Import\<close>

definition importAuction :: "AuctionI \<Rightarrow> ('b, unit) kcomp" where
  "importAuction auction =
     bindM GetNextAuctionIdWithUpdate (\<lambda>_. modifyM (SetAuction auction))"

definition importBid :: "('b, 'z) keeper_scheme \<Rightarrow> Bid \<Rightarrow> ('b, unit) kcomp" where
  "importBid k b =
     bindM (getsM (GetAuction (bid_AuctionId b))) (\<lambda>found. case found of
       None \<Rightarrow> panicM
     | Some _ \<Rightarrow>
       bindM (GetNextBidIdWithUpdate (bid_AuctionId b)) (\<lambda>_. SetBid k b))"

definition importQueue :: "VestingQueue \<Rightarrow> ('b, unit) kcomp" where
  "importQueue q =
     bindM (getsM (GetAuction (vq_AuctionId q))) (\<lambda>found. case found of
       None \<Rightarrow> panicM
     | Some _ \<Rightarrow> modifyM (SetVestingQueue q))"

definition InitGenesis :: "('b, 'z) keeper_scheme \<Rightarrow> GenesisState \<Rightarrow> ('b, unit) kcomp" where
  "InitGenesis k genState =
     bindM (mustM (liftR (GenesisState_Validate k genState))) (\<lambda>_.
     bindM (SetParams k (gs_Params genState)) (\<lambda>_.
     bindM (foreachM importAuction (gs_Auctions genState)) (\<lambda>_.
     bindM (foreachM (\<lambda>r. SetAllowedBidder k (abr_AuctionId r) (abr_AllowedBidder r))
       (gs_AllowedBidderRecords genState)) (\<lambda>_.
     bindM (foreachM (importBid k) (gs_Bids genState)) (\<lambda>_.
     foreachM importQueue (gs_VestingQueues genState))))))"

section \<open>Export\<close>

definition ExportGenesis :: "'b state \<Rightarrow> GenesisState" where
  "ExportGenesis s =
   \<lparr> gs_Params = GetParams s,
     gs_Auctions = GetAuctions s,
     gs_AllowedBidderRecords = concat (map (\<lambda>auction.
       map (\<lambda>ab. \<lparr> abr_AuctionId = GetId auction, abr_AllowedBidder = ab \<rparr>)
         (GetAllowedBiddersByAuction (GetId auction) s)) (GetAuctions s)),
     gs_Bids = GetBids s,
     gs_VestingQueues = GetVestingQueues s \<rparr>"

end
