(* ===== verification/RoundTrip.thy ===== *)
theory RoundTrip
  imports Actions Genesis Lifecycle
begin

text \<open>
  Export and import of the module's state. Importing the export of a state rebuilds its maps entry by
  entry; what is not exported is lost; and after an extended round the export of a state can be one
  that the import refuses.
\<close>

section \<open>Rebuilding a map\<close>

lemma owf_unique: "owf m \<Longrightarrow> owf m' \<Longrightarrow> oget m = oget m' \<Longrightarrow> m = m'"
proof (induction m arbitrary: m')
  case Nil
  then show ?case by (cases m') (auto simp: fun_eq_iff split: if_splits)
next
  case (Cons e m)
  obtain k v where e: "e = (k, v)" by (cases e)
  obtain k' v' m'' where m': "m' = (k', v') # m''"
    using Cons.prems(3) by (cases m') (auto simp: e fun_eq_iff dest!: spec [of _ k])
  have low: "\<forall>x \<in> fst ` set m. k < x" "\<forall>x \<in> fst ` set m''. k' < x"
    using Cons.prems(1,2) by (auto simp: e m' owf_Cons)
  have keys: "insert k (fst ` set m) = insert k' (fst ` set m'')"
  proof -
    have "x \<in> fst ` set (e # m) \<longleftrightarrow> x \<in> fst ` set m'" for x
      using fun_cong [OF Cons.prems(3), of x] oget_None_keys [of "e # m" x] oget_None_keys [of m' x] by metis
    then show ?thesis by (auto simp: e m')
  qed
  have k: "k' = k"
  proof (rule ccontr)
    assume "k' \<noteq> k"
    then have "k \<in> fst ` set m''" and "k' \<in> fst ` set m" using keys by auto
    then show False using low by force
  qed
  have fresh: "oget m k = None" "oget m'' k = None" using low by (force simp: oget_None_keys k)+
  have "v' = v" using fun_cong [OF Cons.prems(3), of k] by (simp add: e m' k)
  moreover have "oget m = oget m''"
  proof
    fix x show "oget m x = oget m'' x"
      using fun_cong [OF Cons.prems(3), of x] fresh by (cases "x = k") (auto simp: e m' k)
  qed
  then have "m = m''" using Cons.IH Cons.prems(1,2) by (simp add: e m' owf_Cons)
  ultimately show ?case by (simp add: e m' k)
qed

definition rebuilt :: "('k::linorder \<times> 'v) list \<Rightarrow> ('k, 'v) omap \<Rightarrow> ('k, 'v) omap" where
  "rebuilt xs m = fold (\<lambda>e. oset (fst e) (snd e)) xs m"

lemma owf_rebuilt: "owf m \<Longrightarrow> owf (rebuilt xs m)"
  unfolding rebuilt_def by (induction xs arbitrary: m) auto

lemma oget_rebuilt:
  assumes "\<forall>e \<in> set xs. oget m (fst e) = Some (snd e)"
  shows "oget (rebuilt xs n) k = (if k \<in> fst ` set xs then oget m k else oget n k)"
  using assms unfolding rebuilt_def
proof (induction xs arbitrary: n)
  case (Cons e xs)
  then show ?case by (auto simp: image_iff)
qed simp

lemma rebuilt_same:
  assumes "owf m" and "set xs = set m"
  shows "rebuilt xs [] = m"
proof (rule owf_unique [OF owf_rebuilt assms(1)])
  have "\<forall>e \<in> set xs. oget m (fst e) = Some (snd e)" using assms by (auto simp: oget_mem)
  then show "oget (rebuilt xs []) = oget m"
    by (intro ext) (auto simp: oget_rebuilt assms(2) oget_None_keys eq_commute [of None])
qed simp

section \<open>The runs of the import\<close>

lemma importAuctions_run:
  "foreachM importAuction as t = (Ok (), t\<lparr>LastAuctionId := LastAuctionId t + of_nat (length as),
     Auctions := rebuilt (map (\<lambda>a. (GetId a, a)) as) (Auctions t)\<rparr>)"
proof (induction as arbitrary: t)
  case (Cons a as)
  then show ?case
    by (simp add: importAuction_def GetNextAuctionIdWithUpdate_def SetAuction_def SetAuctionId_def GetLastAuctionId_def
        monad_simps rebuilt_def algebra_simps)
qed (simp add: monad_simps rebuilt_def)

definition recordEntry :: "'a sdk_scheme \<Rightarrow> AllowedBidderRecord \<Rightarrow> (uint64 \<times> addrKey) \<times> AllowedBidder" where
  "recordEntry S r = ((abr_AuctionId r, addrKey (the (AllowedBidder_GetBidder S (abr_AllowedBidder r)))), abr_AllowedBidder r)"

lemma importAllowed_run:
  assumes "\<forall>r \<in> set rs. \<exists>x. AllowedBidder_GetBidder S (abr_AllowedBidder r) = Some x"
  shows "foreachM (\<lambda>r. SetAllowedBidder S (abr_AuctionId r) (abr_AllowedBidder r)) rs t
    = (Ok (), t\<lparr>AllowedBidders := rebuilt (map (recordEntry S) rs) (AllowedBidders t)\<rparr>)"
  using assms
proof (induction rs arbitrary: t)
  case (Cons r rs)
  then obtain x where "AllowedBidder_GetBidder S (abr_AllowedBidder r) = Some x" by auto
  with Cons show ?case by (simp add: SetAllowedBidder_def monad_simps rebuilt_def recordEntry_def)
qed (simp add: monad_simps rebuilt_def)

text \<open>The counters of bids after an import: one step per bid of the auction.\<close>

definition countBids :: "Bid list \<Rightarrow> (uint64, uint64) omap \<Rightarrow> (uint64, uint64) omap" where
  "countBids bs m = fold (\<lambda>b c. oset (bid_AuctionId b)
     ((case oget c (bid_AuctionId b) of None \<Rightarrow> 0 | Some n \<Rightarrow> n) + 1) c) bs m"

lemma countBids_get:
  "(case oget (countBids bs m) i of None \<Rightarrow> 0 | Some n \<Rightarrow> n)
    = (case oget m i of None \<Rightarrow> 0 | Some n \<Rightarrow> n) + of_nat (length (filter (\<lambda>b. bid_AuctionId b = i) bs))"
  unfolding countBids_def by (induction bs arbitrary: m) (auto simp: algebra_simps)

lemma importBids_run:
  assumes "\<forall>b \<in> set bs. GetAuction (bid_AuctionId b) t \<noteq> None \<and> (\<exists>x. Bid_GetBidder k b = Some x)"
  shows "foreachM (importBid k) bs t = (Ok (), t\<lparr>LastBidIds := countBids bs (LastBidIds t),
      Bids := rebuilt (map (\<lambda>b. ((bid_AuctionId b, bid_Id b), b)) bs) (Bids t),
      BidIndex := rebuilt (map (\<lambda>b. ((addrKey (the (Bid_GetBidder k b)), bid_AuctionId b, bid_Id b), ())) bs) (BidIndex t)\<rparr>)"
  using assms
proof (induction bs arbitrary: t)
  case (Cons b bs)
  then obtain x a where x: "Bid_GetBidder k b = Some x" and a: "oget (Auctions t) (bid_AuctionId b) = Some a"
    by (auto simp: GetAuction_def)
  define u where "u = t\<lparr>LastBidIds := countBids [b] (LastBidIds t),
      Bids := oset (bid_AuctionId b, bid_Id b) b (Bids t), BidIndex := oset (addrKey x, bid_AuctionId b, bid_Id b) () (BidIndex t)\<rparr>"
  have "importBid k b t = (Ok (), u)"
    by (simp add: importBid_def monad_simps GetAuction_def a GetNextBidIdWithUpdate_def GetLastBidId_def SetBidId_def
        SetBid_def x u_def countBids_def)
  moreover have "\<forall>b \<in> set bs. GetAuction (bid_AuctionId b) u \<noteq> None \<and> (\<exists>x. Bid_GetBidder k b = Some x)"
    using Cons.prems by (simp add: u_def GetAuction_def)
  ultimately show ?case using Cons.IH [of u] by (simp add: monad_simps) (simp add: u_def x rebuilt_def countBids_def)
qed (simp add: monad_simps rebuilt_def countBids_def)

lemma importQueues_run:
  assumes "\<forall>q \<in> set qs. GetAuction (vq_AuctionId q) t \<noteq> None"
  shows "foreachM importQueue qs t = (Ok (), t\<lparr>VestingQueues :=
      rebuilt (map (\<lambda>q. ((vq_AuctionId q, vq_ReleaseTime q), q)) qs) (VestingQueues t)\<rparr>)"
  using assms
proof (induction qs arbitrary: t)
  case (Cons q qs)
  then obtain a where a: "oget (Auctions t) (vq_AuctionId q) = Some a" by (auto simp: GetAuction_def)
  have "importQueue q t = (Ok (), SetVestingQueue q t)" by (simp add: importQueue_def monad_simps GetAuction_def a)
  moreover have "\<forall>q' \<in> set qs. GetAuction (vq_AuctionId q') (SetVestingQueue q t) \<noteq> None"
    using Cons.prems by (simp add: SetVestingQueue_def GetAuction_def)
  ultimately show ?case using Cons.IH [of "SetVestingQueue q t"]
    by (simp add: monad_simps) (simp add: SetVestingQueue_def rebuilt_def)
qed (simp add: monad_simps rebuilt_def)

lemma oget_index:
  "oget (rebuilt (map (\<lambda>b. (f b, ())) bs) m) key = Some () \<longleftrightarrow> key \<in> f ` set bs \<or> oget m key = Some ()"
  unfolding rebuilt_def by (induction bs arbitrary: m) auto

lemma mustM_liftR: "mustM (liftR r) t = (case r of Ok x \<Rightarrow> (Ok x, t) | _ \<Rightarrow> (Panic, t))"
  by (cases r) (simp_all add: mustM_def liftR_def)

text \<open>The entries of an export are the entries of the store.\<close>

lemma set_entries:
  assumes "owf m" and "\<forall>(key, v) \<in> set m. K v = key"
  shows "set (map (\<lambda>v. (K v, v)) (oiter (\<lambda>_. True) m)) = set m"
proof -
  have "map (\<lambda>v. (K v, v)) (map snd m) = m" using assms(2) by (induction m) auto
  then show ?thesis by (simp only: oiter_def) simp
qed

text \<open>C37. Importing the export of a state into an empty store gives back its parameters, auctions, allowed
  bidders, bids and vesting queues, entry by entry, and the index of the bids of each bidder; the
  counters of ids restart at the number of auctions and of bids, and the numbers of matched bids of
  earlier rounds are lost.\<close>

theorem export_import_restores:
  assumes "Inv k s" and "\<forall>(key, ab) \<in> set (AllowedBidders s). GetAuction (fst key) s \<noteq> None"
    and "GenesisState_Validate k (ExportGenesis s) = Ok ()" and "ParamSetPairs_validate k (params s) = Ok ()"
    and "emptyStore t"
  shows "\<exists>u. InitGenesis k (ExportGenesis s) t = (Ok (), u) \<and> params u = params s \<and> bank u = bank t
    \<and> Auctions u = Auctions s \<and> AllowedBidders u = AllowedBidders s \<and> Bids u = Bids s
    \<and> VestingQueues u = VestingQueues s
    \<and> (\<forall>x i j. oget (BidIndex u) (addrKey x, i, j) = Some ()
        \<longleftrightarrow> (\<exists>b. GetBid i j s = Some b \<and> Bid_GetBidder k b = Some x))
    \<and> LastAuctionId u = of_nat (length (Auctions s))
    \<and> (\<forall>i. GetLastBidId i u = of_nat (length (GetBidsByAuctionId i s))) \<and> MatchedBidsLens u = []"
proof -
  have ok: "storeOK k s" by (rule InvD(1) [OF assms(1)])
  then have wf: "owf (Auctions s)" "owf (AllowedBidders s)" "owf (Bids s)" "owf (VestingQueues s)"
    and bkeys: "\<forall>(key, b) \<in> set (Bids s). (bid_AuctionId b, bid_Id b) = key"
    and qkeys: "\<forall>(key, q) \<in> set (VestingQueues s). (vq_AuctionId q, vq_ReleaseTime q) = key"
    and allowed: "\<forall>(key, ab) \<in> set (AllowedBidders s). allowedOK k key ab"
    by (auto simp: storeOK_def)
  let ?as = "GetAuctions s" and ?bs = "GetBids s" and ?qs = "GetVestingQueues s"
  let ?rs = "gs_AllowedBidderRecords (ExportGenesis s)"
  let ?AB = "recordEntry k"
  have aid: "GetId a = i" if "GetAuction i s = Some a" for i a
    using InvD(2) [OF assms(1) that] by (simp add: auctionOK_def)
  have auctions: "rebuilt (map (\<lambda>a. (GetId a, a)) ?as) [] = Auctions s"
    unfolding GetAuctions_def
    by (intro rebuilt_same wf set_entries) (use aid in \<open>auto simp: GetAuction_def oget_mem [OF wf(1)]\<close>)
  have bids: "rebuilt (map (\<lambda>b. ((bid_AuctionId b, bid_Id b), b)) ?bs) [] = Bids s"
    unfolding GetBids_def by (intro rebuilt_same wf set_entries bkeys)
  have queues: "rebuilt (map (\<lambda>q. ((vq_AuctionId q, vq_ReleaseTime q), q)) ?qs) [] = VestingQueues s"
    unfolding GetVestingQueues_def by (intro rebuilt_same wf set_entries qkeys)
  have entry: "AllowedBidder_GetBidder k ab = Some x \<and> key = (fst key, addrKey x)"
    if "(key, ab) \<in> set (AllowedBidders s)" and "snd key = addrKey x" for key ab x
    using that allowed by (cases key) (force simp: allowedOK_def AllowedBidder_GetBidder_def)
  have known: "\<exists>x. snd key = addrKey x" if "(key, ab) \<in> set (AllowedBidders s)" for key ab
    using that allowed by (force simp: allowedOK_def)
  have records: "r \<in> set ?rs \<longleftrightarrow> (\<exists>key ab. (key, ab) \<in> set (AllowedBidders s)
      \<and> r = \<lparr> abr_AuctionId = fst key, abr_AllowedBidder = ab \<rparr>)" for r
  proof -
    have "\<exists>a \<in> set ?as. GetId a = fst key" if m: "(key, ab) \<in> set (AllowedBidders s)" for key ab
    proof -
      obtain a where "GetAuction (fst key) s = Some a" using m assms(2) by fast
      then show ?thesis using aid by (force simp: GetAuctions_def oiter_def GetAuction_def oget_mem [OF wf(1), symmetric])
    qed
    moreover have "ab \<in> set (GetAllowedBiddersByAuction i s) \<longleftrightarrow> (\<exists>key. (key, ab) \<in> set (AllowedBidders s) \<and> fst key = i)"
      for i ab by (force simp: GetAllowedBiddersByAuction_def oiter_def)
    moreover have "r \<in> set ?rs \<longleftrightarrow> (\<exists>a \<in> set ?as. \<exists>ab \<in> set (GetAllowedBiddersByAuction (GetId a) s).
        r = \<lparr> abr_AuctionId = GetId a, abr_AllowedBidder = ab \<rparr>)"
      by (auto simp: ExportGenesis_def)
    ultimately show ?thesis by metis
  qed
  have "set (map ?AB ?rs) = set (AllowedBidders s)"
  proof (intro set_eqI iffI)
    fix e assume "e \<in> set (map ?AB ?rs)"
    then obtain key ab where m: "(key, ab) \<in> set (AllowedBidders s)"
      and e: "e = ?AB \<lparr> abr_AuctionId = fst key, abr_AllowedBidder = ab \<rparr>" by (auto simp: records)
    obtain x where "snd key = addrKey x" using known [OF m] by blast
    with entry [OF m this] m show "e \<in> set (AllowedBidders s)" by (simp add: e recordEntry_def)
  next
    fix e assume m: "e \<in> set (AllowedBidders s)"
    obtain key ab where e: "e = (key, ab)" by (cases e)
    obtain x where x: "snd key = addrKey x" using known m e by blast
    have "?AB \<lparr> abr_AuctionId = fst key, abr_AllowedBidder = ab \<rparr> = e" using entry [OF _ x, of ab] m by (simp add: e recordEntry_def)
    then show "e \<in> set (map ?AB ?rs)" using m records e by (metis (no_types, lifting) image_eqI set_map)
  qed
  then have bidders: "rebuilt (map ?AB ?rs) [] = AllowedBidders s" by (rule rebuilt_same [OF wf(2)])
  have bid: "GetAuction (bid_AuctionId b) s \<noteq> None \<and> (\<exists>x. Bid_GetBidder k b = Some x)" if b: "b \<in> set ?bs" for b
  proof -
    obtain key where "(key, b) \<in> set (Bids s)" using b by (auto simp: GetBids_def oiter_def)
    then have own: "b \<in> set (GetBidsByAuctionId (bid_AuctionId b) s)"
      using bkeys by (force simp: GetBidsByAuctionId_def oiter_def)
    then obtain a where a: "GetAuction (bid_AuctionId b) s = Some a" using InvD(7) [OF assms(1)] by fastforce
    then show ?thesis using InvD(4) [OF assms(1) a own] by (auto simp: bidderAllowed_def Bid_GetBidder_def)
  qed
  have queue: "GetAuction (vq_AuctionId q) s \<noteq> None" if q: "q \<in> set ?qs" for q
  proof -
    obtain key where "(key, q) \<in> set (VestingQueues s)" using q by (auto simp: GetVestingQueues_def oiter_def)
    then have "q \<in> set (GetVestingQueuesByAuctionId (vq_AuctionId q) s)"
      using qkeys by (force simp: GetVestingQueuesByAuctionId_def oiter_def)
    then show ?thesis using InvD(7) [OF assms(1)] by fastforce
  qed
  note empty = assms(5) [unfolded emptyStore_def]
  define index where "index = rebuilt (map (\<lambda>b. ((addrKey (the (Bid_GetBidder k b)), bid_AuctionId b, bid_Id b), ())) ?bs) []"
  define u where "u = t\<lparr>params := params s, LastAuctionId := of_nat (length (Auctions s)), Auctions := Auctions s,
    AllowedBidders := AllowedBidders s, LastBidIds := countBids ?bs [], Bids := Bids s, BidIndex := index,
    VestingQueues := VestingQueues s\<rparr>"
  have len: "length ?as = length (Auctions s)" by (simp add: GetAuctions_def oiter_def)
  have getters: "\<forall>r \<in> set ?rs. \<exists>x. AllowedBidder_GetBidder k (abr_AllowedBidder r) = Some x"
    using records entry known by fastforce
  define t1 where "t1 = t\<lparr>params := params s, LastAuctionId := of_nat (length (Auctions s)), Auctions := Auctions s\<rparr>"
  define t2 where "t2 = t1\<lparr>AllowedBidders := AllowedBidders s\<rparr>"
  define t3 where "t3 = t2\<lparr>LastBidIds := countBids ?bs [], Bids := Bids s, BidIndex := index\<rparr>"
  have s0: "SetParams k (params s) t = (Ok (), t\<lparr>params := params s\<rparr>)"
    by (simp add: SetParams_def mustM_liftR assms(4) monad_simps)
  have s1: "foreachM importAuction ?as (t\<lparr>params := params s\<rparr>) = (Ok (), t1)"
    using auctions by (simp add: importAuctions_run len t1_def empty)
  have s2: "foreachM (\<lambda>r. SetAllowedBidder k (abr_AuctionId r) (abr_AllowedBidder r)) ?rs t1 = (Ok (), t2)"
    by (simp add: importAllowed_run [OF getters] bidders t2_def) (simp add: t1_def empty bidders)
  have known2: "GetAuction i t2 = GetAuction i s" "GetAuction i t3 = GetAuction i s" for i
    by (simp_all add: t3_def t2_def t1_def GetAuction_def)
  have "Bids t2 = []" "BidIndex t2 = []" "LastBidIds t2 = []" by (simp_all add: t2_def t1_def empty)
  then have s3: "foreachM (importBid k) ?bs t2 = (Ok (), t3)"
    using bid by (subst importBids_run) (simp_all add: known2 bids t3_def flip: index_def)
  have "VestingQueues t3 = []" by (simp add: t3_def t2_def t1_def empty)
  moreover have "foreachM importQueue ?qs t3 = (Ok (), t3\<lparr>VestingQueues :=
      rebuilt (map (\<lambda>q. ((vq_AuctionId q, vq_ReleaseTime q), q)) ?qs) (VestingQueues t3)\<rparr>)"
    by (rule importQueues_run) (use queue in \<open>simp add: known2\<close>)
  ultimately have s4: "foreachM importQueue ?qs t3 = (Ok (), u)"
    by (simp add: queues) (simp add: u_def t3_def t2_def t1_def)
  have fields: "gs_Params (ExportGenesis s) = params s" "gs_Auctions (ExportGenesis s) = ?as"
    "gs_Bids (ExportGenesis s) = ?bs" "gs_VestingQueues (ExportGenesis s) = ?qs"
    by (simp_all add: ExportGenesis_def GetParams_def)
  have run: "InitGenesis k (ExportGenesis s) t = (Ok (), u)"
    by (simp add: InitGenesis_def mustM_liftR assms(3) monad_simps fields s0 s1 s2 s3 s4)
  have idx: "oget index (addrKey x, i, j) = Some () \<longleftrightarrow> (\<exists>b. GetBid i j s = Some b \<and> Bid_GetBidder k b = Some x)" for x i j
  proof -
    have "oget index (addrKey x, i, j) = Some ()
        \<longleftrightarrow> (\<exists>b \<in> set ?bs. Bid_GetBidder k b = Some x \<and> bid_AuctionId b = i \<and> bid_Id b = j)"
      unfolding index_def oget_index using bid by force
    moreover have "b \<in> set ?bs \<and> bid_AuctionId b = i \<and> bid_Id b = j \<longleftrightarrow> GetBid i j s = Some b" for b
      using bkeys by (force simp: GetBids_def oiter_def GetBid_def simp flip: oget_mem [OF wf(3)])
    ultimately show ?thesis by blast
  qed
  have counts: "GetLastBidId i u = of_nat (length (GetBidsByAuctionId i s))" for i
    using countBids_get [of ?bs "[]" i] by (simp add: GetLastBidId_def u_def bids_of_auction_filter [OF ok])
  show ?thesis
    by (intro exI [of _ u] conjI allI run idx counts) (simp_all add: u_def empty idx)
qed

lemma validateAll_Ok: "validateAll f xs = Ok () \<longleftrightarrow> (\<forall>x \<in> set xs. f x = Ok ())"
  unfolding validateAll_def by (induction xs) (auto simp: bindR_Ok_iff)

lemma theBid_fields: "bid_Bidder theBid = ''bob''" "bid_AuctionId theBid = 1" "bid_Id theBid = 1"
  "mant (bid_Price theBid) = 3 * decUnit" "bid_Coin theBid = Coin ''paying'' 90"
  by (simp_all add: theBid_def bidOf_def bidMsg_def)

lemma bidState_export:
  "GetAuctions (bidState mx) = [theAuction mx]" "GetBids (bidState mx) = [theBid]" "GetVestingQueues (bidState mx) = []"
  "gs_AllowedBidderRecords (ExportGenesis (bidState mx)) = [\<lparr> abr_AuctionId = 1, abr_AllowedBidder = limitFor ''bob'' 60 \<rparr>]"
  by (simp_all add: GetAuctions_def GetBids_def GetVestingQueues_def ExportGenesis_def GetAllowedBiddersByAuction_def
      bidState_def allowedState_def createdState_def startState_def theAuction_simps)

theorem export_import_restores_witness:
  "\<exists>u. InitGenesis reference (ExportGenesis (bidState 2)) startState = (Ok (), u) \<and> Auctions u = Auctions (bidState 2)
    \<and> Bids u = Bids (bidState 2) \<and> GetLastBidId 1 u = 1"
proof -
  have inv: "Inv reference (bidState 2)" by (rule scenario_Inv) simp
  have bidders: "\<forall>(key, ab) \<in> set (AllowedBidders (bidState 2)). GetAuction (fst key) (bidState 2) \<noteq> None"
    by (simp add: GetAuction_def bidState_def allowedState_def createdState_def)
  have "GetAuction 1 (bidState 2) = Some (theAuction 2)"
    by (simp add: GetAuction_def bidState_def allowedState_def createdState_def)
  then have ok: "auctionOK reference 1 (theAuction 2)" by (rule InvD(2) [OF inv])
  have a: "BaseAuction_Validate reference (base (theAuction 2)) = Ok ()"
    unfolding ref_fund.validates_iff [OF ok] using ok by (simp add: auctionOK_def theAuction_simps)
  have p: "params (bidState 2) = params startState"
    by (simp add: bidState_def allowedState_def createdState_def)
  have fields: "gs_Params (ExportGenesis s) = params s" "gs_Auctions (ExportGenesis s) = GetAuctions s"
    "gs_Bids (ExportGenesis s) = GetBids s" "gs_VestingQueues (ExportGenesis s) = GetVestingQueues s" for s :: "ledger state"
    by (simp_all add: ExportGenesis_def GetParams_def)
  have v: "GenesisState_Validate reference (ExportGenesis (bidState 2)) = Ok ()"
    by (simp add: GenesisState_Validate_def fields bidState_export p startState_def validateAll_def a
        AllowedBidderRecord_Validate_def AllowedBidder_Validate_def Bid_Validate_def theBid_fields DecIsPositive_def
        Params_Validate_def validateAuctionCreationFee_def validateExtendedPeriod_def check_def limitFor_def bytesOf_usable
        refCoinValidate_def refValidateDenom_def)
  have pv: "ParamSetPairs_validate reference (params (bidState 2)) = Ok ()"
    by (simp add: ParamSetPairs_validate_def p startState_def validateAuctionCreationFee_def validatePlaceBidFee_def
        validateExtendedPeriod_def check_def refValidateDenom_def)
  have "GetBidsByAuctionId 1 (bidState 2) = [theBid]" by (simp add: GetBidsByAuctionId_def bidState_def)
  then show ?thesis
    using export_import_restores [OF inv bidders v pv startState_empty] by fastforce
qed

section \<open>An export that cannot be imported\<close>

text \<open>C38. Validation compares the release times of an auction with its LAST end time, creation with its
  first one. When an extended round has moved the end to or past a release time, the state is still a
  proper one, but the import of its export panics.\<close>

theorem export_after_extension_is_refused:
  assumes "fundraising k pool" and "reachable k s" and "GetAuction i s = Some a"
    and "v \<in> set (ba_VestingSchedules (base a))" and "vs_ReleaseTime v \<le> last (ba_EndTimes (base a))"
  shows "InitGenesis k (ExportGenesis s) t = (Panic, t)"
proof -
  have inv: "Inv k s" by (rule fundraising.reachable_Inv [OF assms(1,2)])
  have "BaseAuction_Validate k (base a) \<noteq> Ok ()"
    using fundraising.validates_iff [OF assms(1) InvD(2) [OF inv assms(3)]] assms(4,5) by (auto simp: validSchedules_def)
  moreover have "a \<in> set (GetAuctions s)"
    using fundraising.listed_auctions(3) [OF assms(1) inv assms(3)] by blast
  ultimately have "validateAll (\<lambda>a. BaseAuction_Validate k (base a)) (GetAuctions s) \<noteq> Ok ()"
    by (auto simp: validateAll_Ok)
  then have "GenesisState_Validate k (ExportGenesis s) \<noteq> Ok ()"
    by (auto simp: GenesisState_Validate_def bindR_Ok_iff ExportGenesis_def)
  then show ?thesis
    by (cases "GenesisState_Validate k (ExportGenesis s)") (simp_all add: InitGenesis_def mustM_liftR bindM_def)
qed

text \<open>The reference run: the auction ends at 200 and releases at 300; the block at 200 extends it by a day.\<close>

theorem export_after_extension_is_refused_witness:
  "\<exists>u. BeginBlocker reference ((bidState 2)\<lparr>BlockTime := 200\<rparr>) = (Ok (), u)
    \<and> InitGenesis reference (ExportGenesis u) startState = (Panic, startState)"
proof -
  let ?s = "(bidState 2)\<lparr>BlockTime := 200\<rparr>"
  have r: "reachable reference (bidState 2)" by (rule scenario_reachable) simp
  have inv: "Inv reference ?s" by (rule at_time_Inv [OF scenario_Inv(3)]) simp
  have auctions: "Auctions ?s = [(1, theAuction 2)]"
    by (simp add: bidState_def allowedState_def createdState_def)
  then have a: "GetAuction 1 ?s = Some (theAuction 2)" by (simp add: GetAuction_def)
  have first: "GetLastMatchedBidsLen 1 ?s = 0"
    by (simp add: GetLastMatchedBidsLen_def bidState_def allowedState_def createdState_def startState_def)
  obtain u where close: "CloseBatchAuction reference (theAuction 2) ?s = (Ok (), u)"
    and u: "GetAuction 1 u = Some (extended ?s (theAuction 2))"
    using ref_fund.CloseBatchAuction_first [OF inv a theAuction_simps(2) theAuction_shape _ first]
    by (auto simp: theAuction_simps)
  have "executeAuction reference (theAuction 2) ?s = (Ok (), u)"
    by (simp add: executeAuction_def ExecuteStartedStatus_def GetStatus_def GetType_def theAuction_simps monad_simps
        ShouldAuctionClosed_def lastTime_def close)
  then have run: "BeginBlocker reference ?s = (Ok (), u)"
    using auctions by (simp add: BeginBlocker_def GetAuctions_def monad_simps)
  have "chainStep reference (bidState 2) u"
    by (rule chainStep.beginBlock [OF _ run]) (simp add: bidState_def allowedState_def createdState_def startState_def)
  then have "reachable reference u"
    using r unfolding reachable_def by (meson rtranclp.rtrancl_into_rtrancl)
  moreover have "ba_VestingSchedules (base (extended ?s (theAuction 2))) = [\<lparr> vs_ReleaseTime = 300, vs_Weight = whole 1 \<rparr>]"
    by (simp add: extended_def theAuction_simps SetEndTimes_def)
  moreover have "300 \<le> last (ba_EndTimes (base (extended ?s (theAuction 2))))"
    by (simp add: extended_def theAuction_simps addDays_def bidState_def allowedState_def createdState_def startState_def)
  ultimately show ?thesis
    using run export_after_extension_is_refused [OF ref_fund.fundraising_axioms _ u] by simp
qed

end
