(* ===== verification/Packing.thy ===== *)
theory Packing
  imports Genesis
begin

text \<open>
  Auctions packed into the protobuf \<open>Any\<close> (the end of \<^verbatim>\<open>types/auction.go\<close>) and the genesis state as it
  is declared, with packed auctions (\<^verbatim>\<open>types/genesis.go\<close>, \<^verbatim>\<open>keeper/genesis.go\<close>). The packing of the
  SDK is a parameter, the record \<open>anyLib\<close>. The lemmas reduce export and import over packed auctions to
  those of theory Genesis, and show that an import whose auctions do not unpack stops before it writes.
\<close>

section \<open>Packed values\<close>

text \<open>What an \<open>Any\<close> has in its cache: an auction, or a value of another type.\<close>

datatype cachedValue = CachedAuction AuctionI | CachedOther

record any =
  TypeUrl :: string
  AnyValue :: "byte list"
  CachedValue :: "cachedValue option"

text \<open>\<open>NewAnyWithValue\<close>, \<open>UnpackAny\<close> of a registry that knows the module's types, and the binary codec's
  two functions for interfaces.\<close>

record anyLib =
  NewAnyWithValue :: "AuctionI \<Rightarrow> any option"
  UnpackAny :: "any \<Rightarrow> AuctionI option"
  MarshalInterface :: "AuctionI \<Rightarrow> byte list option"
  UnmarshalInterface :: "byte list \<Rightarrow> AuctionI option"

definition orExternal :: "'a option \<Rightarrow> 'a res" where
  "orExternal x = (case x of None \<Rightarrow> Err (ErrExternal 2) | Some y \<Rightarrow> Ok y)"

definition PackAuction :: "'l anyLib_scheme \<Rightarrow> AuctionI \<Rightarrow> any res" where
  "PackAuction L auction = orExternal (NewAnyWithValue L auction)"

text \<open>The argument is a pointer, None for nil.\<close>

definition UnpackAuction :: "'l anyLib_scheme \<Rightarrow> any option \<Rightarrow> AuctionI res" where
  "UnpackAuction L ptr =
     (case ptr of None \<Rightarrow> Err ErrInvalidType
      | Some a \<Rightarrow>
        if TypeUrl a = [] then Err ErrInvalidType
        else (case CachedValue a of
            None \<Rightarrow> orExternal (UnpackAny L a)
          | Some (CachedAuction auction) \<Rightarrow> Ok auction
          | Some CachedOther \<Rightarrow> Err ErrInvalidType))"

fun UnpackAuctions :: "'l anyLib_scheme \<Rightarrow> any option list \<Rightarrow> AuctionI list res" where
  "UnpackAuctions L [] = Ok []"
| "UnpackAuctions L (a # as) =
     bindR (UnpackAuction L a) (\<lambda>p. bindR (UnpackAuctions L as) (\<lambda>ps. Ok (p # ps)))"

definition MarshalAuction :: "'l anyLib_scheme \<Rightarrow> AuctionI \<Rightarrow> byte list res" where
  "MarshalAuction L auction = orExternal (MarshalInterface L auction)"

definition UnmarshalAuction :: "'l anyLib_scheme \<Rightarrow> byte list \<Rightarrow> AuctionI res" where
  "UnmarshalAuction L bz = orExternal (UnmarshalInterface L bz)"

definition MustMarshalAuction :: "'l anyLib_scheme \<Rightarrow> AuctionI \<Rightarrow> byte list res" where
  "MustMarshalAuction L auction = (case MarshalAuction L auction of Ok bz \<Rightarrow> Ok bz | _ \<Rightarrow> Panic)"

definition MustUnmarshalAuction :: "'l anyLib_scheme \<Rightarrow> byte list \<Rightarrow> AuctionI res" where
  "MustUnmarshalAuction L bz = (case UnmarshalAuction L bz of Ok auction \<Rightarrow> Ok auction | _ \<Rightarrow> Panic)"

section \<open>Genesis with packed auctions\<close>

record PackedGenesis =
  pg_Params :: Params
  pg_Auctions :: "any option list"
  pg_AllowedBidderRecords :: "AllowedBidderRecord list"
  pg_Bids :: "Bid list"
  pg_VestingQueues :: "VestingQueue list"

definition withAuctions :: "AuctionI list \<Rightarrow> PackedGenesis \<Rightarrow> GenesisState" where
  "withAuctions as pg =
   \<lparr> gs_Params = pg_Params pg, gs_Auctions = as, gs_AllowedBidderRecords = pg_AllowedBidderRecords pg,
     gs_Bids = pg_Bids pg, gs_VestingQueues = pg_VestingQueues pg \<rparr>"

definition PackedGenesis_Validate :: "'l anyLib_scheme \<Rightarrow> 'a sdk_scheme \<Rightarrow> PackedGenesis \<Rightarrow> unit res" where
  "PackedGenesis_Validate L S gs =
     bindR (Params_Validate S (pg_Params gs)) (\<lambda>_.
     bindR (validateAll (\<lambda>a. bindR (UnpackAuction L a) (\<lambda>auction. BaseAuction_Validate S (base auction))) (pg_Auctions gs)) (\<lambda>_.
     bindR (validateAll (AllowedBidderRecord_Validate S) (pg_AllowedBidderRecords gs)) (\<lambda>_.
     bindR (validateAll (Bid_Validate S) (pg_Bids gs)) (\<lambda>_.
     validateAll (VestingQueue_Validate S) (pg_VestingQueues gs)))))"

definition PackedInitGenesis :: "'l anyLib_scheme \<Rightarrow> ('b, 'z) keeper_scheme \<Rightarrow> PackedGenesis \<Rightarrow> ('b, unit) kcomp" where
  "PackedInitGenesis L k genState =
     bindM (mustM (liftR (PackedGenesis_Validate L k genState))) (\<lambda>_.
     bindM (SetParams k (pg_Params genState)) (\<lambda>_.
     bindM (foreachM (\<lambda>a. bindM (mustM (liftR (UnpackAuction L a))) importAuction) (pg_Auctions genState)) (\<lambda>_.
     bindM (foreachM (\<lambda>r. SetAllowedBidder k (abr_AuctionId r) (abr_AllowedBidder r))
       (pg_AllowedBidderRecords genState)) (\<lambda>_.
     bindM (foreachM (importBid k) (pg_Bids genState)) (\<lambda>_.
     foreachM importQueue (pg_VestingQueues genState))))))"

fun packAll :: "'l anyLib_scheme \<Rightarrow> AuctionI list \<Rightarrow> any option list res" where
  "packAll L [] = Ok []"
| "packAll L (a # as) =
     (case PackAuction L a of Ok p \<Rightarrow> bindR (packAll L as) (\<lambda>ps. Ok (Some p # ps)) | _ \<Rightarrow> Panic)"

definition PackedExportGenesis :: "'l anyLib_scheme \<Rightarrow> 'b state \<Rightarrow> PackedGenesis res" where
  "PackedExportGenesis L s =
     (let gs = ExportGenesis s in
      bindR (packAll L (gs_Auctions gs)) (\<lambda>as. Ok
        \<lparr> pg_Params = gs_Params gs, pg_Auctions = as, pg_AllowedBidderRecords = gs_AllowedBidderRecords gs,
          pg_Bids = gs_Bids gs, pg_VestingQueues = gs_VestingQueues gs \<rparr>))"

section \<open>Reduction to unpacked auctions\<close>

lemma UnpackAuctions_Ok: "UnpackAuctions L ps = Ok as \<longleftrightarrow> list_all2 (\<lambda>p a. UnpackAuction L p = Ok a) ps as"
  by (induction ps arbitrary: as) (auto simp: bindR_Ok_iff list_all2_Cons1)

lemma validate_unpacked:
  assumes "list_all2 (\<lambda>p a. UnpackAuction L p = Ok a) ps as"
  shows "validateAll (\<lambda>p. bindR (UnpackAuction L p) f) ps = validateAll f as"
proof -
  have "foldR (\<lambda>p _. bindR (UnpackAuction L p) f) ps = foldR (\<lambda>a _. f a) as"
    using assms by (induction rule: list_all2_induct) (rule ext, simp)+
  then show ?thesis by (simp add: validateAll_def)
qed

lemma import_unpacked:
  assumes "list_all2 (\<lambda>p a. UnpackAuction L p = Ok a) ps as"
  shows "foreachM (\<lambda>p. bindM (mustM (liftR (UnpackAuction L p))) f) ps = foreachM f as"
  using assms
proof (induction rule: list_all2_induct)
  case (Cons p ps a as)
  have "bindM (mustM (liftR (UnpackAuction L p))) f = f a"
    using Cons(1) by (simp add: fun_eq_iff bindM_def mustM_def liftR_def)
  then show ?case using Cons(3) by simp
qed simp

text \<open>When the packed auctions unpack, import over packed auctions is the import of theory Genesis.\<close>

lemma packed_import_refines:
  assumes "UnpackAuctions L (pg_Auctions pg) = Ok as"
  shows "PackedInitGenesis L k pg = InitGenesis k (withAuctions as pg)"
  using assms
  by (simp add: UnpackAuctions_Ok PackedInitGenesis_def InitGenesis_def PackedGenesis_Validate_def GenesisState_Validate_def
      withAuctions_def validate_unpacked import_unpacked)

text \<open>When one does not, the import panics before its first write.\<close>

lemma validateAll_refuses: "x \<in> set xs \<Longrightarrow> \<forall>u. f x \<noteq> Ok u \<Longrightarrow> validateAll f xs \<noteq> Ok u'"
  unfolding validateAll_def by (induction xs) (auto simp: bindR_Ok_iff)

lemma packed_import_refuses:
  assumes "p \<in> set (pg_Auctions pg)" and "\<And>a. UnpackAuction L p \<noteq> Ok a"
  shows "PackedInitGenesis L k pg s = (Panic, s)"
proof -
  have "\<forall>u. bindR (UnpackAuction L p) (\<lambda>auction. BaseAuction_Validate k (base auction)) \<noteq> Ok u"
    using assms(2) by (simp add: bindR_Ok_iff)
  then have refused: "validateAll (\<lambda>a. bindR (UnpackAuction L a) (\<lambda>auction. BaseAuction_Validate k (base auction)))
      (pg_Auctions pg) \<noteq> Ok u" for u
    by (rule validateAll_refuses [OF assms(1)])
  have "PackedGenesis_Validate L k pg \<noteq> Ok u" for u
    using refused unfolding PackedGenesis_Validate_def bindR_Ok_iff by blast
  then show ?thesis
    by (cases "PackedGenesis_Validate L k pg") (simp_all add: PackedInitGenesis_def bindM_def mustM_def liftR_def)
qed

text \<open>A packed auction has its value in the cache, so that it unpacks without the registry.\<close>

definition packsWell :: "'l anyLib_scheme \<Rightarrow> AuctionI \<Rightarrow> bool" where
  "packsWell L a \<longleftrightarrow> (\<exists>p. NewAnyWithValue L a = Some p \<and> TypeUrl p \<noteq> [] \<and> CachedValue p = Some (CachedAuction a))"

lemma UnpackAuction_PackAuction:
  assumes "packsWell L a"
  shows "\<exists>p. PackAuction L a = Ok p \<and> UnpackAuction L (Some p) = Ok a"
proof -
  obtain p where "NewAnyWithValue L a = Some p" "TypeUrl p \<noteq> []" "CachedValue p = Some (CachedAuction a)"
    using assms unfolding packsWell_def by blast
  then have "PackAuction L a = Ok p" "UnpackAuction L (Some p) = Ok a"
    by (simp_all add: PackAuction_def UnpackAuction_def orExternal_def)
  then show ?thesis by blast
qed

lemma packAll_unpacks:
  "\<forall>a \<in> set as. packsWell L a \<Longrightarrow> \<exists>ps. packAll L as = Ok ps \<and> UnpackAuctions L ps = Ok as"
proof (induction as)
  case (Cons a as)
  obtain p where p: "PackAuction L a = Ok p" "UnpackAuction L (Some p) = Ok a"
    using UnpackAuction_PackAuction [of L a] Cons.prems by auto
  obtain ps where "packAll L as = Ok ps" "UnpackAuctions L ps = Ok as" using Cons by auto
  then show ?case using p by simp
qed simp

lemma packed_export:
  assumes "\<forall>a \<in> set (GetAuctions s). packsWell L a"
  shows "\<exists>pg. PackedExportGenesis L s = Ok pg \<and> UnpackAuctions L (pg_Auctions pg) = Ok (GetAuctions s)
    \<and> withAuctions (GetAuctions s) pg = ExportGenesis s"
proof -
  obtain ps where "packAll L (GetAuctions s) = Ok ps" "UnpackAuctions L ps = Ok (GetAuctions s)"
    using packAll_unpacks [OF assms] by blast
  then show ?thesis by (simp add: PackedExportGenesis_def ExportGenesis_def withAuctions_def)
qed

text \<open>Export and import over packed auctions is export and import over plain ones.\<close>

lemma packed_roundtrip:
  assumes "\<forall>a \<in> set (GetAuctions s). packsWell L a"
  shows "\<exists>pg. PackedExportGenesis L s = Ok pg \<and> PackedInitGenesis L k pg = InitGenesis k (ExportGenesis s)"
  using packed_export [OF assms] packed_import_refines by metis

end
