(* ===== verification/Simulator.thy ===== *)
theory Simulator
  imports Genesis Keys "HOL-Library.Stream"
begin

text \<open>
  The module's part of the application's simulation (\<^verbatim>\<open>simulation/operations.go\<close>,
  \<^verbatim>\<open>simulation/genesis.go\<close>, \<^verbatim>\<open>simulation/params.go\<close>, \<^verbatim>\<open>simulation/decoder.go\<close>): operations that
  draw a random message for the state at hand, a random genesis state, random parameter changes and
  the printing of two store entries.

  The random source \<open>*rand.Rand\<close> is the stream of its draws; \<open>Intn\<close>, \<open>Int\<close> and \<open>Shuffle\<close> are those
  of Go's library. What the operations call in the SDK (the simulation's draws, the account keeper,
  the minting of coins) is a parameter, the record \<open>simenv\<close> beside the keeper; an operation
  ends with the message it hands to \<open>GenAndDeliverTxWithRandFees\<close>, or with the reason it has none.
\<close>

section \<open>The environment\<close>

type_synonym rand = "nat stream"

record 'b simenv =
  DefaultBondDenom :: denom
  mintModuleName :: string
  NewDecWithPrec :: "int \<Rightarrow> int \<Rightarrow> dec"
  CoinsAddCoin :: "coins \<Rightarrow> coin \<Rightarrow> coins option"
  SpendableCoins :: "'b \<Rightarrow> accAddress \<Rightarrow> coins"
  SafeSub :: "coins \<Rightarrow> coins \<Rightarrow> coins \<times> bool"
  MintCoins :: "'b \<Rightarrow> string \<Rightarrow> coins \<Rightarrow> error option \<times> 'b"
  SendCoinsFromModuleToAccount :: "'b \<Rightarrow> string \<Rightarrow> accAddress \<Rightarrow> coins \<Rightarrow> error option \<times> 'b"
  GetAccount :: "accAddress \<Rightarrow> accAddress option"
  RandomAcc :: "rand \<Rightarrow> accAddress list \<Rightarrow> (accAddress \<times> rand) option"
  RandIntBetween :: "rand \<Rightarrow> int \<Rightarrow> int \<Rightarrow> int \<times> rand"

text \<open>A computation of the simulation has the random source beside the state. A message of the
  module's keeper runs on the state alone.\<close>

type_synonym ('b, 'a) simcomp = "('b state \<times> rand, error, 'a) comp"

definition keeperM :: "('b, 'a) kcomp \<Rightarrow> ('b, 'a) simcomp" where
  "keeperM m = (\<lambda>(s, r). let (x, t) = m s in (x, (t, r)))"

definition stateM :: "('b state \<Rightarrow> 'a) \<Rightarrow> ('b, 'a) simcomp" where
  "stateM f = getsM (\<lambda>(s, r). f s)"

definition drawM :: "(rand \<Rightarrow> 'a \<times> rand) \<Rightarrow> ('b, 'a) simcomp" where
  "drawM d = (\<lambda>(s, r). let (x, r') = d r in (Ok x, (s, r')))"

text \<open>\<open>if err := m; err != nil \{ return h \}\<close>: the writes of the failed call stay.\<close>

definition onErrorM :: "('s, 'e, unit) comp \<Rightarrow> ('s, 'e, 'a) comp \<Rightarrow> ('s, 'e, 'a) comp \<Rightarrow> ('s, 'e, 'a) comp" where
  "onErrorM m h cont = (\<lambda>s. case m s of
      (Ok _, t) \<Rightarrow> cont t
    | (Err e, t) \<Rightarrow> h t
    | (Panic, t) \<Rightarrow> (Panic, t))"

section \<open>Go's random source\<close>

definition rand_Int :: "rand \<Rightarrow> nat \<times> rand" where
  "rand_Int r = (shd r, stl r)"

text \<open>\<open>Intn(n)\<close> panics unless \<open>n\<close> is positive.\<close>

definition rand_Intn :: "int \<Rightarrow> ('b, nat) simcomp" where
  "rand_Intn n = (if n \<le> 0 then panicM else drawM (\<lambda>r. (shd r mod nat n, stl r)))"

text \<open>\<open>Shuffle\<close>: from the last index down, each element is swapped with one at or before it.\<close>

definition swapAt :: "nat \<Rightarrow> nat \<Rightarrow> 'x list \<Rightarrow> 'x list" where
  "swapAt i j xs = xs[i := xs ! j, j := xs ! i]"

fun shuffleFrom :: "nat \<Rightarrow> 'x list \<Rightarrow> rand \<Rightarrow> 'x list \<times> rand" where
  "shuffleFrom 0 xs r = (xs, r)"
| "shuffleFrom (Suc i) xs r = shuffleFrom i (swapAt (Suc i) (shd r mod (Suc i + 1)) xs) (stl r)"

definition rand_Shuffle :: "'x list \<Rightarrow> rand \<Rightarrow> 'x list \<times> rand" where
  "rand_Shuffle xs r = shuffleFrom (length xs - 1) xs r"

section \<open>Calendar\<close>

text \<open>\<open>t.AddDate(0, n, 0)\<close>: the same day and time of day, \<open>n\<close> months later; a day the month does not
  have runs over into the next. Months are counted from March of the year 0, days from 1970-01-01.\<close>

definition daysBefore :: "int \<Rightarrow> int" where
  "daysBefore m =
     (let y = m div 12 in 365 * y + y div 4 - y div 100 + y div 400 + (153 * (m mod 12) + 2) div 5 - 719468)"

definition monthOf :: "int \<Rightarrow> int" where
  "monthOf day =
     (let z = day + 719468; doe = z mod 146097;
          yoe = (doe - doe div 1460 + doe div 36524 - doe div 146096) div 365;
          doy = doe - (365 * yoe + yoe div 4 - yoe div 100)
      in 12 * (yoe + 400 * (z div 146097)) + (5 * doy + 2) div 153)"

definition dayNanos :: int where
  "dayNanos = 24 * 60 * 60 * 10 ^ 9"

definition addMonths :: "time \<Rightarrow> int \<Rightarrow> time" where
  "addMonths t n =
     (let m = monthOf (t div dayNanos) in t + (daysBefore (m + n) - daysBefore m) * dayNanos)"

section \<open>Coins for the accounts\<close>

definition testCoinDenoms :: "denom list" where
  "testCoinDenoms = [''denoma'', ''denomb'', ''denomc'', ''denomd'']"

text \<open>\<open>sdk.NewInt64Coin\<close> is \<open>sdk.NewCoin\<close> of the 64-bit number.\<close>

definition fundBalances :: "('b, 'z) keeper_scheme \<Rightarrow> 'b simenv \<Rightarrow> accAddress \<Rightarrow> denom list \<Rightarrow> ('b, coins) simcomp" where
  "fundBalances k e acc denoms =
     bindM (liftR (foldR (\<lambda>d mintCoins.
       bindR (orPanic (NewCoin k d 100000000000000000)) (\<lambda>c. orPanic (CoinsAddCoin e mintCoins c))) denoms []))
       (\<lambda>mintCoins.
     bindM (keeperM (bankM (\<lambda>b. MintCoins e b (mintModuleName e) mintCoins))) (\<lambda>_.
     bindM (keeperM (bankM (\<lambda>b. SendCoinsFromModuleToAccount e b (mintModuleName e) acc mintCoins))) (\<lambda>_.
     returnM mintCoins)))"

definition shuffleSimAccounts :: "accAddress list \<Rightarrow> rand \<Rightarrow> accAddress list \<times> rand" where
  "shuffleSimAccounts accs r = rand_Shuffle accs r"

section \<open>Operations\<close>

datatype sim_outcome =
    NoOpMsg (reason: string)
  | Deliver (simAccount: accAddress) (delivered: Msg) (coinsSpent: coins)

definition randomAccM :: "'b simenv \<Rightarrow> accAddress list \<Rightarrow> ('b, accAddress) simcomp" where
  "randomAccM e accs = (\<lambda>(s, r). case RandomAcc e r accs of
      None \<Rightarrow> (Panic, (s, r))
    | Some (a, r') \<Rightarrow> (Ok a, (s, r')))"

abbreviation betweenM :: "'b simenv \<Rightarrow> int \<Rightarrow> int \<Rightarrow> ('b, int) simcomp" where
  "betweenM e m n \<equiv> drawM (\<lambda>r. RandIntBetween e r m n)"

definition coinsOf :: "'b simenv \<Rightarrow> accAddress \<Rightarrow> 'b state \<Rightarrow> coins" where
  "coinsOf e a s = SpendableCoins e (bank s) a"

definition SimulateMsgCreateFixedPriceAuction ::
    "('b, 'z) keeper_scheme \<Rightarrow> 'b simenv \<Rightarrow> accAddress list \<Rightarrow> ('b, sim_outcome) simcomp" where
  "SimulateMsgCreateFixedPriceAuction k e accs =
     bindM (randomAccM e accs) (\<lambda>simAccount.
     bindM (liftR (orPanic (GetAccount e simAccount))) (\<lambda>auctioneer.
     bindM (stateM (coinsOf e auctioneer)) (\<lambda>spendable.
     bindM (stateM GetParams) (\<lambda>p.
     if snd (SafeSub e spendable (AuctionCreationFee p))
     then returnM (NoOpMsg ''insufficient balance for auction creation fee'') else
     bindM (betweenM e 1 10) (\<lambda>n. let startPrice = NewDecWithPrec e n 1 in
     bindM (rand_Intn (int (length testCoinDenoms))) (\<lambda>i.
     bindM (betweenM e 10000000000 1000000000000) (\<lambda>amt.
     bindM (liftR (orPanic (NewCoin k (testCoinDenoms ! i) amt))) (\<lambda>sellingCoin.
     let payingCoinDenom = DefaultBondDenom e; vestingSchedules = [] in
     bindM (stateM BlockTime) (\<lambda>now.
     bindM (betweenM e 0 2) (\<lambda>days. let startTime = addDays now days in
     bindM (betweenM e 1 12) (\<lambda>months. let endTime = addMonths startTime months in
     bindM (fundBalances k e auctioneer testCoinDenoms) (\<lambda>_.
     bindM (stateM (coinsOf e auctioneer)) (\<lambda>funded.
     bindM (liftR (orPanic (NewCoins k [sellingCoin]))) (\<lambda>cs.
     if snd (SafeSub e funded cs)
     then returnM (NoOpMsg ''insufficient balance to reserve selling coin'') else
     returnM (Deliver simAccount (CreateFixedPriceAuctionMsg
       (NewMsgCreateFixedPriceAuction (AccAddressString k auctioneer) startPrice sellingCoin payingCoinDenom
         vestingSchedules startTime endTime)) spendable)))))))))))))))"

definition SimulateMsgCreateBatchAuction ::
    "('b, 'z) keeper_scheme \<Rightarrow> 'b simenv \<Rightarrow> accAddress list \<Rightarrow> ('b, sim_outcome) simcomp" where
  "SimulateMsgCreateBatchAuction k e accs =
     bindM (randomAccM e accs) (\<lambda>simAccount.
     bindM (liftR (orPanic (GetAccount e simAccount))) (\<lambda>auctioneer.
     bindM (stateM (coinsOf e auctioneer)) (\<lambda>spendable.
     bindM (stateM GetParams) (\<lambda>p.
     if snd (SafeSub e spendable (AuctionCreationFee p))
     then returnM (NoOpMsg ''insufficient balance for auction creation fee'') else
     bindM (betweenM e 1 10) (\<lambda>n. let startPrice = NewDecWithPrec e n 1 in
     bindM (betweenM e 1 10) (\<lambda>n. let minBidPrice = NewDecWithPrec e n 2 in
     bindM (rand_Intn (int (length testCoinDenoms))) (\<lambda>i.
     bindM (betweenM e 100000000000 100000000000000) (\<lambda>amt.
     bindM (liftR (orPanic (NewCoin k (testCoinDenoms ! i) amt))) (\<lambda>sellingCoin.
     let payingCoinDenom = DefaultBondDenom e; vestingSchedules = [] in
     bindM (betweenM e 1 5) (\<lambda>rounds. let maxExtendedRound = word_of_int rounds in
     bindM (betweenM e 1 3) (\<lambda>n. let extendedRoundRate = NewDecWithPrec e n 1 in
     bindM (stateM BlockTime) (\<lambda>now.
     bindM (betweenM e 0 2) (\<lambda>days. let startTime = addDays now days in
     bindM (betweenM e 1 12) (\<lambda>months. let endTime = addMonths startTime months in
     bindM (fundBalances k e auctioneer testCoinDenoms) (\<lambda>_.
     bindM (stateM (coinsOf e auctioneer)) (\<lambda>funded.
     bindM (liftR (orPanic (NewCoins k [sellingCoin]))) (\<lambda>cs.
     if snd (SafeSub e funded cs)
     then returnM (NoOpMsg ''insufficient balance to reserve selling coin'') else
     returnM (Deliver simAccount (CreateBatchAuctionMsg
       (NewMsgCreateBatchAuction (AccAddressString k auctioneer) startPrice minBidPrice sellingCoin payingCoinDenom
         vestingSchedules maxExtendedRound extendedRoundRate startTime endTime)) spendable))))))))))))))))))"

text \<open>The loop over the accounts has no break: the last account of the auctioneer is taken, and an
  account without address when there is none.\<close>

definition auctioneerAccount :: "'a sdk_scheme \<Rightarrow> AuctionI \<Rightarrow> accAddress list \<Rightarrow> accAddress res" where
  "auctioneerAccount S auction accs =
     foldR (\<lambda>acc found. bindR (orPanic (GetAuctioneer S auction)) (\<lambda>a. Ok (if acc = a then acc else found))) accs []"

definition SimulateMsgCancelAuction ::
    "('b, 'z) keeper_scheme \<Rightarrow> 'b simenv \<Rightarrow> accAddress list \<Rightarrow> ('b, sim_outcome) simcomp" where
  "SimulateMsgCancelAuction k e accs =
     bindM (stateM GetAuctions) (\<lambda>auctions.
     bindM (drawM (rand_Shuffle auctions)) (\<lambda>shuffled.
     case find (\<lambda>a. GetStatus a = AuctionStatusStandBy) shuffled of
       None \<Rightarrow> returnM (NoOpMsg ''no auction to cancel'')
     | Some auction \<Rightarrow>
     bindM (drawM (shuffleSimAccounts accs)) (\<lambda>accs'.
     bindM (liftR (auctioneerAccount k auction accs')) (\<lambda>simAccount.
     bindM (liftR (orPanic (GetAccount e simAccount))) (\<lambda>account.
     bindM (stateM (coinsOf e account)) (\<lambda>spendable.
     returnM (Deliver simAccount (CancelAuctionMsg
       (NewMsgCancelAuction (AccAddressString k account) (GetId auction))) spendable)))))))"

text \<open>The bid of the two auction types: its type, price and coin. An auction of no type would leave
  the bid without numbers, and the conversion of its coin dereferences nil.\<close>

definition randomBid :: "('b, 'z) keeper_scheme \<Rightarrow> 'b simenv \<Rightarrow> AuctionI \<Rightarrow> ('b, BidType \<times> dec \<times> coin) simcomp" where
  "randomBid k e auction =
     (case GetType auction of
        AuctionTypeFixedPrice \<Rightarrow>
          bindM (drawM rand_Int) (\<lambda>n.
          bindM (betweenM e 100000 1000000000) (\<lambda>amt.
          bindM (liftR (orPanic (NewCoin k
            (if n mod 2 = 0 then GetPayingCoinDenom auction else Denom (GetSellingCoin auction)) amt))) (\<lambda>c.
          returnM (BidTypeFixedPrice, GetStartPrice auction, c))))
      | AuctionTypeBatch \<Rightarrow>
          bindM (betweenM e 1 5) (\<lambda>more.
          let price = DecAdd k (GetStartPrice auction) (NewDecWithPrec e more 1) in
          bindM (drawM rand_Int) (\<lambda>n.
          bindM (betweenM e 100000 1000000000) (\<lambda>amt.
          if n mod 2 = 0
          then bindM (liftR (orPanic (NewCoin k (GetPayingCoinDenom auction) amt))) (\<lambda>c.
               returnM (BidTypeBatchWorth, price, c))
          else bindM (liftR (orPanic (NewCoin k (Denom (GetSellingCoin auction)) amt))) (\<lambda>c.
               returnM (BidTypeBatchMany, price, c)))))
      | AuctionTypeNil \<Rightarrow> panicM)"

definition SimulateMsgPlaceBid ::
    "('b, 'z) keeper_scheme \<Rightarrow> 'b simenv \<Rightarrow> accAddress list \<Rightarrow> ('b, sim_outcome) simcomp" where
  "SimulateMsgPlaceBid k e accs =
     bindM (stateM GetAuctions) (\<lambda>auctions.
     if length auctions = 0 then returnM (NoOpMsg ''no auction to place a bid'') else
     bindM (rand_Intn (int (length auctions))) (\<lambda>i. let auction = auctions ! i in
     if GetStatus auction \<noteq> AuctionStatusStarted
     then returnM (NoOpMsg ''auction must be started status'') else
     bindM (randomAccM e accs) (\<lambda>simAccount.
     bindM (liftR (orPanic (GetAccount e simAccount))) (\<lambda>bidder.
     bindM (stateM (coinsOf e bidder)) (\<lambda>spendable.
     let payingCoinDenom = GetPayingCoinDenom auction in
     bindM (fundBalances k e bidder testCoinDenoms) (\<lambda>_.
     bindM (randomBid k e auction) (\<lambda>(bidType, price, c).
     let b = \<lparr> bid_AuctionId = 0, bid_Bidder = [], bid_Id = 0, bid_Type = bidType, bid_Price = price,
               bid_Coin = c, bid_IsMatched = False \<rparr>;
         bidReserveAmt = ConvertToPayingAmount k b payingCoinDenom;
         maxBidAmt = ConvertToSellingAmount k b payingCoinDenom in
     bindM (stateM (\<lambda>s. SpendableAmountOf k (bank s) bidder payingCoinDenom)) (\<lambda>balance.
     if \<not> bidReserveAmt < balance then returnM (NoOpMsg ''insufficient balance to place a bid'') else
     bindM (stateM (GetAllowedBidder (GetId auction) bidder)) (\<lambda>found.
     bindM (case found of
         None \<Rightarrow> returnM maxBidAmt
       | Some allowedBidder \<Rightarrow> bindM (liftR (orPanic (ab_MaxBidAmount allowedBidder))) (\<lambda>limit.
           returnM (maxBidAmt + limit))) (\<lambda>maxBidAmt'.
     onErrorM (keeperM (AddAllowedBidders k (GetId auction) [NewAllowedBidder k bidder (Some maxBidAmt')]))
       (returnM (NoOpMsg ''failed to add allowed bidders''))
       (returnM (Deliver simAccount (PlaceBidMsg
         (NewMsgPlaceBid (GetId auction) (AccAddressString k bidder) bidType price c)) spendable))))))))))))"

text \<open>The weights: a parameter of the application, or the default of \<^verbatim>\<open>app/params/weights.go\<close>.\<close>

definition weightOr :: "(string \<Rightarrow> int option) \<Rightarrow> string \<Rightarrow> int \<Rightarrow> int" where
  "weightOr appParams key defaultWeight = (case appParams key of None \<Rightarrow> defaultWeight | Some w \<Rightarrow> w)"

definition WeightedOperations ::
    "('b, 'z) keeper_scheme \<Rightarrow> 'b simenv \<Rightarrow> (string \<Rightarrow> int option)
     \<Rightarrow> (int \<times> (accAddress list \<Rightarrow> ('b, sim_outcome) simcomp)) list" where
  "WeightedOperations k e appParams =
   [(weightOr appParams ''op_weight_msg_create_fixed_price_auction'' 20, SimulateMsgCreateFixedPriceAuction k e),
    (weightOr appParams ''op_weight_msg_create_batch_auction'' 20, SimulateMsgCreateBatchAuction k e),
    (weightOr appParams ''op_weight_msg_cancel_auction'' 15, SimulateMsgCancelAuction k e),
    (weightOr appParams ''op_weight_msg_place_bid'' 80, SimulateMsgPlaceBid k e)]"

section \<open>Random genesis and parameters\<close>

definition GenAuctionCreationFee :: "('b, 'z) keeper_scheme \<Rightarrow> 'b simenv \<Rightarrow> rand \<Rightarrow> coins res \<times> rand" where
  "GenAuctionCreationFee k e r =
     (let (n, r') = RandIntBetween e r 0 100000000
      in (bindR (orPanic (NewCoin k (DefaultBondDenom e) n)) (\<lambda>c. orPanic (NewCoins k [c])), r'))"

definition GenExtendedPeriod :: "'b simenv \<Rightarrow> rand \<Rightarrow> uint32 \<times> rand" where
  "GenExtendedPeriod e r =
     (let (n, r') = RandIntBetween e r (uint (ExtendedPeriod (DefaultParams (DefaultBondDenom e)))) 10
      in (word_of_int n, r'))"

text \<open>\<open>GetOrGenerate\<close>: the value among the application's parameters, or a drawn one. The result is the
  genesis state before its encoding.\<close>

definition RandomizedGenState ::
    "('b, 'z) keeper_scheme \<Rightarrow> 'b simenv \<Rightarrow> coins option \<Rightarrow> uint32 option \<Rightarrow> rand \<Rightarrow> GenesisState res \<times> rand" where
  "RandomizedGenState k e givenFee givenPeriod r =
     (let (fee, r1) = (case givenFee of None \<Rightarrow> GenAuctionCreationFee k e r | Some cs \<Rightarrow> (Ok cs, r));
          (period, r2) = (case givenPeriod of None \<Rightarrow> GenExtendedPeriod e r1 | Some n \<Rightarrow> (n, r1))
      in (bindR fee (\<lambda>cs. Ok
            \<lparr> gs_Params = \<lparr> AuctionCreationFee = cs, PlaceBidFee = [], ExtendedPeriod = period \<rparr>,
              gs_Auctions = [], gs_AllowedBidderRecords = [], gs_Bids = [], gs_VestingQueues = [] \<rparr>), r2))"

text \<open>A parameter change: the key and the JSON text of the value, where the text of a coin set is the
  library's (\<open>json\<close>, None for an error).\<close>

definition ParamChanges ::
    "('b, 'z) keeper_scheme \<Rightarrow> 'b simenv \<Rightarrow> (coins \<Rightarrow> string option) \<Rightarrow> (string \<times> (rand \<Rightarrow> string res \<times> rand)) list" where
  "ParamChanges k e json =
   [(''AuctionCreationFee'',
      \<lambda>r. let (fee, r') = GenAuctionCreationFee k e r in (bindR fee (\<lambda>cs. orPanic (json cs)), r')),
    (''ExtendedPeriod'', \<lambda>r. let (n, r') = GenExtendedPeriod e r in (Ok (showNat (unat n)), r'))]"

section \<open>Printing store entries\<close>

text \<open>What the decoder makes of two values, before it is printed. The three decoding functions are
  the codec's, None for a value it refuses.\<close>

datatype decodedPair =
    AuctionPair BaseAuction BaseAuction
  | BidPair Bid Bid
  | VestingQueuePair VestingQueue VestingQueue

definition bothR :: "('x \<Rightarrow> 'y option) \<Rightarrow> ('y \<Rightarrow> 'y \<Rightarrow> 'z) \<Rightarrow> 'x \<Rightarrow> 'x \<Rightarrow> 'z res" where
  "bothR dec f u v = bindR (orPanic (dec u)) (\<lambda>a. bindR (orPanic (dec v)) (\<lambda>b. Ok (f a b)))"

definition NewDecodeStore ::
    "(bytes \<Rightarrow> BaseAuction option) \<Rightarrow> (bytes \<Rightarrow> Bid option) \<Rightarrow> (bytes \<Rightarrow> VestingQueue option)
     \<Rightarrow> bytes \<times> bytes \<Rightarrow> bytes \<times> bytes \<Rightarrow> decodedPair res" where
  "NewDecodeStore decAuction decBid decQueue kvA kvB =
     (if fst kvA = [] then Panic
      else if take 1 (fst kvA) = AuctionKeyPrefix then bothR decAuction AuctionPair (snd kvA) (snd kvB)
      else if take 1 (fst kvA) = BidKeyPrefix then bothR decBid BidPair (snd kvA) (snd kvB)
      else if take 1 (fst kvA) = VestingQueueKeyPrefix then bothR decQueue VestingQueuePair (snd kvA) (snd kvB)
      else Panic)"

end
