(* ===== verification/AppModule.thy ===== *)
theory AppModule
  imports Simulator RoundTrip Query
begin

text \<open>
  The module as the application sees it (\<^verbatim>\<open>module.go\<close>) and the construction of its keeper
  (\<^verbatim>\<open>keeper/keeper.go\<close>): genesis as JSON text, the two block calls, the routes and types of its
  messages (\<^verbatim>\<open>types/msgs.go\<close>), its invariants and what it gives to the simulator, the build flag, the keeper and its hooks. The JSON codec is a parameter, the record \<open>jsonCodec\<close>.
  The lemmas show that a module restarted from its exported text is in the state of theory RoundTrip,
  and that the default genesis text is accepted and starts the module.
\<close>

definition StoreKey :: string where "StoreKey = ModuleName"

definition RouterKey :: string where "RouterKey = ModuleName"

definition QuerierRoute :: string where "QuerierRoute = ModuleName"

definition MemStoreKey :: string where "MemStoreKey = ''mem_fundraising''"

section \<open>The keeper\<close>

text \<open>\<open>init\<close>: the flag from the text given at build time; another text stops the program.\<close>

definition initEnableAddAllowedBidder :: "string \<Rightarrow> bool res" where
  "initEnableAddAllowedBidder enableAddAllowedBidder =
     (case ParseBool enableAddAllowedBidder of Ok b \<Rightarrow> Ok b | _ \<Rightarrow> Panic)"

text \<open>A keeper over the given library and keepers has no hooks; there is none without the module
  account.\<close>

definition NewKeeper ::
    "(string \<Rightarrow> accAddress option) \<Rightarrow> ('b, 'z) keeper_scheme \<Rightarrow> ('b, 'z) keeper_scheme res" where
  "NewKeeper GetModuleAddress parts =
     (case GetModuleAddress ModuleName of None \<Rightarrow> Panic | Some _ \<Rightarrow> Ok (parts\<lparr>khooks := None\<rparr>))"

definition SetHooks :: "('b, 'z) keeper_scheme \<Rightarrow> 'b hooks \<Rightarrow> ('b, 'z) keeper_scheme res" where
  "SetHooks k fk = (if khooks k \<noteq> None then Panic else Ok (k\<lparr>khooks := Some fk\<rparr>))"

section \<open>The module\<close>

record jsonCodec =
  UnmarshalJSON :: "string \<Rightarrow> GenesisState option"
  MarshalJSON :: "GenesisState \<Rightarrow> string"

definition AppModuleBasic_Name :: string where
  "AppModuleBasic_Name = ModuleName"

definition AppModuleBasic_DefaultGenesis :: "'j jsonCodec_scheme \<Rightarrow> denom \<Rightarrow> string" where
  "AppModuleBasic_DefaultGenesis cdc bondDenom = MarshalJSON cdc (DefaultGenesisState bondDenom)"

definition AppModuleBasic_ValidateGenesis :: "'j jsonCodec_scheme \<Rightarrow> 'a sdk_scheme \<Rightarrow> string \<Rightarrow> unit res" where
  "AppModuleBasic_ValidateGenesis cdc S bz =
     (case UnmarshalJSON cdc bz of None \<Rightarrow> Err ErrFmt | Some genState \<Rightarrow> GenesisState_Validate S genState)"

text \<open>Neither genesis nor a block changes the validators.\<close>

definition AppModule_InitGenesis ::
    "'j jsonCodec_scheme \<Rightarrow> ('b, 'z) keeper_scheme \<Rightarrow> string \<Rightarrow> ('b, unit list) kcomp" where
  "AppModule_InitGenesis cdc k gs =
     bindM (liftR (orPanic (UnmarshalJSON cdc gs))) (\<lambda>genState.
     bindM (InitGenesis k genState) (\<lambda>_. returnM []))"

definition AppModule_ExportGenesis :: "'j jsonCodec_scheme \<Rightarrow> 'b state \<Rightarrow> string" where
  "AppModule_ExportGenesis cdc s = MarshalJSON cdc (ExportGenesis s)"

definition AppModule_BeginBlock :: "('b, 'z) keeper_scheme \<Rightarrow> ('b, unit) kcomp" where
  "AppModule_BeginBlock k = BeginBlocker k"

definition AppModule_EndBlock :: "('b, unit list) kcomp" where
  "AppModule_EndBlock = returnM []"

definition AppModule_Route :: "('b, 'z) keeper_scheme \<Rightarrow> string \<times> (Msg \<Rightarrow> ('b, event list) kcomp)" where
  "AppModule_Route k = (RouterKey, NewHandler k)"

definition AppModule_QuerierRoute :: string where
  "AppModule_QuerierRoute = QuerierRoute"

definition AppModule_ConsensusVersion :: uint64 where
  "AppModule_ConsensusVersion = 2"

definition AppModule_GenerateGenesisState ::
    "'j jsonCodec_scheme \<Rightarrow> ('b, 'z) keeper_scheme \<Rightarrow> 'b simenv \<Rightarrow> coins option \<Rightarrow> uint32 option \<Rightarrow> rand
     \<Rightarrow> string res \<times> rand" where
  "AppModule_GenerateGenesisState cdc k e givenFee givenPeriod r =
     (let (gs, r') = RandomizedGenState k e givenFee givenPeriod r
      in (bindR gs (\<lambda>genState. Ok (MarshalJSON cdc genState)), r'))"

text \<open>What the module gives to the simulator, to the registry of invariants and to the store decoders.\<close>

definition AppModule_ProposalContents :: "'p list" where
  "AppModule_ProposalContents = []"

definition AppModule_RandomizedParams ::
    "('b, 'z) keeper_scheme \<Rightarrow> 'b simenv \<Rightarrow> (coins \<Rightarrow> string option) \<Rightarrow> (string \<times> (rand \<Rightarrow> string res \<times> rand)) list" where
  "AppModule_RandomizedParams k e json = ParamChanges k e json"

definition AppModule_WeightedOperations ::
    "('b, 'z) keeper_scheme \<Rightarrow> 'b simenv \<Rightarrow> (string \<Rightarrow> int option)
     \<Rightarrow> (int \<times> (accAddress list \<Rightarrow> ('b, sim_outcome) simcomp)) list" where
  "AppModule_WeightedOperations k e appParams = WeightedOperations k e appParams"

definition AppModule_RegisterStoreDecoder ::
    "(bytes \<Rightarrow> BaseAuction option) \<Rightarrow> (bytes \<Rightarrow> Bid option) \<Rightarrow> (bytes \<Rightarrow> VestingQueue option)
     \<Rightarrow> (string \<rightharpoonup> (bytes \<times> bytes \<Rightarrow> bytes \<times> bytes \<Rightarrow> decodedPair res))
     \<Rightarrow> (string \<rightharpoonup> (bytes \<times> bytes \<Rightarrow> bytes \<times> bytes \<Rightarrow> decodedPair res))" where
  "AppModule_RegisterStoreDecoder decAuction decBid decQueue sdr =
     sdr(StoreKey \<mapsto> NewDecodeStore decAuction decBid decQueue)"

text \<open>The registry of invariants holds routes: the module's name, the name of the invariant, the
  invariant.\<close>

type_synonym 'b invariantRoutes = "(string \<times> string \<times> ('b state \<Rightarrow> bool res)) list"

definition RegisterInvariants :: "('b, 'z) keeper_scheme \<Rightarrow> 'b invariantRoutes \<Rightarrow> 'b invariantRoutes" where
  "RegisterInvariants k ir =
     ir @ [(ModuleName, ''selling-pool-reserve-amount'', SellingPoolReserveAmountInvariant k),
           (ModuleName, ''paying-pool-reserve-amount'', PayingPoolReserveAmountInvariant k),
           (ModuleName, ''vesting-pool-reserve-amount'', VestingPoolReserveAmountInvariant k)]"

definition AppModule_RegisterInvariants :: "('b, 'z) keeper_scheme \<Rightarrow> 'b invariantRoutes \<Rightarrow> 'b invariantRoutes" where
  "AppModule_RegisterInvariants k ir = RegisterInvariants k ir"

section \<open>Routes and types of the messages\<close>

text \<open>The route and type under which a transaction carries a message; a message of another module has
  its own.\<close>

fun Msg_Route :: "Msg \<Rightarrow> string option" where
  "Msg_Route (CreateFixedPriceAuctionMsg m) = Some RouterKey"
| "Msg_Route (CreateBatchAuctionMsg m) = Some RouterKey"
| "Msg_Route (CancelAuctionMsg m) = Some RouterKey"
| "Msg_Route (PlaceBidMsg m) = Some RouterKey"
| "Msg_Route (ModifyBidMsg m) = Some RouterKey"
| "Msg_Route (AddAllowedBidderMsg m) = Some RouterKey"
| "Msg_Route OtherMsg = None"

fun Msg_Type :: "Msg \<Rightarrow> string option" where
  "Msg_Type (CreateFixedPriceAuctionMsg m) = Some ''create_fixed_price_auction''"
| "Msg_Type (CreateBatchAuctionMsg m) = Some ''create_batch_auction''"
| "Msg_Type (CancelAuctionMsg m) = Some ''cancel_auction''"
| "Msg_Type (PlaceBidMsg m) = Some ''place_bid''"
| "Msg_Type (ModifyBidMsg m) = Some ''modify_bid''"
| "Msg_Type (AddAllowedBidderMsg m) = Some ''add_allowed_bidder''"
| "Msg_Type OtherMsg = None"

definition mc_GetAuctioneer :: "'a sdk_scheme \<Rightarrow> MsgCancelAuction \<Rightarrow> accAddress res" where
  "mc_GetAuctioneer S msg = orPanic (AccAddressFromBech32 S (mc_Auctioneer msg))"

section \<open>Genesis as text\<close>

text \<open>A restart from the exported text is a restart from the exported state, when the codec reads back
  what it wrote.\<close>

lemma restart_from_text:
  assumes "UnmarshalJSON cdc (AppModule_ExportGenesis cdc s) = Some (ExportGenesis s)"
  shows "AppModule_InitGenesis cdc k (AppModule_ExportGenesis cdc s) t
    = bindM (InitGenesis k (ExportGenesis s)) (\<lambda>_. returnM []) t"
  using assms by (simp add: AppModule_InitGenesis_def monad_simps)

lemma default_genesis_accepted:
  assumes "UnmarshalJSON cdc (AppModuleBasic_DefaultGenesis cdc d) = Some (DefaultGenesisState d)"
    and "CoinsValidate S [Coin d 100000000]"
  shows "AppModuleBasic_ValidateGenesis cdc S (AppModuleBasic_DefaultGenesis cdc d) = Ok ()"
  using assms
  by (simp add: AppModuleBasic_ValidateGenesis_def DefaultGenesisState_def GenesisState_Validate_def Params_Validate_def
      DefaultParams_def validateAuctionCreationFee_def validateExtendedPeriod_def check_def validateAll_def)

text \<open>The hooks of a keeper are set once, and the keeper made by the application has those it was
  given.\<close>

lemma hooks_set_once:
  assumes "NewKeeper addr parts = Ok k" and "SetHooks k h = Ok k'"
  shows "khooks k' = Some h \<and> SetHooks k' h' = Panic"
  using assms by (auto simp: NewKeeper_def SetHooks_def split: option.splits if_splits)

section \<open>Registered invariants and signers\<close>

text \<open>None of the registered invariants is ever broken in a reachable state, so the crisis module, which
  asserts them, never halts the chain on their account.\<close>

lemma registered_invariants_hold:
  assumes "fundraising k pool" and "reachable k s" and "r \<in> set (AppModule_RegisterInvariants k [])"
  shows "snd (snd r) s = Ok False"
proof -
  have "AllInvariants k s = Ok False"
    by (rule fundraising.AllInvariants_hold [OF assms(1) fundraising.reachable_Inv [OF assms(1,2)]])
  then show ?thesis using assms(3)
    by (auto simp: AppModule_RegisterInvariants_def RegisterInvariants_def AllInvariants_def bindR_Ok_iff split: if_splits)
qed

text \<open>A valid cancellation is signed by the auctioneer it names and by nobody else.\<close>

lemma cancel_signed_by_auctioneer:
  assumes "Msg_ValidateBasic S (CancelAuctionMsg m) = Ok ()"
  shows "\<exists>x. mc_GetAuctioneer S m = Ok x \<and> mc_GetSigners S m = Some [x]"
  using assms by (auto simp: mc_GetAuctioneer_def mc_GetSigners_def mc_ValidateBasic_def split: option.splits)

end
