(* ===== verification/Application.thy ===== *)
theory Application
  imports AppModule
begin

text \<open>
  The application (\<^verbatim>\<open>src/app/app.go\<close>): which modules it is made of, the orders in which their block and
  genesis calls run, the module accounts, stores and parameter spaces it sets up, and the calls of
  the consensus engine that it hands to the module manager.

  The modules of the SDK are named by the datatype \<open>sdkModule\<close>; their names and what they do are
  parameters, the record \<open>otherModules\<close>. The store of every other module is part of the value \<open>bank\<close> of
  the state, so what another module may do is the relation \<open>otherwise\<close>: it changes that value, without
  taking coins from a reserve, and the parameters, to valid ones (a proposal to change parameters).
  The module manager and the router of the SDK are parameters as well, the record \<open>manager\<close>, with what
  their documentation says as the locale \<open>manager_laws\<close>. The lemmas show that the application is a chain
  in the sense of theory Chain, whatever the other modules do.
\<close>

section \<open>Modules and their order\<close>

datatype sdkModule =
    GenutilModule | AuthModule | VestingModule | BankModule | CapabilityModule | CrisisModule | GovModule
  | MintModule | SlashingModule | DistrModule | StakingModule | UpgradeModule | EvidenceModule
  | FeegrantModule | ParamsModule | AuthzModule

datatype appModule = Sdk sdkModule | FundraisingModule

definition ModuleBasics :: "appModule list" where
  "ModuleBasics = map Sdk
     [AuthModule, GenutilModule, BankModule, CapabilityModule, StakingModule, MintModule, DistrModule,
      GovModule, ParamsModule, CrisisModule, SlashingModule, FeegrantModule, UpgradeModule,
      EvidenceModule, AuthzModule, VestingModule] @ [FundraisingModule]"

definition managerModules :: "appModule list" where
  "managerModules = map Sdk
     [GenutilModule, AuthModule, VestingModule, BankModule, CapabilityModule, CrisisModule, GovModule,
      MintModule, SlashingModule, DistrModule, StakingModule, UpgradeModule, EvidenceModule,
      FeegrantModule, ParamsModule] @ [FundraisingModule, Sdk AuthzModule]"

definition orderBeginBlockers :: "appModule list" where
  "orderBeginBlockers = map Sdk
     [UpgradeModule, CapabilityModule, CrisisModule, GovModule, StakingModule, AuthModule, BankModule,
      DistrModule, SlashingModule, MintModule, GenutilModule, EvidenceModule, AuthzModule,
      FeegrantModule, ParamsModule, VestingModule] @ [FundraisingModule]"

definition orderEndBlockers :: "appModule list" where
  "orderEndBlockers = map Sdk
     [CrisisModule, GovModule, StakingModule, FeegrantModule, AuthzModule, CapabilityModule, AuthModule,
      BankModule, DistrModule, SlashingModule, MintModule, GenutilModule, EvidenceModule, ParamsModule,
      UpgradeModule, VestingModule] @ [FundraisingModule]"

definition orderInitGenesis :: "appModule list" where
  "orderInitGenesis = map Sdk
     [CapabilityModule, AuthModule, BankModule, DistrModule, StakingModule, SlashingModule, GovModule,
      MintModule, CrisisModule, GenutilModule, EvidenceModule, AuthzModule, FeegrantModule,
      ParamsModule, UpgradeModule, VestingModule] @ [FundraisingModule]"

definition simulationModules :: "appModule list" where
  "simulationModules = map Sdk
     [AuthModule, BankModule, CapabilityModule, FeegrantModule, GovModule, MintModule, StakingModule,
      DistrModule, SlashingModule, ParamsModule, EvidenceModule, AuthzModule] @ [FundraisingModule]"

text \<open>The modules with a store, and those with a space for parameters.\<close>

definition storeModules :: "appModule list" where
  "storeModules = map Sdk
     [AuthModule, BankModule, StakingModule, MintModule, DistrModule, SlashingModule, GovModule,
      ParamsModule, UpgradeModule, FeegrantModule, EvidenceModule, CapabilityModule, AuthzModule] @ [FundraisingModule]"

definition initParamsKeeper :: "appModule list" where
  "initParamsKeeper = map Sdk
     [AuthModule, BankModule, StakingModule, MintModule, DistrModule, SlashingModule, GovModule, CrisisModule]
     @ [FundraisingModule]"

text \<open>Module accounts and their permissions.\<close>

datatype permission = Minter | Burner | Staking

datatype accountName = FeeCollectorName | AccountOf appModule | BondedPoolName | NotBondedPoolName

definition maccPerms :: "(accountName \<times> permission list) list" where
  "maccPerms =
   [(FeeCollectorName, []),
    (AccountOf (Sdk DistrModule), []),
    (AccountOf (Sdk MintModule), [Minter]),
    (BondedPoolName, [Burner, Staking]),
    (NotBondedPoolName, [Burner, Staking]),
    (AccountOf (Sdk GovModule), [Burner]),
    (AccountOf FundraisingModule, [])]"

section \<open>The other modules and the manager\<close>

text \<open>What another module does to the state, None for a panic. Its genesis is a text.\<close>

record 'b otherModules =
  om_Name :: "sdkModule \<Rightarrow> string"
  om_StoreKey :: "sdkModule \<Rightarrow> string"
  om_AccountName :: "accountName \<Rightarrow> string"
  om_Route :: "sdkModule \<Rightarrow> (string \<times> (Msg \<Rightarrow> ('b, event list) kcomp)) option"
  om_BeginBlock :: "string \<Rightarrow> 'b state \<Rightarrow> 'b state option"
  om_EndBlock :: "string \<Rightarrow> 'b state \<Rightarrow> 'b state option"
  om_InitGenesis :: "string \<Rightarrow> string \<Rightarrow> 'b state \<Rightarrow> 'b state option"
  om_SetModuleVersionMap :: "'b \<Rightarrow> 'b"

record 'b manager =
  mm_BeginBlock :: "string list \<Rightarrow> (string \<Rightarrow> ('b, unit) kcomp) \<Rightarrow> ('b, unit) kcomp"
  mm_EndBlock :: "string list \<Rightarrow> (string \<Rightarrow> ('b, unit list) kcomp) \<Rightarrow> ('b, unit list) kcomp"
  mm_InitGenesis :: "string list \<Rightarrow> (string \<Rightarrow> string \<Rightarrow> ('b, unit list) kcomp) \<Rightarrow> (string \<rightharpoonup> string) \<Rightarrow> ('b, unit list) kcomp"
  mm_Router :: "(string \<times> (Msg \<Rightarrow> ('b, event list) kcomp)) list \<Rightarrow> string \<Rightarrow> (Msg \<Rightarrow> ('b, event list) kcomp) option"
  UnmarshalGenesis :: "string \<Rightarrow> (string \<rightharpoonup> string) option"

definition moduleName :: "'b otherModules \<Rightarrow> appModule \<Rightarrow> string" where
  "moduleName R m = (case m of Sdk x \<Rightarrow> om_Name R x | FundraisingModule \<Rightarrow> ModuleName)"

definition storeKeyOf :: "'b otherModules \<Rightarrow> appModule \<Rightarrow> string" where
  "storeKeyOf R m = (case m of Sdk x \<Rightarrow> om_StoreKey R x | FundraisingModule \<Rightarrow> StoreKey)"

definition accountNameOf :: "'b otherModules \<Rightarrow> accountName \<Rightarrow> string" where
  "accountNameOf R n = (case n of AccountOf m \<Rightarrow> moduleName R m | _ \<Rightarrow> om_AccountName R n)"

definition otherM :: "('b state \<Rightarrow> 'b state option) \<Rightarrow> ('b, unit) kcomp" where
  "otherM f = bindM (getsM f) (\<lambda>r. bindM (liftR (orPanic r)) (\<lambda>t. modifyM (\<lambda>_. t)))"

section \<open>The application\<close>

text \<open>The keys of the substores are identified by their names.\<close>

record ('b, 'z) App =
  app_keys :: "string list"
  app_subspaces :: "string list"
  FundraisingKeeper :: "('b, 'z) keeper_scheme"

definition ModuleAccountAddrs ::
    "'b otherModules \<Rightarrow> (string \<Rightarrow> accAddress) \<Rightarrow> (accAddress \<Rightarrow> string) \<Rightarrow> (string \<rightharpoonup> bool)" where
  "ModuleAccountAddrs R NewModuleAddress AddrString =
     fold (\<lambda>acc modAccAddrs. modAccAddrs(AddrString (NewModuleAddress (accountNameOf R acc)) \<mapsto> True))
       (map fst maccPerms) Map.empty"

definition GetKey :: "('b, 'z) App \<Rightarrow> string \<Rightarrow> string option" where
  "GetKey app storeKey = (if storeKey \<in> set (app_keys app) then Some storeKey else None)"

definition GetSubspace :: "('b, 'z) App \<Rightarrow> string \<Rightarrow> string option" where
  "GetSubspace app name = (if name \<in> set (app_subspaces app) then Some name else None)"

text \<open>The construction as far as it concerns the module: the account keeper, made of the account names,
  gives the module's address or makes the module's keeper panic.\<close>

definition App_New ::
    "'b otherModules \<Rightarrow> (string list \<Rightarrow> string \<Rightarrow> accAddress option) \<Rightarrow> ('b, 'z) keeper_scheme \<Rightarrow> ('b, 'z) App res" where
  "App_New R accountKeeper parts =
     bindR (NewKeeper (accountKeeper (map (accountNameOf R) (map fst maccPerms))) parts) (\<lambda>k.
     Ok \<lparr> app_keys = map (storeKeyOf R) storeModules,
          app_subspaces = map (moduleName R) initParamsKeeper,
          FundraisingKeeper = k \<rparr>)"

definition BeginBlockOf :: "('b, 'z) keeper_scheme \<Rightarrow> 'b otherModules \<Rightarrow> string \<Rightarrow> ('b, unit) kcomp" where
  "BeginBlockOf k R name = (if name = ModuleName then AppModule_BeginBlock k else otherM (om_BeginBlock R name))"

definition EndBlockOf :: "'b otherModules \<Rightarrow> string \<Rightarrow> ('b, unit list) kcomp" where
  "EndBlockOf R name =
     (if name = ModuleName then AppModule_EndBlock else bindM (otherM (om_EndBlock R name)) (\<lambda>_. returnM []))"

definition InitGenesisOf ::
    "'j jsonCodec_scheme \<Rightarrow> ('b, 'z) keeper_scheme \<Rightarrow> 'b otherModules \<Rightarrow> string \<Rightarrow> string \<Rightarrow> ('b, unit list) kcomp" where
  "InitGenesisOf cdc k R name gs =
     (if name = ModuleName then AppModule_InitGenesis cdc k gs
      else bindM (otherM (om_InitGenesis R name gs)) (\<lambda>_. returnM []))"

definition App_BeginBlocker :: "'b manager \<Rightarrow> 'b otherModules \<Rightarrow> ('b, 'z) App \<Rightarrow> ('b, unit) kcomp" where
  "App_BeginBlocker M R app =
     mm_BeginBlock M (map (moduleName R) orderBeginBlockers) (BeginBlockOf (FundraisingKeeper app) R)"

definition App_EndBlocker :: "'b manager \<Rightarrow> 'b otherModules \<Rightarrow> ('b, unit list) kcomp" where
  "App_EndBlocker M R = mm_EndBlock M (map (moduleName R) orderEndBlockers) (EndBlockOf R)"

definition App_InitChainer ::
    "'b manager \<Rightarrow> 'b otherModules \<Rightarrow> 'j jsonCodec_scheme \<Rightarrow> ('b, 'z) App \<Rightarrow> string \<Rightarrow> ('b, unit list) kcomp" where
  "App_InitChainer M R cdc app appStateBytes =
     bindM (liftR (orPanic (UnmarshalGenesis M appStateBytes))) (\<lambda>genesisState.
     bindM (modifyM (\<lambda>s. s\<lparr>bank := om_SetModuleVersionMap R (bank s)\<rparr>)) (\<lambda>_.
     mm_InitGenesis M (map (moduleName R) orderInitGenesis) (InitGenesisOf cdc (FundraisingKeeper app) R) genesisState))"

text \<open>The routes of the modules, as the manager registers them: a module without route is left out.\<close>

definition App_Routes :: "'b otherModules \<Rightarrow> ('b, 'z) App \<Rightarrow> (string \<times> (Msg \<Rightarrow> ('b, event list) kcomp)) list" where
  "App_Routes R app = List.map_filter (\<lambda>m. case m of
       Sdk x \<Rightarrow> om_Route R x | FundraisingModule \<Rightarrow> Some (AppModule_Route (FundraisingKeeper app))) managerModules"

section \<open>Laws\<close>

text \<open>What the documentation of the module manager and of the router promises.\<close>

locale manager_laws =
  fixes M :: "'b manager"
  assumes begin_in_order: "mm_BeginBlock M order f = foreachM f order"
    and end_in_order: "mm_EndBlock M order g s = (Ok ups, t) \<Longrightarrow>
      foreachM (\<lambda>n. bindM (g n) (\<lambda>_. returnM ())) order s = (Ok (), t)"
    and init_in_order: "mm_InitGenesis M order h gen s = (Ok ups, t) \<Longrightarrow>
      foreachM (\<lambda>n. case gen n of None \<Rightarrow> returnM () | Some gs \<Rightarrow> bindM (h n gs) (\<lambda>_. returnM ())) order s = (Ok (), t)"
    and routed: "mm_Router M rs r = Some act \<Longrightarrow> (r, act) \<in> set rs"

definition otherwise :: "('b, 'z) keeper_scheme \<Rightarrow> 'b state \<Rightarrow> 'b state \<Rightarrow> bool" where
  "otherwise k s t \<longleftrightarrow> t = s\<lparr>bank := bank t, params := params t\<rparr>
     \<and> (\<forall>y \<in> reserveSet k. \<forall>d. spendable k y d s \<le> spendable k y d t)
     \<and> (params t = params s \<or> ParamSetPairs_validate k (params t) = Ok ())"

locale other_laws =
  fixes k :: "('b, 'z) keeper_scheme" and R :: "'b otherModules"
  assumes other_names: "om_Name R x \<noteq> ModuleName"
    and other_routes: "om_Route R x = Some (r, act) \<Longrightarrow> r \<noteq> RouterKey"
    and others: "om_BeginBlock R n s = Some t \<Longrightarrow> otherwise k s t"
      "om_EndBlock R n s = Some t \<Longrightarrow> otherwise k s t"
      "om_InitGenesis R n gs s = Some t \<Longrightarrow> otherwise k s t"
      "otherwise k s (s\<lparr>bank := om_SetModuleVersionMap R (bank s)\<rparr>)"

locale application = fundraising k pool + manager_laws M + other_laws k R
  for k :: "('b, 'z) keeper_scheme" and pool and M :: "'b manager" and R

lemma otherwise_refl: "otherwise k s s"
  by (simp add: otherwise_def)

lemma otherwise_trans: "otherwise k s t \<Longrightarrow> otherwise k t u \<Longrightarrow> otherwise k s u"
proof -
  assume st: "otherwise k s t" and tu: "otherwise k t u"
  have "u = s\<lparr>bank := bank u, params := params u\<rparr>"
  proof -
    obtain b p where t: "t = s\<lparr>bank := b, params := p\<rparr>" using st unfolding otherwise_def by blast
    obtain b' p' where u: "u = t\<lparr>bank := b', params := p'\<rparr>" using tu unfolding otherwise_def by blast
    show ?thesis by (simp add: u t)
  qed
  moreover have "spendable k y d s \<le> spendable k y d u" if "y \<in> reserveSet k" for y d
    using st tu that unfolding otherwise_def by (meson order_trans)
  moreover have "params u = params s \<or> ParamSetPairs_validate k (params u) = Ok ()"
    using st tu unfolding otherwise_def by metis
  ultimately show ?thesis by (simp add: otherwise_def)
qed

lemma otherM_Ok_iff: "otherM f s = (Ok u, t) \<longleftrightarrow> f s = Some t"
  by (auto simp: otherM_def Ok_iffs)

text \<open>What another module does are steps of the chain: a change elsewhere, then one of the parameters.\<close>

lemma otherwise_steps:
  assumes "otherwise k s t"
  shows "(chainStep k)\<^sup>*\<^sup>* s t"
proof -
  let ?s = "s\<lparr>bank := bank t\<rparr>"
  have t: "t = ?s\<lparr>params := params t\<rparr>" using assms by (simp add: otherwise_def)
  have "chainStep k s ?s"
    by (rule chainStep.elsewhere) (use assms in \<open>simp add: otherwise_def spendable_def\<close>)
  moreover have "t = ?s \<or> chainStep k ?s t"
  proof (cases "params t = params s")
    case True
    then have "t = ?s" by (subst t) simp
    then show ?thesis ..
  next
    case False
    then have "ParamSetPairs_validate k (params t) = Ok ()" using assms by (simp add: otherwise_def)
    then have "SetParams k (params t) ?s = (Ok (), ?s\<lparr>params := params t\<rparr>)"
      by (simp add: SetParams_def monad_simps mustM_def)
    then have "chainStep k ?s (?s\<lparr>params := params t\<rparr>)" by (rule chainStep.changeParams)
    then show ?thesis using t by metis
  qed
  ultimately show ?thesis by (metis converse_rtranclp_into_rtranclp rtranclp.rtrancl_refl)
qed

section \<open>Blocks of the application\<close>

text \<open>The orders name every module of the manager exactly once, the module of this program last.\<close>

lemma orders_complete:
  "set orderBeginBlockers = set managerModules" "distinct orderBeginBlockers"
  "set orderEndBlockers = set managerModules" "distinct orderEndBlockers"
  "set orderInitGenesis = set managerModules" "distinct orderInitGenesis"
  "set ModuleBasics = set managerModules" "distinct ModuleBasics"
  by (auto simp: orderBeginBlockers_def orderEndBlockers_def orderInitGenesis_def managerModules_def ModuleBasics_def)

text \<open>The positions the comments ask for: upgrades begin a block, slashing follows distribution, the
  genesis of the capabilities is first and that of the genesis transactions follows staking.\<close>

lemma documented_positions:
  "hd orderBeginBlockers = Sdk UpgradeModule" "hd orderInitGenesis = Sdk CapabilityModule"
  "\<exists>xs ys zs. orderBeginBlockers = xs @ Sdk DistrModule # ys @ Sdk SlashingModule # zs"
  "\<exists>xs ys zs. orderInitGenesis = xs @ Sdk StakingModule # ys @ Sdk GenutilModule # zs"
proof -
  show "\<exists>xs ys zs. orderBeginBlockers = xs @ Sdk DistrModule # ys @ Sdk SlashingModule # zs"
    by (rule exI [of _ "take 7 orderBeginBlockers"], rule exI [of _ "[]"], rule exI [of _ "drop 9 orderBeginBlockers"])
      (simp add: orderBeginBlockers_def)
  show "\<exists>xs ys zs. orderInitGenesis = xs @ Sdk StakingModule # ys @ Sdk GenutilModule # zs"
    by (rule exI [of _ "take 4 orderInitGenesis"], rule exI [of _ "take 4 (drop 5 orderInitGenesis)"],
        rule exI [of _ "drop 10 orderInitGenesis"])
      (simp add: orderInitGenesis_def)
qed (simp_all add: orderBeginBlockers_def orderInitGenesis_def)

lemma foreachM_append: "foreachM f (xs @ ys) = (\<lambda>s. bindM (foreachM f xs) (\<lambda>_. foreachM f ys) s)"
proof (rule ext)
  show "foreachM f (xs @ ys) s = bindM (foreachM f xs) (\<lambda>_. foreachM f ys) s" for s
    by (induction xs arbitrary: s) (auto simp: bindM_def returnM_def split: prod.splits result.splits)
qed

context other_laws
begin

lemma before_the_module:
  obtains xs where "map (moduleName R) orderBeginBlockers = xs @ [ModuleName]" and "ModuleName \<notin> set xs"
proof
  show "map (moduleName R) orderBeginBlockers = map (moduleName R) (butlast orderBeginBlockers) @ [ModuleName]"
    by (simp add: orderBeginBlockers_def moduleName_def)
  show "ModuleName \<notin> set (map (moduleName R) (butlast orderBeginBlockers))"
    using other_names by (auto simp: orderBeginBlockers_def moduleName_def dest: sym)
qed

lemma init_before_the_module:
  obtains xs where "map (moduleName R) orderInitGenesis = xs @ [ModuleName]" and "ModuleName \<notin> set xs"
proof
  show "map (moduleName R) orderInitGenesis = map (moduleName R) (butlast orderInitGenesis) @ [ModuleName]"
    by (simp add: orderInitGenesis_def moduleName_def)
  show "ModuleName \<notin> set (map (moduleName R) (butlast orderInitGenesis))"
    using other_names by (auto simp: orderInitGenesis_def moduleName_def dest: sym)
qed

lemma others_begin:
  assumes "ModuleName \<notin> set xs" and "foreachM (BeginBlockOf k R) xs s = (Ok u, t)"
  shows "otherwise k s t"
  by (rule foreachM_invariant [OF assms(2)])
    (use assms(1) in \<open>auto simp: BeginBlockOf_def otherM_Ok_iff intro: otherwise_refl otherwise_trans others(1)
      split: if_split_asm\<close>)

lemma others_begin_runs:
  assumes "ModuleName \<notin> set xs" and "\<forall>n u. om_BeginBlock R n u \<noteq> None"
  shows "\<exists>t. foreachM (BeginBlockOf k R) xs s = (Ok (), t)"
  using assms(1)
proof (induction xs arbitrary: s)
  case (Cons x xs)
  obtain u where "om_BeginBlock R x s = Some u" using assms(2) by blast
  then have "BeginBlockOf k R x s = (Ok (), u)" using Cons.prems by (auto simp: BeginBlockOf_def otherM_Ok_iff)
  then show ?case using Cons by (simp add: bindM_Ok_iff)
qed (simp add: returnM_def)

lemma others_end:
  assumes "foreachM (\<lambda>n. bindM (EndBlockOf R n) (\<lambda>_. returnM ())) xs s = (Ok u, t)"
  shows "otherwise k s t"
  by (rule foreachM_invariant [OF assms])
    (auto simp: EndBlockOf_def AppModule_EndBlock_def Ok_iffs otherM_Ok_iff intro: otherwise_refl otherwise_trans others(2)
      split: if_split_asm)

lemma others_init:
  assumes "ModuleName \<notin> set xs" and "foreachM (\<lambda>n. case gen n of None \<Rightarrow> returnM ()
    | Some gs \<Rightarrow> bindM (InitGenesisOf cdc k R n gs) (\<lambda>_. returnM ())) xs s = (Ok u, t)"
  shows "otherwise k s t"
proof (rule foreachM_invariant [OF assms(2)])
  show "otherwise k s w" if "n \<in> set xs" "otherwise k s v" "(case gen n of None \<Rightarrow> returnM ()
    | Some gs \<Rightarrow> bindM (InitGenesisOf cdc k R n gs) (\<lambda>_. returnM ())) v = (Ok x, w)" for n v w x
    using that assms(1)
    by (auto simp: InitGenesisOf_def Ok_iffs otherM_Ok_iff split: option.split_asm if_split_asm
        intro: otherwise_trans others(3))
qed (rule otherwise_refl)

end

section \<open>What the module is given\<close>

text \<open>An account keeper that knows the accounts it is made of lets the module's keeper be built; its store
  is mounted and its parameters have a space.\<close>

lemma module_is_set_up:
  assumes "\<And>names name. name \<in> set names \<Longrightarrow> accountKeeper names name \<noteq> None"
  shows "\<exists>app. App_New R accountKeeper parts = Ok app \<and> GetKey app StoreKey = Some StoreKey
    \<and> GetSubspace app ModuleName = Some ModuleName"
proof -
  have "ModuleName \<in> set (map (accountNameOf R) (map fst maccPerms))"
    by (simp add: maccPerms_def accountNameOf_def moduleName_def)
  then obtain x where "accountKeeper (map (accountNameOf R) (map fst maccPerms)) ModuleName = Some x"
    using assms by blast
  then show ?thesis
    by (simp add: App_New_def NewKeeper_def GetKey_def GetSubspace_def storeModules_def initParamsKeeper_def
        storeKeyOf_def moduleName_def)
qed

text \<open>The keeper is also given the key under the name of a memory store, but looks it up among the keys of
  the persistent stores: there is none.\<close>

lemma memory_key_is_missing:
  assumes "App_New R accountKeeper parts = Ok app" and "\<And>x. om_StoreKey R x \<noteq> MemStoreKey"
  shows "GetKey app MemStoreKey = None"
proof -
  have "set (app_keys app) \<subseteq> insert StoreKey (range (om_StoreKey R))"
    using assms(1) by (auto simp: App_New_def bindR_Ok_iff storeKeyOf_def split: appModule.splits)
  from subsetD [OF this, of MemStoreKey] show ?thesis using assms(2) by (simp add: GetKey_def StoreKey_def MemStoreKey_def ModuleName_def image_iff) metis
qed

text \<open>The bank module blocks the addresses of the module accounts: that of this module and six others. A
  reserve of an auction can receive coins unless it is one of them.\<close>

lemma blocked_addresses:
  "ModuleAccountAddrs R NewModuleAddress AddrString t
    = (if \<exists>n \<in> fst ` set maccPerms. t = AddrString (NewModuleAddress (accountNameOf R n)) then Some True else None)"
proof -
  have "fold (\<lambda>acc m. m(f acc \<mapsto> True)) ns m t = (if \<exists>n \<in> set ns. t = f n then Some True else m t)"
    for f :: "accountName \<Rightarrow> string" and ns and m :: "string \<rightharpoonup> bool"
    by (induction ns arbitrary: m) auto
  then show ?thesis by (simp add: ModuleAccountAddrs_def)
qed

lemma module_address_blocked:
  "ModuleAccountAddrs R NewModuleAddress AddrString (AddrString (NewModuleAddress ModuleName)) = Some True"
  unfolding blocked_addresses by (simp add: maccPerms_def accountNameOf_def moduleName_def)

section \<open>The application as a chain\<close>

text \<open>A genesis that has nothing of this module but its parameters.\<close>

definition unusedGenesis :: "'j jsonCodec_scheme \<Rightarrow> (string \<rightharpoonup> string) \<Rightarrow> bool" where
  "unusedGenesis cdc gen \<longleftrightarrow> (\<forall>gs g. gen ModuleName = Some gs \<longrightarrow> UnmarshalJSON cdc gs = Some g \<longrightarrow>
     gs_Auctions g = [] \<and> gs_AllowedBidderRecords g = [] \<and> gs_Bids g = [] \<and> gs_VestingQueues g = [])"

text \<open>The transitions: a block begins or ends, a message is delivered through the router, and what fees
  and messages of other modules do.\<close>

inductive appStep :: "'b manager \<Rightarrow> 'b otherModules \<Rightarrow> ('b, 'z) App \<Rightarrow> 'b state \<Rightarrow> 'b state \<Rightarrow> bool" for M R app where
  begins: "BlockTime s \<le> now \<Longrightarrow> App_BeginBlocker M R app (s\<lparr>BlockTime := now\<rparr>) = (Ok u, t) \<Longrightarrow> appStep M R app s t"
| ends: "App_EndBlocker M R s = (Ok ups, t) \<Longrightarrow> appStep M R app s t"
| delivers: "Msg_ValidateBasic (FundraisingKeeper app) msg = Ok () \<Longrightarrow> admissible (FundraisingKeeper app) s msg \<Longrightarrow>
    Msg_Route msg = Some r \<Longrightarrow> mm_Router M (App_Routes R app) r = Some act \<Longrightarrow> act msg s = (Ok evs, t) \<Longrightarrow>
    appStep M R app s t"
| elsewhere: "otherwise (FundraisingKeeper app) s t \<Longrightarrow> appStep M R app s t"

definition appReachable ::
    "'b manager \<Rightarrow> 'b otherModules \<Rightarrow> 'j jsonCodec_scheme \<Rightarrow> ('b, 'z) App \<Rightarrow> 'b state \<Rightarrow> bool" where
  "appReachable M R cdc app s \<longleftrightarrow> (\<exists>s0 bz gen ups s1. emptyStore s0 \<and> UnmarshalGenesis M bz = Some gen
     \<and> unusedGenesis cdc gen \<and> App_InitChainer M R cdc app bz s0 = (Ok ups, s1) \<and> (appStep M R app)\<^sup>*\<^sup>* s1 s)"

text \<open>Every message of the module finds the module's handler, and no other message does.\<close>

lemma Msg_Route_iff: "Msg_Route msg = Some r \<longleftrightarrow> r = RouterKey \<and> msg \<noteq> OtherMsg"
  by (cases msg) auto

context application
begin

lemma otherwise_Inv: "Inv k s \<Longrightarrow> otherwise k s t \<Longrightarrow> Inv k t"
  by (blast intro: chain.inv_steps otherwise_steps)

lemma routes_to_handler:
  assumes "FundraisingKeeper app = k" and "mm_Router M (App_Routes R app) RouterKey = Some act"
  shows "act = NewHandler k"
proof -
  have "(RouterKey, act) \<in> set (App_Routes R app)" by (rule routed [OF assms(2)])
  then obtain m where "(case m of Sdk x \<Rightarrow> om_Route R x | FundraisingModule \<Rightarrow> Some (AppModule_Route k)) = Some (RouterKey, act)"
    using assms(1) by (auto simp: App_Routes_def List.map_filter_def)
  then show ?thesis by (cases m) (auto simp: AppModule_Route_def dest: other_routes)
qed

lemma begin_block_run:
  assumes "FundraisingKeeper app = k"
  obtains xs where "ModuleName \<notin> set xs"
    and "App_BeginBlocker M R app s = bindM (foreachM (BeginBlockOf k R) xs) (\<lambda>_. BeginBlocker k) s"
proof -
  obtain xs where xs: "map (moduleName R) orderBeginBlockers = xs @ [ModuleName]" "ModuleName \<notin> set xs"
    by (rule before_the_module)
  have "bindM m (\<lambda>_. returnM ()) = m" for m :: "('b, unit) kcomp"
    by (rule ext) (simp add: bindM_def returnM_def split: prod.splits result.splits)
  then have "App_BeginBlocker M R app s = bindM (foreachM (BeginBlockOf k R) xs) (\<lambda>_. BeginBlocker k) s"
    by (simp add: App_BeginBlocker_def xs(1) begin_in_order assms foreachM_append BeginBlockOf_def AppModule_BeginBlock_def)
  with xs(2) show ?thesis by (rule that)
qed

lemma init_chain:
  assumes "FundraisingKeeper app = k" and "UnmarshalGenesis M bz = Some gen" and "unusedGenesis cdc gen"
    and "App_InitChainer M R cdc app bz s = (Ok ups, t)"
  shows "(chainStep k)\<^sup>*\<^sup>* s t"
proof -
  let ?s = "s\<lparr>bank := om_SetModuleVersionMap R (bank s)\<rparr>"
    and ?f = "\<lambda>n. case gen n of None \<Rightarrow> returnM () | Some gs \<Rightarrow> bindM (InitGenesisOf cdc k R n gs) (\<lambda>_. returnM ())"
  obtain xs where xs: "map (moduleName R) orderInitGenesis = xs @ [ModuleName]" "ModuleName \<notin> set xs"
    by (rule init_before_the_module)
  have "mm_InitGenesis M (xs @ [ModuleName]) (InitGenesisOf cdc k R) gen ?s = (Ok ups, t)"
    using assms(1,2,4) by (simp add: App_InitChainer_def Ok_iffs xs(1))
  then have "foreachM ?f (xs @ [ModuleName]) ?s = (Ok (), t)" by (rule init_in_order)
  then obtain u where u: "foreachM ?f xs ?s = (Ok (), u)" and last: "foreachM ?f [ModuleName] u = (Ok (), t)"
    by (auto simp: foreachM_append bindM_Ok_iff)
  have su: "otherwise k s u" using others(4) others_init [OF xs(2) u] by (rule otherwise_trans)
  have "u = t \<or> chainStep k u t"
  proof (cases "gen ModuleName")
    case None
    then show ?thesis using last by (simp add: Ok_iffs)
  next
    case (Some gs)
    then obtain g where g: "UnmarshalJSON cdc gs = Some g" and run: "InitGenesis k g u = (Ok (), t)"
      using last by (auto simp: InitGenesisOf_def AppModule_InitGenesis_def Ok_iffs)
    then have "SetParams k (gs_Params g) u = (Ok (), t)"
      using assms(3) Some by (auto simp: unusedGenesis_def InitGenesis_def Ok_iffs)
    then show ?thesis by (auto intro: chainStep.changeParams)
  qed
  then show ?thesis using otherwise_steps [OF su] by (metis rtranclp.rtrancl_into_rtrancl)
qed

lemma appStep_chain:
  assumes "FundraisingKeeper app = k" and "appStep M R app s t"
  shows "(chainStep k)\<^sup>*\<^sup>* s t"
  using assms(2)
proof (cases rule: appStep.cases)
  case (begins now u)
  let ?s = "s\<lparr>BlockTime := now\<rparr>"
  obtain xs where xs: "ModuleName \<notin> set xs"
    and eq: "App_BeginBlocker M R app ?s = bindM (foreachM (BeginBlockOf k R) xs) (\<lambda>_. BeginBlocker k) ?s"
    by (rule begin_block_run [OF assms(1)])
  then obtain v where v: "foreachM (BeginBlockOf k R) xs ?s = (Ok (), v)" and run: "BeginBlocker k v = (Ok (), t)"
    using begins(2) unfolding eq bindM_Ok_iff by auto
  have sv: "otherwise k ?s v" by (rule others_begin [OF xs v])
  let ?v = "v\<lparr>BlockTime := BlockTime s\<rparr>"
  obtain b p where vb: "v = ?s\<lparr>bank := b, params := p\<rparr>" using sv unfolding otherwise_def by blast
  have "otherwise k s ?v" using sv by (simp add: vb otherwise_def spendable_def)
  moreover have "?v\<lparr>BlockTime := now\<rparr> = v" by (rule state.equality) (simp_all add: vb)
  then have "chainStep k ?v t"
    by (intro chainStep.beginBlock [of _ now _ "()"]) (use begins(1) run in simp_all)
  ultimately show ?thesis using otherwise_steps by (metis rtranclp.rtrancl_into_rtrancl)
next
  case (ends ups)
  then have "foreachM (\<lambda>n. bindM (EndBlockOf R n) (\<lambda>_. returnM ())) (map (moduleName R) orderEndBlockers) s = (Ok (), t)"
    unfolding App_EndBlocker_def by (rule end_in_order)
  then show ?thesis by (rule otherwise_steps [OF others_end])
next
  case (delivers msg r act evs)
  then have "act = NewHandler k" using routes_to_handler [OF assms(1)] by (simp add: Msg_Route_iff)
  then have "chainStep k s t" using delivers assms(1) by (auto intro: chainStep.deliver)
  then show ?thesis ..
next
  case elsewhere
  then show ?thesis using assms(1) by (simp add: otherwise_steps)
qed

lemma appReachable_reachable:
  assumes "FundraisingKeeper app = k" and "appReachable M R cdc app s"
  shows "reachable k s"
proof -
  obtain s0 bz gen ups s1 where start: "emptyStore s0" "UnmarshalGenesis M bz = Some gen" "unusedGenesis cdc gen"
    "App_InitChainer M R cdc app bz s0 = (Ok ups, s1)" and run: "(appStep M R app)\<^sup>*\<^sup>* s1 s"
    using assms(2) by (auto simp: appReachable_def)
  have "(chainStep k)\<^sup>*\<^sup>* s0 s1" by (rule init_chain [OF assms(1) start(2-4)])
  moreover have "(chainStep k)\<^sup>*\<^sup>* s1 s" using run
    by (induction rule: rtranclp_induct) (auto dest: appStep_chain [OF assms(1)])
  ultimately show ?thesis using start(1) unfolding reachable_def by (meson rtranclp_trans)
qed

end


text \<open>A run: the modules in order, of which every other one pays one coin into the community pool in each
  block; a genesis with the default state of the module.\<close>

definition refManager :: "ledger manager" where
  "refManager =
   \<lparr> mm_BeginBlock = (\<lambda>order f. foreachM f order),
     mm_EndBlock = (\<lambda>order f. bindM (foreachM (\<lambda>n. bindM (f n) (\<lambda>_. returnM ())) order) (\<lambda>_. returnM [])),
     mm_InitGenesis = (\<lambda>order f gen. bindM (foreachM (\<lambda>n. case gen n of None \<Rightarrow> returnM ()
       | Some gs \<Rightarrow> bindM (f n gs) (\<lambda>_. returnM ())) order) (\<lambda>_. returnM [])),
     mm_Router = map_of,
     UnmarshalGenesis = (\<lambda>t. Some [ModuleName \<mapsto> t]) \<rparr>"

definition payPool :: "ledger state \<Rightarrow> ledger state" where
  "payPool s = s\<lparr>bank := (bank s)(communityPool := (\<lambda>d. bank s communityPool d + 1))\<rparr>"

definition refOthers :: "ledger otherModules" where
  "refOthers =
   \<lparr> om_Name = (\<lambda>_. ''other''), om_StoreKey = (\<lambda>_. ''other''), om_AccountName = (\<lambda>_. ''other''), om_Route = (\<lambda>_. None),
     om_BeginBlock = (\<lambda>_ s. Some (payPool s)), om_EndBlock = (\<lambda>_ s. Some s), om_InitGenesis = (\<lambda>_ _ s. Some s),
     om_SetModuleVersionMap = (\<lambda>b. b) \<rparr>"

definition refCodec :: jsonCodec where
  "refCodec = \<lparr> UnmarshalJSON = (\<lambda>_. Some (DefaultGenesisState ''stake'')), MarshalJSON = (\<lambda>_. ''{}'') \<rparr>"

interpretation ref_manager: manager_laws refManager
  by unfold_locales (auto simp: refManager_def Ok_iffs map_of_SomeD)

interpretation ref_others: other_laws reference refOthers
proof
  have "otherwise reference s (payPool s)" for s by (simp add: otherwise_def payPool_def spendable_def)
  then show "otherwise reference s t" if "om_BeginBlock refOthers n s = Some t" for n s t
    using that by (auto simp: refOthers_def)
qed (auto simp: refOthers_def ModuleName_def otherwise_refl)

interpretation ref_app: application reference communityPool refManager refOthers
  by unfold_locales


end
