(* ===== verification/Simulated.thy ===== *)
theory Simulated
  imports Simulator Commands Scenario
begin

text \<open>
  The properties of the simulation: whatever is drawn, a message it delivers passes the stateless
  validation, is signed by the account that sends it and meets the conditions of its handler that do
  not concern balances; and a random genesis state is accepted and starts the module. The calendar
  of the drawn times moves forward, and the store decoder panics on five of the eight kinds of entries.
\<close>

section \<open>Runs of a simulation\<close>

lemma keeperM_Ok: "keeperM m (s, r) = (Ok x, t, r') \<longleftrightarrow> m s = (Ok x, t) \<and> r' = r"
  by (auto simp: keeperM_def split: prod.splits)

lemma stateM_Ok: "stateM f (s, r) = (Ok x, t, r') \<longleftrightarrow> x = f s \<and> t = s \<and> r' = r"
  by (auto simp: stateM_def getsM_def)

lemma drawM_Ok: "drawM d (s, r) = (Ok x, t, r') \<longleftrightarrow> d r = (x, r') \<and> t = s"
  by (auto simp: drawM_def split: prod.splits)

lemma rand_Intn_Ok: "rand_Intn n (s, r) = (Ok i, t, r') \<longleftrightarrow> 0 < n \<and> i = shd r mod nat n \<and> t = s \<and> r' = stl r"
  by (auto simp: rand_Intn_def panicM_def drawM_def)

lemma randomAccM_Ok: "randomAccM e accs (s, r) = (Ok a, t, r') \<longleftrightarrow> RandomAcc e r accs = Some (a, r') \<and> t = s"
  by (auto simp: randomAccM_def split: option.splits)

lemma onErrorM_Ok:
  "onErrorM m h c u = (Ok x, v) \<longleftrightarrow>
    (\<exists>t. m u = (Ok (), t) \<and> c t = (Ok x, v)) \<or> (\<exists>er t. m u = (Err er, t) \<and> h t = (Ok x, v))"
proof (cases "m u")
  case (Pair z t)
  then show ?thesis by (cases z) (auto simp: onErrorM_def)
qed

lemma bankM_Ok: "bankM op s = (Ok u, t) \<Longrightarrow> \<exists>b. t = s\<lparr>bank := b\<rparr>"
  by (auto simp: bankM_def split: prod.splits option.splits)

text \<open>Sequencing with the state and the random source apart.\<close>

lemma bind_Ok: "bindM m f (s, r) = (Ok y, v) \<longleftrightarrow> (\<exists>x t r'. m (s, r) = (Ok x, t, r') \<and> f x (t, r') = (Ok y, v))"
  by (simp add: bindM_Ok_iff split_paired_Ex)

lemmas sim_Ok = bind_Ok keeperM_Ok stateM_Ok drawM_Ok rand_Intn_Ok randomAccM_Ok onErrorM_Ok
  returnM_Ok_iff liftR_Ok_iff panicM_Ok_iff orPanic_Ok_iff

lemma fundBalances_Ok:
  "fundBalances k e x ds (s, r) = (Ok cs, t, r') \<Longrightarrow> r' = r \<and> (\<exists>b. t = s\<lparr>bank := b\<rparr>)"
  by (auto simp: fundBalances_def sim_Ok dest!: bankM_Ok)

lemma shuffle_set: "set (fst (rand_Shuffle xs r)) = set xs"
proof -
  have "set (fst (shuffleFrom i xs r)) = set xs" if "i < length xs \<or> i = 0" for i and xs :: "'a list" and r
    using that
  proof (induction i arbitrary: xs r)
    case (Suc i)
    then have "set (swapAt (Suc i) (shd r mod (Suc i + 1)) xs) = set xs"
      by (auto simp: swapAt_def intro!: set_swap less_le_trans [OF mod_less_divisor])
    then show ?case using Suc by (simp add: swapAt_def)
  qed simp
  then show ?thesis by (cases xs) (auto simp: rand_Shuffle_def)
qed

section \<open>The calendar\<close>

definition leapDays :: "int \<Rightarrow> int" where
  "leapDays y = y div 4 - y div 100 + y div 400"

definition monthDays :: "int \<Rightarrow> int" where
  "monthDays x = (153 * x + 2) div 5"

lemma daysBefore_parts: "daysBefore m = 365 * (m div 12) + leapDays (m div 12) + monthDays (m mod 12) - 719468"
  by (simp add: daysBefore_def leapDays_def monthDays_def Let_def)

lemma leapDays_mono:
  assumes "y \<le> z"
  shows "leapDays y \<le> leapDays z"
proof -
  have split: "leapDays w = (w div 4 - w div 4 div 25) + w div 4 div 100" for w
    using zdiv_zmult2_eq [of 25 w 4] zdiv_zmult2_eq [of 100 w 4] by (simp add: leapDays_def)
  have less: "a - a div 25 \<le> b - b div 25" if "a \<le> b" for a b :: int
  proof -
    have "b div 25 \<le> (a + (b - a) * 25) div 25" using that by (intro zdiv_mono1) simp_all
    then show ?thesis by simp
  qed
  have mono: "y div 4 \<le> z div 4" using assms by (simp add: zdiv_mono1)
  then have "y div 4 div 100 \<le> z div 4 div 100" by (simp add: zdiv_mono1)
  then show ?thesis unfolding split by (rule add_mono [OF less [OF mono]])
qed

lemma monthDays_step: "monthDays x + 28 \<le> monthDays (x + 1)"
  using zdiv_mono1 [of "153 * x + 2 + 28 * 5" "153 * (x + 1) + 2" 5] by (simp add: monthDays_def)

lemma month_has_days: "daysBefore m + 28 \<le> daysBefore (m + 1)"
proof (cases "m mod 12 = 11")
  case True
  then have "(m + 1) div 12 = m div 12 + 1" "(m + 1) mod 12 = 0" by presburger+
  moreover have "monthDays 11 = 337" "monthDays 0 = 0" by (simp_all add: monthDays_def)
  moreover have "leapDays (m div 12) \<le> leapDays (m div 12 + 1)" by (rule leapDays_mono) simp
  ultimately show ?thesis unfolding daysBefore_parts True by simp
next
  case False
  then have parts: "m + 1 = 12 * (m div 12) + (m mod 12 + 1)" "0 \<le> m mod 12 + 1" "m mod 12 + 1 < 12"
    using pos_mod_sign [of 12 m] pos_mod_bound [of 12 m] by simp_all
  have next_month: "(m + 1) div 12 = m div 12" "(m + 1) mod 12 = m mod 12 + 1"
    using int_div_pos_eq [OF parts] int_mod_pos_eq [OF parts] by simp_all
  have "u + p - w + 28 \<le> u + q - w" if "p + 28 \<le> q" for u w p q :: int using that by simp
  then show ?thesis unfolding daysBefore_parts next_month using monthDays_step by blast
qed

lemma months_have_days: "daysBefore m + 28 * int n \<le> daysBefore (m + int n)"
proof (induction n)
  case (Suc n)
  then show ?case using month_has_days [of "m + int n"] by (simp add: add.commute add.left_commute)
qed simp

lemma addMonths_later: "0 < n \<Longrightarrow> t < addMonths t n"
  using months_have_days [of "monthOf (t div dayNanos)" "nat n"] by (simp add: addMonths_def Let_def dayNanos_def)

section \<open>What the simulation relies on\<close>

locale sim_laws = fundraising k pool
  for k :: "('b, 'z) keeper_scheme" and pool :: accAddress +
  fixes e :: "'b simenv"
  assumes between: "m < n \<Longrightarrow> m \<le> fst (RandIntBetween e r m n) \<and> fst (RandIntBetween e r m n) < n"
    and prec: "0 \<le> p \<Longrightarrow> p \<le> 18 \<Longrightarrow> NewDecWithPrec e n p = Dec (n * 10 ^ nat (18 - p))"
    and bond_valid: "ValidateDenom k (DefaultBondDenom e)"
    and bond_other: "DefaultBondDenom e \<notin> set testCoinDenoms"
    and account: "GetAccount e x = Some y \<Longrightarrow> y = x \<and> usableAddress x"
    and coins_valid: "ValidateDenom k d \<Longrightarrow> 0 < n \<Longrightarrow> CoinsValidate k [Coin d n]" "CoinsValidate k []"
begin

lemma between_Ok: "RandIntBetween e r m n = (x, r') \<Longrightarrow> m < n \<Longrightarrow> m \<le> x \<and> x < n"
  using between [of m n r] by simp

end

text \<open>The conditions of the handlers that do not concern balances.\<close>

fun meetsGuards :: "'a sdk_scheme \<Rightarrow> 'b state \<Rightarrow> Msg \<Rightarrow> bool" where
  "meetsGuards S s (CreateFixedPriceAuctionMsg m) \<longleftrightarrow>
     BlockTime s \<le> mf_EndTime m \<and> length (mf_VestingSchedules m) \<le> MaxNumVestingSchedules"
| "meetsGuards S s (CreateBatchAuctionMsg m) \<longleftrightarrow>
     BlockTime s \<le> mb_EndTime m \<and> length (mb_VestingSchedules m) \<le> MaxNumVestingSchedules
   \<and> mb_MaxExtendedRound m \<le> MaxExtendedRoundLimit"
| "meetsGuards S s (CancelAuctionMsg m) \<longleftrightarrow>
     (\<exists>a x. GetAuction (mc_AuctionId m) s = Some a \<and> GetStatus a = AuctionStatusStandBy
        \<and> GetAuctioneer S a = Some x \<and> AccAddressString S x = mc_Auctioneer m)"
| "meetsGuards S s (PlaceBidMsg m) \<longleftrightarrow>
     (\<exists>a x ab n. GetAuction (mp_AuctionId m) s = Some a \<and> GetStatus a = AuctionStatusStarted
        \<and> bidOK a (bidOf m 1)
        \<and> AccAddressFromBech32 S (mp_Bidder m) = Some x \<and> GetAllowedBidder (mp_AuctionId m) x s = Some ab
        \<and> ab_MaxBidAmount ab = Some n \<and> ConvertToSellingAmount S (bidOf m 1) (GetPayingCoinDenom a) \<le> n)"
| "meetsGuards S s (ModifyBidMsg m) \<longleftrightarrow> False"
| "meetsGuards S s (AddAllowedBidderMsg m) \<longleftrightarrow> False"
| "meetsGuards S s OtherMsg \<longleftrightarrow> False"

definition readyToDeliver :: "'a sdk_scheme \<Rightarrow> 'b state \<Rightarrow> sim_outcome \<Rightarrow> bool" where
  "readyToDeliver S s out \<longleftrightarrow> (case out of NoOpMsg _ \<Rightarrow> True
     | Deliver x msg _ \<Rightarrow> Msg_ValidateBasic S msg = Ok () \<and> Msg_GetSigners S msg = Some [x] \<and> meetsGuards S s msg)"

context sim_laws
begin

lemma startPrice_pos: "RandIntBetween e r 1 n = (x, r') \<Longrightarrow> 1 < n \<Longrightarrow> 0 \<le> p \<Longrightarrow> p \<le> 18 \<Longrightarrow> 0 < mant (NewDecWithPrec e x p)"
  using between_Ok [of r 1 n x r'] by (simp add: prec)

lemma text_of_account: "GetAccount e x = Some y \<Longrightarrow> AccAddressFromBech32 k (AccAddressString k y) = Some x"
  using account [of x y] by (simp add: bech32_roundtrip)

lemma test_coin:
  assumes "NewCoin k (testCoinDenoms ! i) n = Some c" and "i < length testCoinDenoms" and "0 < n"
  shows "ValidateDenom k (Denom c) \<and> 0 < Amount c \<and> Denom c \<noteq> DefaultBondDenom e"
proof -
  have "testCoinDenoms ! i \<in> set testCoinDenoms" using assms(2) by simp
  then have "testCoinDenoms ! i \<noteq> DefaultBondDenom e" using bond_other by metis
  then show ?thesis using assms(1,3) by (auto simp: NewCoin_Some)
qed

lemma ready_fixed:
  assumes "GetAccount e x = Some y" and "0 < mant p" and "ValidateDenom k (Denom c) \<and> 0 < Amount c \<and> Denom c \<noteq> DefaultBondDenom e"
    and "BlockTime t \<le> st" and "st < et"
  shows "readyToDeliver k t (Deliver x (CreateFixedPriceAuctionMsg
    (NewMsgCreateFixedPriceAuction (AccAddressString k y) p c (DefaultBondDenom e) [] st et)) cs)"
  using assms text_of_account [OF assms(1)]
  by (simp add: readyToDeliver_def mf_ValidateBasic_Ok message_defs bond_valid validSchedules_def)

lemma ready_batch:
  assumes "GetAccount e x = Some y" and "0 < mant p" and "0 < mant mn" and "0 < mant er" and "mx \<le> 30"
    and "ValidateDenom k (Denom c) \<and> 0 < Amount c \<and> Denom c \<noteq> DefaultBondDenom e"
    and "BlockTime t \<le> st" and "st < et"
  shows "readyToDeliver k t (Deliver x (CreateBatchAuctionMsg
    (NewMsgCreateBatchAuction (AccAddressString k y) p mn c (DefaultBondDenom e) [] mx er st et)) cs)"
  using assms text_of_account [OF assms(1)]
  by (simp add: readyToDeliver_def mb_ValidateBasic_Ok message_defs bond_valid validSchedules_def MaxExtendedRoundLimit_def)

text \<open>What the two operations draw.\<close>

lemma start_drawn: "RandIntBetween e r 0 2 = (d, r') \<Longrightarrow> now \<le> addDays now d"
  using between_Ok [of r 0 2 d r'] by (simp add: addDays_def)

lemma end_drawn: "RandIntBetween e r 1 12 = (m, r') \<Longrightarrow> t < addMonths t m"
  using between_Ok [of r 1 12 m r'] by (simp add: addMonths_later)

lemma rounds_drawn: "RandIntBetween e r 1 5 = (n, r') \<Longrightarrow> (word_of_int n :: uint32) \<le> 30"
proof -
  assume "RandIntBetween e r 1 5 = (n, r')"
  then have "1 \<le> n \<and> n < 5" using between_Ok [of r 1 5 n r'] by simp
  then have "n = 1 \<or> n = 2 \<or> n = 3 \<or> n = 4" by arith
  then show ?thesis by auto
qed

lemmas drawn = start_drawn end_drawn rounds_drawn

lemma NoOp_ready: "readyToDeliver k t (NoOpMsg z)"
  by (simp add: readyToDeliver_def)

lemma funded_time: "fundBalances k e x ds (s, r) = (Ok cs, t, r') \<Longrightarrow> BlockTime t = BlockTime s"
  using fundBalances_Ok [of k e x ds s r cs t r'] by auto

lemma SimulateMsgCreateFixedPriceAuction_ready:
  assumes "SimulateMsgCreateFixedPriceAuction k e accs (s, r) = (Ok (Deliver x msg cs), t, r')"
  shows "readyToDeliver k t (Deliver x msg cs)"
  using assms unfolding SimulateMsgCreateFixedPriceAuction_def Let_def
  by (auto simp: sim_Ok funded_time drawn split: if_split_asm intro!: ready_fixed [OF _ startPrice_pos test_coin]
      dest: between_Ok)

lemma SimulateMsgCreateBatchAuction_ready:
  assumes "SimulateMsgCreateBatchAuction k e accs (s, r) = (Ok (Deliver x msg cs), t, r')"
  shows "readyToDeliver k t (Deliver x msg cs)"
  using assms unfolding SimulateMsgCreateBatchAuction_def Let_def
  by (auto simp: sim_Ok funded_time drawn split: if_split_asm
      intro!: ready_batch [OF _ startPrice_pos startPrice_pos startPrice_pos _ test_coin] dest: between_Ok)

lemma stored_auction:
  assumes inv: "Inv k s" and "a \<in> set (GetAuctions s)"
  shows "GetAuction (GetId a) s = Some a" and "auctionOK k (GetId a) a"
proof -
  have "owf (Auctions s)" using InvD(1) [OF inv] by (simp add: storeOK_def)
  then obtain i where i: "GetAuction i s = Some a"
    using assms(2) by (auto simp: GetAuctions_def GetAuction_def set_oiter)
  moreover have "GetId a = i" using InvD(2) [OF inv i] by (simp add: auctionOK_def)
  ultimately show "GetAuction (GetId a) s = Some a" "auctionOK k (GetId a) a" using InvD(2) [OF inv] by auto
qed

lemma auctioneerAccount_Ok:
  assumes "auctioneerAccount k a accs = Ok x" and "x \<noteq> []"
  shows "GetAuctioneer k a = Some x"
proof -
  have "GetAuctioneer k a = Some x" if "foldR (\<lambda>acc found. bindR (orPanic (GetAuctioneer k a))
      (\<lambda>y. Ok (if acc = y then acc else found))) accs z = Ok x" "x \<noteq> z" for z
    using that by (induction accs arbitrary: z) (auto simp: bindR_Ok_iff split: if_splits)
  then show ?thesis using assms by (auto simp: auctioneerAccount_def)
qed

lemma SimulateMsgCancelAuction_ready:
  assumes inv: "Inv k s" and run: "SimulateMsgCancelAuction k e accs (s, r) = (Ok (Deliver x msg cs), t, r')"
  shows "readyToDeliver k t (Deliver x msg cs)"
proof -
  obtain as r1 a accs' y where shuffled: "rand_Shuffle (GetAuctions s) r = (as, r1)"
    and find: "find (\<lambda>a. GetStatus a = AuctionStatusStandBy) as = Some a"
    and x: "auctioneerAccount k a accs' = Ok x" and y: "GetAccount e x = Some y" and t: "t = s"
    and msg: "msg = CancelAuctionMsg (NewMsgCancelAuction (AccAddressString k y) (GetId a))"
    using run unfolding SimulateMsgCancelAuction_def by (auto simp: sim_Ok split: option.splits)
  have "a \<in> set as" "GetStatus a = AuctionStatusStandBy" using find by (auto simp: find_Some_iff)
  moreover then have "a \<in> set (GetAuctions s)" using shuffle_set [of "GetAuctions s" r] shuffled by simp
  moreover have "y = x" "x \<noteq> []" using account [OF y] by (auto simp: usableAddress_def)
  ultimately show ?thesis
    using stored_auction [OF inv] auctioneerAccount_Ok [OF x] text_of_account [OF y]
    by (simp add: readyToDeliver_def msg t mc_ValidateBasic_def message_defs)
qed

lemma randomBid_Ok:
  assumes "randomBid k e a (s, r) = (Ok (ty, p, c), t, r')" and "auctionOK k (GetId a) a"
  shows "t = s \<and> 0 < mant p \<and> ValidateDenom k (Denom c) \<and> 0 < Amount c \<and> ty \<noteq> BidTypeNil
    \<and> bidOK a \<lparr> bid_AuctionId = i, bid_Bidder = w, bid_Id = n, bid_Type = ty, bid_Price = p, bid_Coin = c, bid_IsMatched = m \<rparr>"
proof (cases a)
  case (FixedPriceAuction ba rc)
  then show ?thesis using assms unfolding randomBid_def
    by (auto simp: auctionOK_def sim_Ok NewCoin_Some bidOK_def dest!: between_Ok split: if_splits)
next
  case (BatchAuction ba mn mp mx er)
  then show ?thesis using assms unfolding randomBid_def Let_def
    by (auto simp: auctionOK_def sim_Ok NewCoin_Some bidOK_def DecAdd_law prec dest!: between_Ok split: if_split_asm)
qed

lemma AddAllowedBidders_one:
  assumes "AddAllowedBidders k i [ab] s = (Ok u, t)"
  shows "Auctions t = Auctions s \<and> BlockTime t = BlockTime s
    \<and> (\<exists>x. AllowedBidder_GetBidder k ab = Some x \<and> GetAllowedBidder i x t = Some ab)"
  using assms
  by (auto simp: AddAllowedBidders_def run_Ok addAllowedBidder_def SetAllowedBidder_def GetAllowedBidder_def
      split: option.splits)

lemma allowed_limit:
  assumes "Inv k s" and "GetAllowedBidder i x s = Some ab" and "ab_MaxBidAmount ab = Some n"
  shows "0 \<le> n"
proof -
  have "((i, addrKey x), ab) \<in> set (AllowedBidders s)"
    using assms(2) InvD(1) [OF assms(1)] by (simp add: GetAllowedBidder_def storeOK_def oget_mem)
  then have "allowedOK k (i, addrKey x) ab" using InvD(1) [OF assms(1)] by (auto simp: storeOK_def)
  then show ?thesis using assms(3) by (auto simp: allowedOK_def)
qed

lemma drawn_member: "xs \<noteq> [] \<Longrightarrow> xs ! (n mod length xs) \<in> set xs"
  by simp

lemma limit_Ok:
  "(case z of None \<Rightarrow> returnM n | Some ab \<Rightarrow> bindM (liftR (orPanic (ab_MaxBidAmount ab))) (\<lambda>l. returnM (n + l))) (s, r)
    = (Ok m, t, r') \<longleftrightarrow> t = s \<and> r' = r \<and> (case z of None \<Rightarrow> m = n | Some ab \<Rightarrow> \<exists>l. ab_MaxBidAmount ab = Some l \<and> m = n + l)"
  by (cases z) (auto simp: sim_Ok)

lemma SimulateMsgPlaceBid_ready:
  assumes inv: "Inv k s" and run: "SimulateMsgPlaceBid k e accs (s, r) = (Ok (Deliver x msg cs), t, r')"
  shows "readyToDeliver k t (Deliver x msg cs)"
proof -
  let ?b = "\<lambda>ty p c. \<lparr> bid_AuctionId = 0, bid_Bidder = [], bid_Id = 0, bid_Type = ty, bid_Price = p, bid_Coin = c,
    bid_IsMatched = False \<rparr>"
  obtain a y mc u r1 r2 r3 ty p c limit v
    where a: "a \<in> set (GetAuctions s)" "GetStatus a = AuctionStatusStarted"
    and y: "GetAccount e x = Some y"
    and fund: "fundBalances k e y testCoinDenoms (s, r1) = (Ok mc, u, r2)"
    and bid: "randomBid k e a (u, r2) = (Ok (ty, p, c), v, r3)"
    and limit: "case GetAllowedBidder (GetId a) y v of
        None \<Rightarrow> limit = ConvertToSellingAmount k (?b ty p c) (GetPayingCoinDenom a)
      | Some ab \<Rightarrow> \<exists>l. ab_MaxBidAmount ab = Some l
          \<and> limit = ConvertToSellingAmount k (?b ty p c) (GetPayingCoinDenom a) + l"
    and add: "AddAllowedBidders k (GetId a) [NewAllowedBidder k y (Some limit)] v = (Ok (), t)"
    and msg: "msg = PlaceBidMsg (NewMsgPlaceBid (GetId a) (AccAddressString k y) ty p c)"
    using run unfolding SimulateMsgPlaceBid_def Let_def
    by (clarsimp simp: sim_Ok limit_Ok split: if_split_asm) (rule that [OF drawn_member], assumption+, simp_all)
  note stored = stored_auction [OF inv a(1)]
  have v: "v = u" and b: "0 < mant p" "ValidateDenom k (Denom c)" "0 < Amount c" "ty \<noteq> BidTypeNil"
    and fit: "\<And>i w n m. bidOK a \<lparr> bid_AuctionId = i, bid_Bidder = w, bid_Id = n, bid_Type = ty, bid_Price = p, bid_Coin = c,
      bid_IsMatched = m \<rparr>"
    using randomBid_Ok [OF bid stored(2)] by blast+
  note added = AddAllowedBidders_one [OF add]
  have "GetAllowedBidder (GetId a) y v = GetAllowedBidder (GetId a) y s"
    using fundBalances_Ok [OF fund] v by (auto simp: GetAllowedBidder_def)
  then have enough: "ConvertToSellingAmount k (?b ty p c) (GetPayingCoinDenom a) \<le> limit"
    using limit allowed_limit [OF inv] by (auto split: option.splits)
  have "Auctions t = Auctions s" using added fundBalances_Ok [OF fund] v by auto
  then have "GetAuction (GetId a) t = Some a" using stored(1) by (simp add: GetAuction_def)
  moreover have "GetAllowedBidder (GetId a) x t = Some (NewAllowedBidder k y (Some limit))"
    using added text_of_account [OF y] by (auto simp: AllowedBidder_GetBidder_def NewAllowedBidder_def)
  moreover have "ConvertToSellingAmount k (bidOf (NewMsgPlaceBid (GetId a) (AccAddressString k y) ty p c) 1) (GetPayingCoinDenom a) \<le> limit"
    using enough by (simp add: ConvertToSellingAmount_def bidOf_def NewMsgPlaceBid_def split: if_splits)
  moreover have "bidOK a (bidOf (NewMsgPlaceBid (GetId a) (AccAddressString k y) ty p c) 1)"
    using fit by (simp add: bidOf_def NewMsgPlaceBid_def)
  ultimately show ?thesis
    using a(2) b text_of_account [OF y]
    by (simp add: readyToDeliver_def msg mp_ValidateBasic_Ok message_defs NewAllowedBidder_def)
qed

lemma random_genesis:
  obtains gs r' where "RandomizedGenState k e None None r = (Ok gs, r')" and "GenesisState_Validate k gs = Ok ()"
    and "ParamSetPairs_validate k (gs_Params gs) = Ok ()" and "gs_Auctions gs = []" "gs_AllowedBidderRecords gs = []"
      "gs_Bids gs = []" "gs_VestingQueues gs = []"
    and "1 \<le> unat (ExtendedPeriod (gs_Params gs)) \<and> unat (ExtendedPeriod (gs_Params gs)) < 10"
proof -
  obtain n r1 where n: "RandIntBetween e r 0 100000000 = (n, r1)" by (cases "RandIntBetween e r 0 100000000")
  obtain m r2 where m: "RandIntBetween e r1 1 10 = (m, r2)" by (cases "RandIntBetween e r1 1 10")
  note n0 = between_Ok [OF n] and m0 = between_Ok [OF m]
  let ?fee = "if n = 0 then [] else [Coin (DefaultBondDenom e) n]"
  let ?gs = "\<lparr> gs_Params = \<lparr> AuctionCreationFee = ?fee, PlaceBidFee = [], ExtendedPeriod = word_of_int m \<rparr>,
    gs_Auctions = [], gs_AllowedBidderRecords = [], gs_Bids = [], gs_VestingQueues = [] \<rparr>"
  have "NewCoins k [Coin (DefaultBondDenom e) n] = Some ?fee"
    using n0 by (simp add: NewCoins_law CoinValidate_law bond_valid)
  then have "GenAuctionCreationFee k e r = (Ok ?fee, r1)"
    using n0 by (simp add: GenAuctionCreationFee_def n NewCoin_law bond_valid)
  moreover have "GenExtendedPeriod e r1 = (word_of_int m, r2)"
    by (simp add: GenExtendedPeriod_def DefaultParams_def m)
  ultimately have run: "RandomizedGenState k e None None r = (Ok ?gs, r2)" by (simp add: RandomizedGenState_def)
  have fee: "CoinsValidate k ?fee" using n0 coins_valid bond_valid by simp
  have "unat (word_of_int m :: uint32) = nat m" using m0 by (simp add: unat_eq_nat_uint uint_word_of_int_eq take_bit_int_eq_self)
  then have "1 \<le> unat (word_of_int m :: uint32) \<and> unat (word_of_int m :: uint32) < 10" using m0 by auto
  then show thesis
    using that [OF run] fee coins_valid(2)
    by (simp add: GenesisState_Validate_def Params_Validate_def ParamSetPairs_validate_def validateAuctionCreationFee_def
        validatePlaceBidFee_def validateExtendedPeriod_def check_def validateAll_def)
qed

end

section \<open>Printing store entries\<close>

lemmas key_prefixes = LastAuctionIdKey_def LastBidIdKeyPrefix_def AuctionKeyPrefix_def AllowedBidderKeyPrefix_def
  BidKeyPrefix_def BidIndexKeyPrefix_def MatchedBidsLenPrefix_def VestingQueueKeyPrefix_def

text \<open>The decoder knows the entries of auctions, bids and vesting queues; the other five kinds of entries
  of the module's store make it panic.\<close>

theorem decoder_panics_on_other_entries:
  "NewDecodeStore da db dq (LastAuctionIdKey, v) kv = Panic"
  "NewDecodeStore da db dq (GetLastBidIdKey L i, v) kv = Panic"
  "GetAllowedBidderKey L i x = Some key \<Longrightarrow> NewDecodeStore da db dq (key, v) kv = Panic"
  "GetBidIndexKey L x i n = Some key \<Longrightarrow> NewDecodeStore da db dq (key, v) kv = Panic"
  "NewDecodeStore da db dq (GetLastMatchedBidsLenKey L i, v) kv = Panic"
  by (auto simp: NewDecodeStore_def key_prefixes GetLastBidIdKey_def GetAllowedBidderKey_def GetBidIndexKey_def
      GetLastMatchedBidsLenKey_def)

section \<open>A concrete environment\<close>

definition refEnv :: "ledger simenv" where
  "refEnv =
   \<lparr> DefaultBondDenom = ''stake'', mintModuleName = ''mint'',
     NewDecWithPrec = (\<lambda>n p. Dec (n * 10 ^ nat (18 - p))),
     CoinsAddCoin = (\<lambda>cs c. Some (cs @ [c])),
     SpendableCoins = (\<lambda>b x. filter (\<lambda>c. 0 < Amount c) (map (\<lambda>d. Coin d (int (b x d))) (''stake'' # testCoinDenoms))),
     SafeSub = (\<lambda>cs ds. (cs, \<exists>d \<in> Denom ` set ds. coinsAmount cs d < coinsAmount ds d)),
     MintCoins = (\<lambda>b m cs. (None, credit b (bytesOf m) cs)),
     SendCoinsFromModuleToAccount = (\<lambda>b m x cs. refSend b (bytesOf m) x cs),
     GetAccount = (\<lambda>x. if usableAddress x then Some x else None),
     RandomAcc = (\<lambda>r accs. if accs = [] then None else Some (accs ! (shd r mod length accs), stl r)),
     RandIntBetween = (\<lambda>r m n. (m + int (shd r) mod (n - m), stl r)) \<rparr>"

interpretation ref_sim: sim_laws reference communityPool refEnv
proof unfold_locales
  fix m n :: int and r :: rand
  assume "m < n"
  then have "0 \<le> int (shd r) mod (n - m) \<and> int (shd r) mod (n - m) < n - m" by simp
  then show "m \<le> fst (RandIntBetween refEnv r m n) \<and> fst (RandIntBetween refEnv r m n) < n"
    by (simp add: refEnv_def)
qed (auto simp: refEnv_def refValidateDenom_def testCoinDenoms_def split: if_splits)

section \<open>Properties\<close>



text \<open>A random genesis state passes its validation, and from it the module starts, with the drawn
  parameters, in a reachable state; the drawn extended period is between one and nine days.\<close>

theorem random_genesis_starts_the_module:
  assumes "sim_laws k pool e" and "emptyStore s"
  shows "\<exists>gs r'. RandomizedGenState k e None None r = (Ok gs, r') \<and> GenesisState_Validate k gs = Ok ()
    \<and> InitGenesis k gs s = (Ok (), s\<lparr>params := gs_Params gs\<rparr>) \<and> reachable k (s\<lparr>params := gs_Params gs\<rparr>)
    \<and> 1 \<le> unat (ExtendedPeriod (gs_Params gs)) \<and> unat (ExtendedPeriod (gs_Params gs)) \<le> 9"
proof -
  obtain gs r' where gs: "RandomizedGenState k e None None r = (Ok gs, r')" "GenesisState_Validate k gs = Ok ()"
    and valid: "ParamSetPairs_validate k (gs_Params gs) = Ok ()"
    and empty: "gs_Auctions gs = []" "gs_AllowedBidderRecords gs = []" "gs_Bids gs = []" "gs_VestingQueues gs = []"
    and period: "1 \<le> unat (ExtendedPeriod (gs_Params gs)) \<and> unat (ExtendedPeriod (gs_Params gs)) < 10"
    by (rule sim_laws.random_genesis [OF assms(1), of r])
  have "InitGenesis k gs s = (Ok (), s\<lparr>params := gs_Params gs\<rparr>)"
    by (simp add: InitGenesis_def SetParams_def monad_simps gs(2) valid empty)
  moreover have "reachable k (s\<lparr>params := gs_Params gs\<rparr>)"
    using assms(2) unfolding reachable_def by (intro exI [of _ "s\<lparr>params := gs_Params gs\<rparr>"]) (simp add: emptyStore_def)
  ultimately show ?thesis using gs period by auto
qed

theorem random_genesis_starts_the_module_witness:
  "\<exists>gs r'. RandomizedGenState reference refEnv None None (sconst 3) = (Ok gs, r')
    \<and> InitGenesis reference gs startState = (Ok (), startState\<lparr>params := gs_Params gs\<rparr>)"
  using random_genesis_starts_the_module [OF ref_sim.sim_laws_axioms startState_empty, of "sconst 3"] by blast

end
