(* ===== verification/GenAccounts.thy ===== *)
theory GenAccounts
  imports Client Reference
begin

text \<open>
  The daemon's command that adds an account to the genesis file (\<^verbatim>\<open>cmd/genaccounts.go\<close>).

  The state of the command is the genesis file. Accounts, the auth and bank modules, the keyring, the
  coin parser and the codecs belong to the SDK: they are the parameters of the record \<open>genlib\<close>, over
  the types of accounts, packed accounts, JSON texts, genesis documents and files. A module's part of
  the genesis state is found under the module's name. What is relied on is the locale \<open>genesis_files\<close>.
\<close>

type_synonym int64 = "64 word"

record Balance =
  bal_Address :: string
  bal_Coins :: coins

text \<open>The genesis state of the auth and of the bank module: the field that the command writes, and
  the other fields.\<close>

record ('any, 'p) AuthGenesis =
  ag_Accounts :: "'any list"
  ag_Rest :: 'p

record 'p BankGenesis =
  bg_Balances :: "Balance list"
  bg_Rest :: 'p

text \<open>\<open>Keybase\<close> is \<open>keyring.New\<close> with the method \<open>Key\<close> of the keyring and \<open>GetAddress\<close> of the key it
  finds. \<open>GetAuthGenesis\<close> and \<open>GetBankGenesis\<close> panic on a text they cannot decode.\<close>

record ('acc, 'any, 'p, 'json, 'doc, 'file) genlib =
  ParseCoinsNormalized :: "string \<Rightarrow> coins option"
  CoinsSort :: "coins \<Rightarrow> coins"
  CoinsIsZero :: "coins \<Rightarrow> bool"
  CoinsIsAnyGT :: "coins \<Rightarrow> coins \<Rightarrow> bool"
  Keybase :: "string \<Rightarrow> (string \<Rightarrow> accAddress option option) option"
  FlagKeyringBackend :: string
  FlagVestingStart :: int64
  FlagVestingEnd :: int64
  FlagVestingAmt :: string
  NewBaseAccount :: "accAddress \<Rightarrow> 'acc"
  NewBaseVestingAccount :: "'acc \<Rightarrow> coins \<Rightarrow> int64 \<Rightarrow> 'acc"
  OriginalVesting :: "'acc \<Rightarrow> coins"
  NewContinuousVestingAccountRaw :: "'acc \<Rightarrow> int64 \<Rightarrow> 'acc"
  NewDelayedVestingAccountRaw :: "'acc \<Rightarrow> 'acc"
  AccountAddress :: "'acc \<Rightarrow> accAddress"
  ValidateAccount :: "'acc \<Rightarrow> bool"
  AccountsContain :: "'acc list \<Rightarrow> accAddress \<Rightarrow> bool"
  SanitizeGenesisAccounts :: "'acc list \<Rightarrow> 'acc list"
  SanitizeGenesisBalances :: "Balance list \<Rightarrow> Balance list"
  PackAccounts :: "'acc list \<Rightarrow> 'any list option"
  UnpackAccounts :: "'any list \<Rightarrow> 'acc list option"
  authModule :: string
  bankModule :: string
  GetAuthGenesis :: "(string \<rightharpoonup> 'json) \<Rightarrow> ('any, 'p) AuthGenesis option"
  GetBankGenesis :: "(string \<rightharpoonup> 'json) \<Rightarrow> 'p BankGenesis option"
  MarshalAuthGenesis :: "('any, 'p) AuthGenesis \<Rightarrow> 'json option"
  MarshalBankGenesis :: "'p BankGenesis \<Rightarrow> 'json option"
  MarshalAppState :: "(string \<rightharpoonup> 'json) \<Rightarrow> 'json option"
  GenesisStateFromGenFile :: "'file \<Rightarrow> ((string \<rightharpoonup> 'json) \<times> 'doc) option"
  ExportGenesisFile :: "'doc \<Rightarrow> 'json \<Rightarrow> 'file \<Rightarrow> 'file option"

datatype genError =
    GenWrongArguments | FailedToParseCoins | FailedToLookupKeyring | FailedToGetAddress
  | FailedToParseVestingAmount | VestingAmountGreaterThanTotal | InvalidVestingParameters
  | FailedToValidateAccount | FailedToUnmarshalGenesis | FailedToGetAccounts | AccountExists
  | FailedToConvertAccounts | FailedToMarshal | FailedToExport

type_synonym 'a gres = "(genError, 'a) result"

definition orGenErr :: "genError \<Rightarrow> 'a option \<Rightarrow> 'a gres" where
  "orGenErr e x = (case x of None \<Rightarrow> Err e | Some y \<Rightarrow> Ok y)"

section \<open>The command\<close>

text \<open>The first argument. An argument that is not an address leaves \<open>addr\<close> empty; it has to be the
  name of a key with an address, which the code does not use.\<close>

definition addressArg ::
    "'z sdk_scheme \<Rightarrow> ('acc, 'any, 'p, 'json, 'doc, 'file) genlib \<Rightarrow> string \<Rightarrow> accAddress gres" where
  "addressArg S G arg =
     (case AccAddressFromBech32 S arg of
        Some addr \<Rightarrow> Ok addr
      | None \<Rightarrow>
          bindR (orGenErr FailedToLookupKeyring (Keybase G (FlagKeyringBackend G))) (\<lambda>kb.
          bindR (orGenErr FailedToGetAddress (kb arg)) (\<lambda>info.
          bindR (orGenErr FailedToGetAddress info) (\<lambda>_.
          Ok []))))"

text \<open>The concrete account type, by the vesting flags.\<close>

definition accountFor ::
    "('acc, 'any, 'p, 'json, 'doc, 'file) genlib \<Rightarrow> accAddress \<Rightarrow> Balance \<Rightarrow> coins \<Rightarrow> 'acc gres" where
  "accountFor G addr balances vestingAmt =
     (let baseAccount = NewBaseAccount G addr in
      if \<not> CoinsIsZero G vestingAmt
      then let baseVestingAccount = NewBaseVestingAccount G baseAccount (CoinsSort G vestingAmt) (FlagVestingEnd G) in
        if CoinsIsZero G (bal_Coins balances) \<and> \<not> CoinsIsZero G (OriginalVesting G baseVestingAccount)
          \<or> CoinsIsAnyGT G (OriginalVesting G baseVestingAccount) (bal_Coins balances)
        then Err VestingAmountGreaterThanTotal
        else if FlagVestingStart G \<noteq> 0 \<and> FlagVestingEnd G \<noteq> 0
        then Ok (NewContinuousVestingAccountRaw G baseVestingAccount (FlagVestingStart G))
        else if FlagVestingEnd G \<noteq> 0
        then Ok (NewDelayedVestingAccountRaw G baseVestingAccount)
        else Err InvalidVestingParameters
      else Ok baseAccount)"

text \<open>The new genesis state: the account goes to the auth module, its balance to the bank module.\<close>

definition addToAuth ::
    "('acc, 'any, 'p, 'json, 'doc, 'file) genlib \<Rightarrow> accAddress \<Rightarrow> 'acc \<Rightarrow> (string \<rightharpoonup> 'json)
      \<Rightarrow> (string \<rightharpoonup> 'json) gres" where
  "addToAuth G addr genAccount appState =
     bindR (orPanic (GetAuthGenesis G appState)) (\<lambda>authGenState.
     bindR (orGenErr FailedToGetAccounts (UnpackAccounts G (ag_Accounts authGenState))) (\<lambda>accs.
     if AccountsContain G accs addr then Err AccountExists
     else
     bindR (orGenErr FailedToConvertAccounts
       (PackAccounts G (SanitizeGenesisAccounts G (accs @ [genAccount])))) (\<lambda>genAccs.
     bindR (orGenErr FailedToMarshal (MarshalAuthGenesis G (authGenState\<lparr>ag_Accounts := genAccs\<rparr>))) (\<lambda>bz.
     Ok (appState(authModule G \<mapsto> bz))))))"

definition addToBank ::
    "('acc, 'any, 'p, 'json, 'doc, 'file) genlib \<Rightarrow> Balance \<Rightarrow> (string \<rightharpoonup> 'json)
      \<Rightarrow> (string \<rightharpoonup> 'json) gres" where
  "addToBank G balances appState =
     bindR (orPanic (GetBankGenesis G appState)) (\<lambda>bankGenState.
     bindR (orGenErr FailedToMarshal (MarshalBankGenesis G (bankGenState\<lparr>bg_Balances :=
       SanitizeGenesisBalances G (bg_Balances bankGenState @ [balances])\<rparr>))) (\<lambda>bz.
     Ok (appState(bankModule G \<mapsto> bz))))"

definition AddGenesisAccountCmd ::
    "'z sdk_scheme \<Rightarrow> ('acc, 'any, 'p, 'json, 'doc, 'file) genlib \<Rightarrow> string list
      \<Rightarrow> ('file, genError, unit) comp" where
  "AddGenesisAccountCmd S G args =
     (if length args \<noteq> 2 then raiseM GenWrongArguments else
     bindM (liftR (orGenErr FailedToParseCoins (ParseCoinsNormalized G (args ! 1)))) (\<lambda>coins.
     bindM (liftR (addressArg S G (args ! 0))) (\<lambda>addr.
     bindM (liftR (orGenErr FailedToParseVestingAmount (ParseCoinsNormalized G (FlagVestingAmt G)))) (\<lambda>vestingAmt.
     let balances = \<lparr> bal_Address = AccAddressString S addr, bal_Coins = CoinsSort G coins \<rparr> in
     bindM (liftR (accountFor G addr balances vestingAmt)) (\<lambda>genAccount.
     bindM (guardM (\<not> ValidateAccount G genAccount) FailedToValidateAccount) (\<lambda>_.
     bindM (getsM (GenesisStateFromGenFile G)) (\<lambda>found. case found of
       None \<Rightarrow> raiseM FailedToUnmarshalGenesis
     | Some (appState, genDoc) \<Rightarrow>
     bindM (liftR (addToAuth G addr genAccount appState)) (\<lambda>appState1.
     bindM (liftR (addToBank G balances appState1)) (\<lambda>appState2.
     bindM (liftR (orGenErr FailedToMarshal (MarshalAppState G appState2))) (\<lambda>appStateJSON.
     bindM (getsM (ExportGenesisFile G genDoc appStateJSON)) (\<lambda>written. case written of
       None \<Rightarrow> raiseM FailedToExport
     | Some genFile \<Rightarrow> modifyM (\<lambda>_. genFile))))))))))))"

section \<open>What the command relies on\<close>

text \<open>What is written can be read; the accounts know their addresses; sanitizing sorts accounts and
  balances and numbers the accounts anew, without adding or losing an address.\<close>

locale genesis_files =
  fixes G :: "('acc, 'any, 'p, 'json, 'doc, 'file) genlib"
  assumes modules_differ: "authModule G \<noteq> bankModule G"
    and base_address: "usableAddress x \<or> x = [] \<Longrightarrow> AccountAddress G (NewBaseAccount G x) = x"
    and vesting_address:
      "AccountAddress G (NewBaseVestingAccount G acc c e) = AccountAddress G acc"
      "AccountAddress G (NewContinuousVestingAccountRaw G acc e) = AccountAddress G acc"
      "AccountAddress G (NewDelayedVestingAccountRaw G acc) = AccountAddress G acc"
    and contain_law: "AccountsContain G accs x \<longleftrightarrow> x \<in> AccountAddress G ` set accs"
    and sanitize_accounts:
      "mset (map (AccountAddress G) (SanitizeGenesisAccounts G accs)) = mset (map (AccountAddress G) accs)"
    and sanitize_balances:
      "mset (map bal_Address (SanitizeGenesisBalances G bs)) = mset (map bal_Address bs)"
    and pack_read: "PackAccounts G accs = Some packed \<Longrightarrow> UnpackAccounts G packed = Some accs"
    and auth_read:
      "MarshalAuthGenesis G ag = Some bz \<Longrightarrow> appState (authModule G) = Some bz \<Longrightarrow> GetAuthGenesis G appState = Some ag"
    and bank_read:
      "MarshalBankGenesis G bg = Some bz \<Longrightarrow> appState (bankModule G) = Some bz \<Longrightarrow> GetBankGenesis G appState = Some bg"
    and bank_local:
      "appState (bankModule G) = appState' (bankModule G) \<Longrightarrow> GetBankGenesis G appState = GetBankGenesis G appState'"
    and file_read:
      "MarshalAppState G appState = Some bz \<Longrightarrow> ExportGenesisFile G genDoc bz f = Some f' \<Longrightarrow>
        \<exists>genDoc'. GenesisStateFromGenFile G f' = Some (appState, genDoc')"
begin

lemma accountFor_address:
  "accountFor G x b v = Ok acc \<Longrightarrow> usableAddress x \<or> x = [] \<Longrightarrow> AccountAddress G acc = x"
  by (auto simp: accountFor_def Let_def base_address vesting_address split: if_split_asm)

lemma addToAuth_effect:
  assumes "addToAuth G x acc appState = Ok appState'" and "AccountAddress G acc = x"
  shows "\<exists>ag accs bz ag' accs'. GetAuthGenesis G appState = Some ag \<and> UnpackAccounts G (ag_Accounts ag) = Some accs
    \<and> x \<notin> AccountAddress G ` set accs
    \<and> appState' = appState(authModule G \<mapsto> bz) \<and> MarshalAuthGenesis G ag' = Some bz
    \<and> UnpackAccounts G (ag_Accounts ag') = Some accs'
    \<and> mset (map (AccountAddress G) accs') = add_mset x (mset (map (AccountAddress G) accs))"
proof -
  obtain ag accs packed bz where r: "GetAuthGenesis G appState = Some ag" "UnpackAccounts G (ag_Accounts ag) = Some accs"
    "x \<notin> AccountAddress G ` set accs" "PackAccounts G (SanitizeGenesisAccounts G (accs @ [acc])) = Some packed"
    "MarshalAuthGenesis G (ag\<lparr>ag_Accounts := packed\<rparr>) = Some bz" "appState' = appState(authModule G \<mapsto> bz)"
    using assms(1)
    by (auto simp: addToAuth_def bindR_Ok_iff orGenErr_def contain_law split: if_split_asm option.split_asm)
  have "mset (map (AccountAddress G) (SanitizeGenesisAccounts G (accs @ [acc])))
      = add_mset x (mset (map (AccountAddress G) accs))"
    unfolding sanitize_accounts by (simp add: assms(2))
  moreover have "UnpackAccounts G (ag_Accounts (ag\<lparr>ag_Accounts := packed\<rparr>)) = Some (SanitizeGenesisAccounts G (accs @ [acc]))"
    using pack_read [OF r(4)] by simp
  ultimately show ?thesis using r by blast
qed

lemma addToBank_effect:
  assumes "addToBank G b appState = Ok appState'"
  shows "\<exists>bg bz bg'. GetBankGenesis G appState = Some bg \<and> appState' = appState(bankModule G \<mapsto> bz)
    \<and> MarshalBankGenesis G bg' = Some bz
    \<and> mset (map bal_Address (bg_Balances bg')) = add_mset (bal_Address b) (mset (map bal_Address (bg_Balances bg)))"
proof -
  obtain bg bz where r: "GetBankGenesis G appState = Some bg" "appState' = appState(bankModule G \<mapsto> bz)"
    "MarshalBankGenesis G (bg\<lparr>bg_Balances := SanitizeGenesisBalances G (bg_Balances bg @ [b])\<rparr>) = Some bz"
    using assms by (auto simp: addToBank_def bindR_Ok_iff orGenErr_def split: option.split_asm)
  have "mset (map bal_Address (SanitizeGenesisBalances G (bg_Balances bg @ [b])))
      = add_mset (bal_Address b) (mset (map bal_Address (bg_Balances bg)))"
    unfolding sanitize_balances by simp
  then show ?thesis using r by (intro exI [of _ bg] exI [of _ bz] exI conjI) auto
qed

end

text \<open>What a genesis file holds.\<close>

definition moduleState :: "('acc, 'any, 'p, 'json, 'doc, 'file) genlib \<Rightarrow> 'file \<Rightarrow> string \<Rightarrow> 'json option" where
  "moduleState G f m = (case GenesisStateFromGenFile G f of None \<Rightarrow> None | Some (appState, _) \<Rightarrow> appState m)"

definition accountsOf :: "('acc, 'any, 'p, 'json, 'doc, 'file) genlib \<Rightarrow> 'file \<Rightarrow> accAddress multiset" where
  "accountsOf G f = (case GenesisStateFromGenFile G f of None \<Rightarrow> {#} | Some (appState, _) \<Rightarrow>
     (case GetAuthGenesis G appState of None \<Rightarrow> {#} | Some ag \<Rightarrow>
     (case UnpackAccounts G (ag_Accounts ag) of None \<Rightarrow> {#} | Some accs \<Rightarrow> mset (map (AccountAddress G) accs))))"

definition holdersOf :: "('acc, 'any, 'p, 'json, 'doc, 'file) genlib \<Rightarrow> 'file \<Rightarrow> string multiset" where
  "holdersOf G f = (case GenesisStateFromGenFile G f of None \<Rightarrow> {#} | Some (appState, _) \<Rightarrow>
     (case GetBankGenesis G appState of None \<Rightarrow> {#} | Some bg \<Rightarrow> mset (map bal_Address (bg_Balances bg))))"

section \<open>A library\<close>

datatype refAccount = RefAccount accAddress | RefVesting accAddress coins "int64 option" int64

datatype refJson =
    AuthJson "(refAccount, unit) AuthGenesis"
  | BankJson "unit BankGenesis"
  | AppJson "string \<Rightarrow> refJson option"

fun refAddress :: "refAccount \<Rightarrow> accAddress" where
  "refAddress (RefAccount x) = x"
| "refAddress (RefVesting x _ _ _) = x"

fun refOriginal :: "refAccount \<Rightarrow> coins" where
  "refOriginal (RefAccount x) = []"
| "refOriginal (RefVesting _ c _ _) = c"

fun refContinuous :: "refAccount \<Rightarrow> int64 \<Rightarrow> refAccount" where
  "refContinuous (RefAccount x) st = RefAccount x"
| "refContinuous (RefVesting x c _ e) st = RefVesting x c (Some st) e"

definition refGenlib :: "(refAccount, refAccount, unit, refJson, unit, refJson) genlib" where
  "refGenlib =
   \<lparr> ParseCoinsNormalized = (\<lambda>t. Some (if t = [] then [] else [Coin t 100])), CoinsSort = (\<lambda>c. c),
     CoinsIsZero = list_all (\<lambda>c. Amount c = 0),
     CoinsIsAnyGT = (\<lambda>c c'. list_ex (\<lambda>x. list_ex (\<lambda>y. Denom x = Denom y \<and> Amount y < Amount x) c') c),
     Keybase = (\<lambda>_. Some (\<lambda>_. Some (Some [1, 2, 3]))),
     FlagKeyringBackend = ''os'', FlagVestingStart = 0, FlagVestingEnd = 0, FlagVestingAmt = [],
     NewBaseAccount = RefAccount, NewBaseVestingAccount = (\<lambda>a c e. RefVesting (refAddress a) c None e),
     OriginalVesting = refOriginal, NewContinuousVestingAccountRaw = refContinuous,
     NewDelayedVestingAccountRaw = (\<lambda>a. a), AccountAddress = refAddress, ValidateAccount = (\<lambda>_. True),
     AccountsContain = (\<lambda>as x. x \<in> refAddress ` set as), SanitizeGenesisAccounts = (\<lambda>as. as),
     SanitizeGenesisBalances = (\<lambda>bs. bs), PackAccounts = Some, UnpackAccounts = Some,
     authModule = ''auth'', bankModule = ''bank'',
     GetAuthGenesis = (\<lambda>m. case m ''auth'' of Some (AuthJson g) \<Rightarrow> Some g | _ \<Rightarrow> None),
     GetBankGenesis = (\<lambda>m. case m ''bank'' of Some (BankJson g) \<Rightarrow> Some g | _ \<Rightarrow> None),
     MarshalAuthGenesis = (\<lambda>g. Some (AuthJson g)), MarshalBankGenesis = (\<lambda>g. Some (BankJson g)),
     MarshalAppState = (\<lambda>m. Some (AppJson m)),
     GenesisStateFromGenFile = (\<lambda>f. case f of AppJson m \<Rightarrow> Some (m, ()) | _ \<Rightarrow> None),
     ExportGenesisFile = (\<lambda>_ j _. Some j) \<rparr>"

interpretation ref_genesis: genesis_files refGenlib
proof unfold_locales
  show "AccountAddress refGenlib (NewContinuousVestingAccountRaw refGenlib acc e) = AccountAddress refGenlib acc" for acc e
    by (cases acc) (simp_all add: refGenlib_def)
qed (auto simp: refGenlib_def split: option.split refJson.split)

section \<open>What the command does\<close>

definition argAddress :: "'z sdk_scheme \<Rightarrow> string \<Rightarrow> accAddress" where
  "argAddress S x = (case AccAddressFromBech32 S x of Some a \<Rightarrow> a | None \<Rightarrow> [])"

lemma addressArg_Ok: "addressArg S G x = Ok a \<Longrightarrow> a = argAddress S x"
  by (auto simp: addressArg_def argAddress_def bindR_Ok_iff split: option.splits)

lemma argAddress_usable: "address_laws S md N \<Longrightarrow> usableAddress (argAddress S x) \<or> argAddress S x = []"
  by (auto simp: argAddress_def dest: address_laws.bech32_usable split: option.split)

lemma command_run:
  assumes "AddGenesisAccountCmd S G [x, c] f = (Ok (), f')"
  shows "\<exists>coins vestingAmt acc appState doc appState1 appState2 bz.
    accountFor G (argAddress S x) \<lparr> bal_Address = AccAddressString S (argAddress S x), bal_Coins = coins \<rparr> vestingAmt = Ok acc
    \<and> GenesisStateFromGenFile G f = Some (appState, doc)
    \<and> addToAuth G (argAddress S x) acc appState = Ok appState1
    \<and> addToBank G \<lparr> bal_Address = AccAddressString S (argAddress S x), bal_Coins = coins \<rparr> appState1 = Ok appState2
    \<and> MarshalAppState G appState2 = Some bz \<and> ExportGenesisFile G doc bz f = Some f'"
  using assms
  by (auto simp: AddGenesisAccountCmd_def bindM_def liftR_def guardM_def getsM_def modifyM_def raiseM_def returnM_def
      Let_def orGenErr_def dest!: addressArg_Ok
      split: result.split_asm option.split_asm prod.split_asm if_split_asm) blast

lemma failed_command_writes_nothing:
  "AddGenesisAccountCmd S G args f = (r, f') \<Longrightarrow> r \<noteq> Ok () \<Longrightarrow> f' = f"
  by (auto simp: AddGenesisAccountCmd_def bindM_def liftR_def guardM_def getsM_def modifyM_def raiseM_def returnM_def
      Let_def split: result.split_asm option.split_asm prod.split_asm if_split_asm)


text \<open>A file with the account of Alice.\<close>

definition refFile :: refJson where
  "refFile = AppJson [''auth'' \<mapsto> AuthJson \<lparr> ag_Accounts = [RefAccount (bytesOf ''alice'')], ag_Rest = () \<rparr>,
     ''bank'' \<mapsto> BankJson \<lparr> bg_Balances = [\<lparr> bal_Address = ''alice'', bal_Coins = [Coin ''stake'' 1] \<rparr>], bg_Rest = () \<rparr>]"

text \<open>The name of a key: too long for an address.\<close>

definition keyName :: string where
  "keyName = replicate 256 (CHR ''k'')"


end
