(* ===== verification/AppState.thy ===== *)
theory AppState
  imports GenAccounts Simulator
begin

text \<open>
  The state with which the application's simulation starts (\<^verbatim>\<open>app/state.go\<close>): read from a genesis
  file, or drawn with the generators of the modules, and completed by the balance that backs the
  tokens of the validators that are not bonded.

  The only state is the random source. Files, decoders, the generators of the modules and the key
  generation are parameters, the record \<open>simlib\<close>; every failure is a panic. The printing of the drawn
  numbers is left out.
\<close>

datatype BondStatus = BondUnspecified | Unbonded | Unbonding | Bonded

record Validator =
  val_Status :: BondStatus
  val_Tokens :: int

record 'p StakingGenesis =
  sg_Validators :: "Validator list"
  sg_BondDenom :: denom
  sg_Rest :: 'p

record 'json GenesisDoc =
  gd_GenesisTime :: time
  gd_ChainID :: string
  gd_AppState :: 'json

record ('key, 'pub) simAccount =
  sa_PrivKey :: 'key
  sa_PubKey :: 'pub
  sa_Address :: accAddress

record simConfig =
  cfg_ChainID :: string
  cfg_ParamsFile :: string
  cfg_GenesisFile :: string

text \<open>What the generators of the modules get. They change the genesis state and draw.\<close>

record ('appParams, 'json, 'key, 'pub) SimulationState =
  ss_AppParams :: 'appParams
  ss_GenState :: "string \<rightharpoonup> 'json"
  ss_Accounts :: "('key, 'pub) simAccount list"
  ss_InitialStake :: int
  ss_NumBonded :: int
  ss_GenTimestamp :: time

record ('any, 'p, 'json, 'appParams, 'key, 'pub) simlib =
  FlagGenesisTimeValue :: int
  sl_ReadFile :: "string \<Rightarrow> string option"
  UnmarshalGenesisDoc :: "string \<Rightarrow> 'json GenesisDoc option"
  UnmarshalAppParams :: "string \<Rightarrow> 'appParams option"
  noAppParams :: 'appParams
  givenParam :: "'appParams \<Rightarrow> string \<Rightarrow> int option"
  StakePerAccount :: string
  InitiallyBondedValidators :: string
  RandTimestamp :: "rand \<Rightarrow> time \<times> rand"
  ReadSeed :: "rand \<Rightarrow> byte list option \<times> rand"
  GenPrivKeyFromSecret :: "byte list \<Rightarrow> 'key"
  PubKey :: "'key \<Rightarrow> 'pub"
  CachedAddress :: "'any \<Rightarrow> accAddress option"
  DefaultGenesis :: "string \<rightharpoonup> 'json"
  GenerateGenesisStates ::
    "('appParams, 'json, 'key, 'pub) SimulationState \<Rightarrow> rand \<Rightarrow> (string \<rightharpoonup> 'json) option \<times> rand"
  UnmarshalState :: "'json \<Rightarrow> (string \<rightharpoonup> 'json) option"
  MarshalState :: "(string \<rightharpoonup> 'json) \<Rightarrow> 'json option"
  UnmarshalAuth :: "'json \<Rightarrow> ('any, 'p) AuthGenesis option"
  UnmarshalStaking :: "'json \<Rightarrow> 'p StakingGenesis option"
  UnmarshalBank :: "'json \<Rightarrow> 'p BankGenesis option"
  MustMarshalStaking :: "'p StakingGenesis \<Rightarrow> 'json option"
  MustMarshalBank :: "'p BankGenesis \<Rightarrow> 'json option"
  authName :: string
  stakingName :: string
  bankName :: string
  NotBondedPoolName :: string
  NewModuleAddress :: "string \<Rightarrow> accAddress"

type_synonym 'a rcomp = "(rand, error, 'a) comp"

definition drawR :: "(rand \<Rightarrow> 'a \<times> rand) \<Rightarrow> 'a rcomp" where
  "drawR d = (\<lambda>r. let (x, r') = d r in (Ok x, r'))"

text \<open>\<open>Int63n\<close> and \<open>Intn\<close> for a positive bound.\<close>

definition drawBelow :: "int \<Rightarrow> int rcomp" where
  "drawBelow n = drawR (\<lambda>r. (int (shd r mod nat n), stl r))"

section \<open>A genesis file\<close>

definition simAccountOf ::
    "('any, 'p, 'json, 'appParams, 'key, 'pub) simlib \<Rightarrow> 'any \<Rightarrow> ('key, 'pub) simAccount rcomp" where
  "simAccountOf L acc =
     bindM (drawR (ReadSeed L)) (\<lambda>read.
     bindM (liftR (orPanic read)) (\<lambda>privkeySeed.
     let privKey = GenPrivKeyFromSecret L privkeySeed in
     bindM (liftR (orPanic (CachedAddress L acc))) (\<lambda>a.
     returnM \<lparr> sa_PrivKey = privKey, sa_PubKey = PubKey L privKey, sa_Address = a \<rparr>)))"

fun simAccountsOf ::
    "('any, 'p, 'json, 'appParams, 'key, 'pub) simlib \<Rightarrow> 'any list \<Rightarrow> ('key, 'pub) simAccount list rcomp" where
  "simAccountsOf L [] = returnM []"
| "simAccountsOf L (acc # accs) =
     bindM (simAccountOf L acc) (\<lambda>simAcc.
     bindM (simAccountsOf L accs) (\<lambda>rest.
     returnM (simAcc # rest)))"

definition AppStateFromGenesisFileFn ::
    "('any, 'p, 'json, 'appParams, 'key, 'pub) simlib \<Rightarrow> string
      \<Rightarrow> ('json GenesisDoc \<times> ('key, 'pub) simAccount list) rcomp" where
  "AppStateFromGenesisFileFn L genesisFile =
     bindM (liftR (orPanic (sl_ReadFile L genesisFile))) (\<lambda>bytes.
     bindM (liftR (orPanic (UnmarshalGenesisDoc L bytes))) (\<lambda>genesis.
     bindM (liftR (orPanic (UnmarshalState L (gd_AppState genesis)))) (\<lambda>appState.
     bindM (case appState (authName L) of
              None \<Rightarrow> returnM []
            | Some bz \<Rightarrow> liftR (orPanic (map_option ag_Accounts (UnmarshalAuth L bz)))) (\<lambda>accounts.
     bindM (simAccountsOf L accounts) (\<lambda>newAccs.
     returnM (genesis, newAccs))))))"

section \<open>A drawn state\<close>

text \<open>\<open>GetOrGenerate\<close>: the value among the parameters, or a drawn one.\<close>

definition givenOr ::
    "('any, 'p, 'json, 'appParams, 'key, 'pub) simlib \<Rightarrow> 'appParams \<Rightarrow> string \<Rightarrow> int rcomp \<Rightarrow> int rcomp" where
  "givenOr L appParams name d = (case givenParam L appParams name of Some v \<Rightarrow> returnM v | None \<Rightarrow> d)"

definition AppStateRandomizedFn ::
    "('any, 'p, 'json, 'appParams, 'key, 'pub) simlib \<Rightarrow> ('key, 'pub) simAccount list \<Rightarrow> time \<Rightarrow> 'appParams
      \<Rightarrow> ('json \<times> ('key, 'pub) simAccount list) rcomp" where
  "AppStateRandomizedFn L accs genesisTimestamp appParams =
     bindM (givenOr L appParams (StakePerAccount L) (drawBelow (10 ^ 12))) (\<lambda>initialStake.
     bindM (givenOr L appParams (InitiallyBondedValidators L) (drawBelow 300)) (\<lambda>drawn.
     let numAccs = int (length accs);
         numInitiallyBonded = (if numAccs < drawn then numAccs else drawn);
         simState = \<lparr> ss_AppParams = appParams, ss_GenState = DefaultGenesis L, ss_Accounts = accs,
           ss_InitialStake = initialStake, ss_NumBonded = numInitiallyBonded, ss_GenTimestamp = genesisTimestamp \<rparr> in
     bindM (drawR (GenerateGenesisStates L simState)) (\<lambda>generated.
     bindM (liftR (orPanic generated)) (\<lambda>genesisState.
     bindM (liftR (orPanic (MarshalState L genesisState))) (\<lambda>appState.
     returnM (appState, accs))))))"

section \<open>The initial state\<close>

definition notBondedTokens :: "Validator list \<Rightarrow> int" where
  "notBondedTokens vs = foldl (\<lambda>n v. if val_Status v \<noteq> Unbonded then n else n + val_Tokens v) 0 vs"

text \<open>The balance of the pool is added unless there is one.\<close>

definition withPoolBalance ::
    "'z sdk_scheme \<Rightarrow> string \<Rightarrow> coin \<Rightarrow> 'p BankGenesis \<Rightarrow> (error, 'p BankGenesis) result" where
  "withPoolBalance S stakingAddr notBondedCoins bankState =
     (if list_ex (\<lambda>b. bal_Address b = stakingAddr) (bg_Balances bankState) then Ok bankState
      else bindR (orPanic (NewCoins S [notBondedCoins])) (\<lambda>coins.
        Ok (bankState\<lparr>bg_Balances := bg_Balances bankState
          @ [\<lparr> bal_Address = stakingAddr, bal_Coins = coins \<rparr>]\<rparr>)))"

definition backNotBondedPool ::
    "'z sdk_scheme \<Rightarrow> ('any, 'p, 'json, 'appParams, 'key, 'pub) simlib \<Rightarrow> (string \<rightharpoonup> 'json) \<Rightarrow> (string \<rightharpoonup> 'json) rcomp" where
  "backNotBondedPool S L rawState =
     bindM (liftR (orPanic (rawState (stakingName L)))) (\<lambda>stakingStateBz.
     bindM (liftR (orPanic (UnmarshalStaking L stakingStateBz))) (\<lambda>stakingState.
     bindM (liftR (orPanic (NewCoin S (sg_BondDenom stakingState)
       (notBondedTokens (sg_Validators stakingState))))) (\<lambda>notBondedCoins.
     bindM (liftR (orPanic (rawState (bankName L)))) (\<lambda>bankStateBz.
     bindM (liftR (orPanic (UnmarshalBank L bankStateBz))) (\<lambda>bankState.
     let stakingAddr = AccAddressString S (NewModuleAddress L (NotBondedPoolName L)) in
     bindM (liftR (withPoolBalance S stakingAddr notBondedCoins bankState)) (\<lambda>bankState'.
     bindM (liftR (orPanic (MustMarshalStaking L stakingState))) (\<lambda>stakingBz.
     bindM (liftR (orPanic (MustMarshalBank L bankState'))) (\<lambda>bankBz.
     returnM (rawState(stakingName L \<mapsto> stakingBz, bankName L \<mapsto> bankBz))))))))))"

definition AppStateFn ::
    "'z sdk_scheme \<Rightarrow> ('any, 'p, 'json, 'appParams, 'key, 'pub) simlib \<Rightarrow> ('key, 'pub) simAccount list \<Rightarrow> simConfig
      \<Rightarrow> ('json \<times> ('key, 'pub) simAccount list \<times> string \<times> time) rcomp" where
  "AppStateFn S L accs config =
     bindM (if FlagGenesisTimeValue L = 0 then drawR (RandTimestamp L)
            else returnM (FlagGenesisTimeValue L * 10 ^ 9)) (\<lambda>genesisTimestamp.
     bindM
       (if cfg_ParamsFile config \<noteq> [] \<and> cfg_GenesisFile config \<noteq> [] then panicM
        else if cfg_GenesisFile config \<noteq> []
        then bindM (AppStateFromGenesisFileFn L (cfg_GenesisFile config)) (\<lambda>(genesisDoc, accounts).
          returnM (gd_AppState genesisDoc, accounts, gd_ChainID genesisDoc,
            if FlagGenesisTimeValue L = 0 then gd_GenesisTime genesisDoc else genesisTimestamp))
        else bindM
          (if cfg_ParamsFile config \<noteq> []
           then bindM (liftR (orPanic (sl_ReadFile L (cfg_ParamsFile config)))) (\<lambda>bz.
             liftR (orPanic (UnmarshalAppParams L bz)))
           else returnM (noAppParams L)) (\<lambda>appParams.
          bindM (AppStateRandomizedFn L accs genesisTimestamp appParams) (\<lambda>(appState, simAccs).
          returnM (appState, simAccs, cfg_ChainID config, genesisTimestamp))))
       (\<lambda>(appState, simAccs, chainID, timestamp).
     bindM (liftR (orPanic (UnmarshalState L appState))) (\<lambda>rawState.
     bindM (backNotBondedPool S L rawState) (\<lambda>rawState'.
     bindM (liftR (orPanic (MarshalState L rawState'))) (\<lambda>appState'.
     returnM (appState', simAccs, chainID, timestamp))))))"

section \<open>What the initial state holds\<close>

lemma notBondedTokens_sum:
  "notBondedTokens vs = sum_list (map val_Tokens (filter (\<lambda>v. val_Status v = Unbonded) vs))"
proof -
  have "foldl (\<lambda>n v. if val_Status v \<noteq> Unbonded then n else n + val_Tokens v) m vs
      = m + sum_list (map val_Tokens (filter (\<lambda>v. val_Status v = Unbonded) vs))" for m
    by (induction vs arbitrary: m) auto
  then show ?thesis by (simp add: notBondedTokens_def)
qed

text \<open>The pool of the tokens that are not bonded has a balance; when it had none, the new one is the sum
  of the tokens of the unbonded validators. The parts of other modules stay as they are.\<close>

lemma pool_is_backed:
  assumes "coin_laws S" and "backNotBondedPool S L raw r = (Ok raw', r')"
    and bank_read: "\<And>b bz. MustMarshalBank L b = Some bz \<Longrightarrow> UnmarshalBank L bz = Some b"
    and names: "stakingName L \<noteq> bankName L"
  defines "pool \<equiv> AccAddressString S (NewModuleAddress L (NotBondedPoolName L))"
  shows "\<exists>stk bk bz bk'. r' = r \<and> Option.bind (raw (stakingName L)) (UnmarshalStaking L) = Some stk
    \<and> Option.bind (raw (bankName L)) (UnmarshalBank L) = Some bk
    \<and> raw' (bankName L) = Some bz \<and> UnmarshalBank L bz = Some bk'
    \<and> (let n = notBondedTokens (sg_Validators stk) in
       if \<exists>b \<in> set (bg_Balances bk). bal_Address b = pool then bk' = bk
       else bk' = bk\<lparr>bg_Balances := bg_Balances bk
         @ [\<lparr> bal_Address = pool, bal_Coins = (if n = 0 then [] else [Coin (sg_BondDenom stk) n]) \<rparr>]\<rparr>)
    \<and> (\<forall>m. m \<noteq> stakingName L \<longrightarrow> m \<noteq> bankName L \<longrightarrow> raw' m = raw m)"
proof -
  obtain stkBz stk c bkBz bk bk' sBz bBz where r:
    "raw (stakingName L) = Some stkBz" "UnmarshalStaking L stkBz = Some stk"
    "NewCoin S (sg_BondDenom stk) (notBondedTokens (sg_Validators stk)) = Some c"
    "raw (bankName L) = Some bkBz" "UnmarshalBank L bkBz = Some bk"
    "withPoolBalance S pool c bk = Ok bk'"
    "MustMarshalBank L bk' = Some bBz" "raw' = raw(stakingName L \<mapsto> sBz, bankName L \<mapsto> bBz)" "r' = r"
    using assms(2)
    by (auto simp: backNotBondedPool_def Ok_iffs Let_def pool_def)
  have c: "c = Coin (sg_BondDenom stk) (notBondedTokens (sg_Validators stk))"
      "NewCoins S [c] = Some (if notBondedTokens (sg_Validators stk) = 0 then [] else [c])"
    using r(3) coin_laws.NewCoins_law [OF assms(1), of c]
    by (auto simp: coin_laws.NewCoin_law [OF assms(1)] coin_laws.CoinValidate_law [OF assms(1)] split: if_split_asm)
  show ?thesis
    using r c bank_read [OF r(7)] names
    by (auto simp: withPoolBalance_def Let_def list_ex_iff split: if_split_asm)
qed

end
