(* ===== verification/ZeroHeight.thy ===== *)
theory ZeroHeight
  imports Reference
begin

text \<open>
  The export of the application's state for a genesis file (\<^verbatim>\<open>src/app/export.go\<close>), in particular the
  preparation of a state that restarts at height zero.

  The state holds the parts of the staking and slashing stores that the code rewrites, one ordered
  map per key prefix, and the rest of the application as one value of type \<open>'d\<close>: the distribution and
  bank modules, on which alone the keeper functions of the distribution module act. These functions,
  the address codecs and the SDK's own export are parameters, the record \<open>exportlib\<close>. A callback of an
  iteration writes under the key it is called for or outside the iterated prefix; the iteration is
  over the entries there were at its start. \<open>log.Fatal\<close> stops the program as a panic does.
\<close>

type_synonym int64 = "64 word"

section \<open>State\<close>

record 'x StkValidator =
  sv_OperatorAddress :: string
  sv_UnbondingHeight :: int64
  sv_Jailed :: bool
  sv_Rest :: 'x

record StkDelegation =
  dl_DelegatorAddress :: string
  dl_ValidatorAddress :: string

record 'x StkEntry =
  en_CreationHeight :: int64
  en_Rest :: 'x

record 'x Redelegation =
  rd_DelegatorAddress :: string
  rd_ValidatorSrcAddress :: string
  rd_ValidatorDstAddress :: string
  rd_Entries :: "'x StkEntry list"

record 'x UnbondingDelegation =
  ub_DelegatorAddress :: string
  ub_ValidatorAddress :: string
  ub_Entries :: "'x StkEntry list"

record 'x SigningInfo =
  si_StartHeight :: int64
  si_Rest :: 'x

record ('d, 'x) appState =
  as_Height :: int64
  as_Validators :: "(byte list, 'x StkValidator) omap"
  as_Delegations :: "StkDelegation list"
  as_Redelegations :: "(byte list, 'x Redelegation) omap"
  as_UnbondingDelegations :: "(byte list, 'x UnbondingDelegation) omap"
  as_SigningInfos :: "(byte list, 'x SigningInfo) omap"
  as_Others :: 'd

record ('d, 'x, 'c, 'g, 'j, 'w, 'cp) exportlib =
  ValAddressFromBech32 :: "string \<Rightarrow> byte list option"
  ValAddressString :: "byte list \<Rightarrow> string"
  AssertInvariants :: "('d, 'x) appState \<Rightarrow> bool"
  WithdrawValidatorCommission :: "('d, 'x) appState \<Rightarrow> byte list \<Rightarrow> 'd"
  WithdrawDelegationRewards :: "('d, 'x) appState \<Rightarrow> accAddress \<Rightarrow> byte list \<Rightarrow> 'd"
  DeleteAllValidatorSlashEvents :: "'d \<Rightarrow> 'd"
  DeleteAllValidatorHistoricalRewards :: "'d \<Rightarrow> 'd"
  GetValidatorOutstandingRewardsCoins :: "'d \<Rightarrow> byte list \<Rightarrow> 'c"
  GetCommunityPool :: "'d \<Rightarrow> 'c"
  SetCommunityPool :: "'c \<Rightarrow> 'd \<Rightarrow> 'd"
  DecCoinsAdd :: "'c \<Rightarrow> 'c \<Rightarrow> 'c"
  AfterValidatorCreated :: "('d, 'x) appState \<Rightarrow> byte list \<Rightarrow> 'd option"
  BeforeDelegationCreated :: "('d, 'x) appState \<Rightarrow> accAddress \<Rightarrow> byte list \<Rightarrow> 'd option"
  AfterDelegationModified :: "('d, 'x) appState \<Rightarrow> accAddress \<Rightarrow> byte list \<Rightarrow> 'd option"
  REDKey :: "string \<Rightarrow> string \<Rightarrow> string \<Rightarrow> byte list option"
  UBDKey :: "string \<Rightarrow> string \<Rightarrow> byte list option"
  ApplyAndReturnValidatorSetUpdates :: "('d, 'x) appState \<Rightarrow> ('d, 'x) appState option"
  ManagerExportGenesis :: "('d, 'x) appState \<Rightarrow> 'g"
  MarshalIndent :: "'g \<Rightarrow> 'j option"
  WriteValidators :: "('d, 'x) appState \<Rightarrow> 'w option"
  GetConsensusParams :: "('d, 'x) appState \<Rightarrow> 'cp"

datatype exportError = MarshalError | WriteValidatorsError

type_synonym ('d, 'x, 'a) ecomp = "(('d, 'x) appState, exportError, 'a) comp"

definition othersM :: "(('d, 'x) appState \<Rightarrow> 'd) \<Rightarrow> ('d, 'x, unit) ecomp" where
  "othersM f = modifyM (\<lambda>s. s\<lparr>as_Others := f s\<rparr>)"

text \<open>A call whose error is a panic.\<close>

definition mustOthersM :: "(('d, 'x) appState \<Rightarrow> 'd option) \<Rightarrow> ('d, 'x, unit) ecomp" where
  "mustOthersM f = bindM (getsM f) (\<lambda>r. bindM (liftR (orPanic r)) (\<lambda>d. othersM (\<lambda>_. d)))"

section \<open>Fee distribution\<close>

definition GetOperator :: "('d, 'x, 'c, 'g, 'j, 'w, 'cp) exportlib \<Rightarrow> 'x StkValidator \<Rightarrow> (exportError, byte list) result" where
  "GetOperator E val = orPanic (ValAddressFromBech32 E (sv_OperatorAddress val))"

definition withdrawCommission ::
    "('d, 'x, 'c, 'g, 'j, 'w, 'cp) exportlib \<Rightarrow> 'x StkValidator \<Rightarrow> ('d, 'x, unit) ecomp" where
  "withdrawCommission E val =
     bindM (liftR (GetOperator E val)) (\<lambda>operator.
     othersM (\<lambda>s. WithdrawValidatorCommission E s operator))"

definition delegationAddresses ::
    "'z sdk_scheme \<Rightarrow> ('d, 'x, 'c, 'g, 'j, 'w, 'cp) exportlib \<Rightarrow> StkDelegation
      \<Rightarrow> (exportError, byte list \<times> accAddress) result" where
  "delegationAddresses S E delegation =
     bindR (orPanic (ValAddressFromBech32 E (dl_ValidatorAddress delegation))) (\<lambda>valAddr.
     bindR (orPanic (AccAddressFromBech32 S (dl_DelegatorAddress delegation))) (\<lambda>delAddr.
     Ok (valAddr, delAddr)))"

definition withdrawRewards ::
    "'z sdk_scheme \<Rightarrow> ('d, 'x, 'c, 'g, 'j, 'w, 'cp) exportlib \<Rightarrow> StkDelegation \<Rightarrow> ('d, 'x, unit) ecomp" where
  "withdrawRewards S E delegation =
     bindM (liftR (delegationAddresses S E delegation)) (\<lambda>(valAddr, delAddr).
     othersM (\<lambda>s. WithdrawDelegationRewards E s delAddr valAddr))"

text \<open>What a validator did not withdraw goes to the community pool, then its records start anew.\<close>

definition reinitValidator ::
    "('d, 'x, 'c, 'g, 'j, 'w, 'cp) exportlib \<Rightarrow> 'x StkValidator \<Rightarrow> ('d, 'x, unit) ecomp" where
  "reinitValidator E val =
     bindM (liftR (GetOperator E val)) (\<lambda>operator.
     bindM (othersM (\<lambda>s.
       let scraps = GetValidatorOutstandingRewardsCoins E (as_Others s) operator;
           pool = GetCommunityPool E (as_Others s)
       in SetCommunityPool E (DecCoinsAdd E pool scraps) (as_Others s))) (\<lambda>_.
     mustOthersM (\<lambda>s. AfterValidatorCreated E s operator)))"

definition reinitDelegation ::
    "'z sdk_scheme \<Rightarrow> ('d, 'x, 'c, 'g, 'j, 'w, 'cp) exportlib \<Rightarrow> StkDelegation \<Rightarrow> ('d, 'x, unit) ecomp" where
  "reinitDelegation S E del =
     bindM (liftR (delegationAddresses S E del)) (\<lambda>(valAddr, delAddr).
     bindM (mustOthersM (\<lambda>s. BeforeDelegationCreated E s delAddr valAddr)) (\<lambda>_.
     mustOthersM (\<lambda>s. AfterDelegationModified E s delAddr valAddr)))"

section \<open>Staking and slashing\<close>

definition zeroEntry :: "'x StkEntry \<Rightarrow> 'x StkEntry" where
  "zeroEntry e = e\<lparr>en_CreationHeight := 0\<rparr>"

definition resetRedelegation ::
    "('d, 'x, 'c, 'g, 'j, 'w, 'cp) exportlib \<Rightarrow> 'x Redelegation \<Rightarrow> ('d, 'x, unit) ecomp" where
  "resetRedelegation E red =
     bindM (liftR (orPanic (REDKey E (rd_DelegatorAddress red) (rd_ValidatorSrcAddress red)
       (rd_ValidatorDstAddress red)))) (\<lambda>key.
     modifyM (\<lambda>s. s\<lparr>as_Redelegations :=
       oset key (red\<lparr>rd_Entries := map zeroEntry (rd_Entries red)\<rparr>) (as_Redelegations s)\<rparr>))"

definition resetUnbonding ::
    "('d, 'x, 'c, 'g, 'j, 'w, 'cp) exportlib \<Rightarrow> 'x UnbondingDelegation \<Rightarrow> ('d, 'x, unit) ecomp" where
  "resetUnbonding E ubd =
     bindM (liftR (orPanic (UBDKey E (ub_DelegatorAddress ubd) (ub_ValidatorAddress ubd)))) (\<lambda>key.
     modifyM (\<lambda>s. s\<lparr>as_UnbondingDelegations :=
       oset key (ubd\<lparr>ub_Entries := map zeroEntry (ub_Entries ubd)\<rparr>) (as_UnbondingDelegations s)\<rparr>))"

text \<open>The validator found under the key: its bond height is reset, and it is jailed when there is an
  allowed list that does not name it.\<close>

definition jailValidator ::
    "('d, 'x, 'c, 'g, 'j, 'w, 'cp) exportlib \<Rightarrow> string list \<Rightarrow> byte list \<Rightarrow> 'x StkValidator \<Rightarrow> 'x StkValidator" where
  "jailValidator E jailAllowedAddrs addr validator =
     validator\<lparr>sv_UnbondingHeight := 0,
       sv_Jailed := (if 0 < length jailAllowedAddrs \<and> ValAddressString E addr \<notin> set jailAllowedAddrs
         then True else sv_Jailed validator)\<rparr>"

definition resetValidator ::
    "('d, 'x, 'c, 'g, 'j, 'w, 'cp) exportlib \<Rightarrow> string list \<Rightarrow> byte list \<Rightarrow> ('d, 'x, unit) ecomp" where
  "resetValidator E jailAllowedAddrs addr =
     bindM (getsM (\<lambda>s. oget (as_Validators s) addr)) (\<lambda>found.
     bindM (liftR (orPanic found)) (\<lambda>validator.
     bindM (liftR (GetOperator E validator)) (\<lambda>operator.
     modifyM (\<lambda>s. s\<lparr>as_Validators :=
       oset operator (jailValidator E jailAllowedAddrs addr validator) (as_Validators s)\<rparr>))))"

definition resetSigningInfo :: "byte list \<times> 'x SigningInfo \<Rightarrow> ('d, 'x, unit) ecomp" where
  "resetSigningInfo e =
     modifyM (\<lambda>s. s\<lparr>as_SigningInfos := oset (fst e) ((snd e)\<lparr>si_StartHeight := 0\<rparr>) (as_SigningInfos s)\<rparr>)"

section \<open>The preparation\<close>

definition feeDistributionState ::
    "'z sdk_scheme \<Rightarrow> ('d, 'x, 'c, 'g, 'j, 'w, 'cp) exportlib \<Rightarrow> ('d, 'x, unit) ecomp" where
  "feeDistributionState S E =
     bindM (getsM (\<lambda>s. oiter (\<lambda>_. True) (as_Validators s))) (\<lambda>vals.
     bindM (foreachM (withdrawCommission E) vals) (\<lambda>_.
     bindM (getsM as_Delegations) (\<lambda>dels.
     bindM (foreachM (withdrawRewards S E) dels) (\<lambda>_.
     bindM (othersM (\<lambda>s. DeleteAllValidatorSlashEvents E (as_Others s))) (\<lambda>_.
     bindM (othersM (\<lambda>s. DeleteAllValidatorHistoricalRewards E (as_Others s))) (\<lambda>_.
     bindM (getsM as_Height) (\<lambda>height.
     bindM (modifyM (\<lambda>s. s\<lparr>as_Height := 0\<rparr>)) (\<lambda>_.
     bindM (getsM (\<lambda>s. oiter (\<lambda>_. True) (as_Validators s))) (\<lambda>vals.
     bindM (foreachM (reinitValidator E) vals) (\<lambda>_.
     bindM (foreachM (reinitDelegation S E) dels) (\<lambda>_.
     modifyM (\<lambda>s. s\<lparr>as_Height := height\<rparr>))))))))))))"

definition stakingState ::
    "('d, 'x, 'c, 'g, 'j, 'w, 'cp) exportlib \<Rightarrow> string list \<Rightarrow> ('d, 'x, unit) ecomp" where
  "stakingState E jailAllowedAddrs =
     bindM (getsM (\<lambda>s. oiter (\<lambda>_. True) (as_Redelegations s))) (\<lambda>reds.
     bindM (foreachM (resetRedelegation E) reds) (\<lambda>_.
     bindM (getsM (\<lambda>s. oiter (\<lambda>_. True) (as_UnbondingDelegations s))) (\<lambda>ubds.
     bindM (foreachM (resetUnbonding E) ubds) (\<lambda>_.
     bindM (getsM (\<lambda>s. rev (map fst (as_Validators s)))) (\<lambda>addrs.
     bindM (foreachM (resetValidator E jailAllowedAddrs) addrs) (\<lambda>_.
     bindM (getsM (ApplyAndReturnValidatorSetUpdates E)) (\<lambda>updated.
     bindM (liftR (orPanic updated)) (\<lambda>s'. modifyM (\<lambda>_. s')))))))))"

definition slashingState :: "('d, 'x, unit) ecomp" where
  "slashingState = bindM (getsM as_SigningInfos) (\<lambda>infos. foreachM resetSigningInfo infos)"

definition checkAllowed :: "('d, 'x, 'c, 'g, 'j, 'w, 'cp) exportlib \<Rightarrow> string \<Rightarrow> ('d, 'x, unit) ecomp" where
  "checkAllowed E addr = bindM (liftR (orPanic (ValAddressFromBech32 E addr))) (\<lambda>_. returnM ())"

definition prepForZeroHeightGenesis ::
    "'z sdk_scheme \<Rightarrow> ('d, 'x, 'c, 'g, 'j, 'w, 'cp) exportlib \<Rightarrow> string list \<Rightarrow> ('d, 'x, unit) ecomp" where
  "prepForZeroHeightGenesis S E jailAllowedAddrs =
     bindM (foreachM (checkAllowed E) jailAllowedAddrs) (\<lambda>_.
     bindM (getsM (AssertInvariants E)) (\<lambda>ok.
     bindM (if ok then returnM () else panicM) (\<lambda>_.
     bindM (feeDistributionState S E) (\<lambda>_.
     bindM (stakingState E jailAllowedAddrs) (\<lambda>_.
     slashingState)))))"

section \<open>The export\<close>

record ('j, 'w, 'cp) ExportedApp =
  ea_AppState :: 'j
  ea_Validators :: 'w
  ea_Height :: int64
  ea_ConsensusParams :: 'cp

definition ExportAppStateAndValidators ::
    "'z sdk_scheme \<Rightarrow> ('d, 'x, 'c, 'g, 'j, 'w, 'cp) exportlib \<Rightarrow> bool \<Rightarrow> string list
      \<Rightarrow> ('d, 'x, ('j, 'w, 'cp) ExportedApp) ecomp" where
  "ExportAppStateAndValidators S E forZeroHeight jailAllowedAddrs =
     bindM (getsM as_Height) (\<lambda>last.
     bindM (if forZeroHeight then prepForZeroHeightGenesis S E jailAllowedAddrs else returnM ()) (\<lambda>_.
     bindM (getsM (ManagerExportGenesis E)) (\<lambda>genState.
     bindM (liftR (case MarshalIndent E genState of None \<Rightarrow> Err MarshalError | Some j \<Rightarrow> Ok j)) (\<lambda>appState.
     bindM (getsM (WriteValidators E)) (\<lambda>written.
     bindM (liftR (case written of None \<Rightarrow> Err WriteValidatorsError | Some w \<Rightarrow> Ok w)) (\<lambda>validators.
     bindM (getsM (GetConsensusParams E)) (\<lambda>cp.
     returnM \<lparr> ea_AppState = appState, ea_Validators = validators,
       ea_Height = (if forZeroHeight then 0 else last + 1), ea_ConsensusParams = cp \<rparr>)))))))"

section \<open>Rewriting a map in place\<close>

lemma oset_present:
  assumes "owf m" and "e \<in> set m"
  shows "oset (fst e) v m = map (\<lambda>e'. if e' = e then (fst e, v) else e') m"
  using assms
proof (induction m)
  case (Cons d m)
  show ?case
  proof (cases "e = d")
    case True
    then have "e \<notin> set m" using Cons.prems(1) by (force simp: owf_Cons)
    then have "map (\<lambda>e'. if e' = e then (fst e, v) else e') m = m" by (intro map_idI) auto
    then show ?thesis using True by simp
  next
    case False
    then have "e \<in> set m" using Cons.prems(2) by simp
    moreover have "fst d < fst e" using \<open>e \<in> set m\<close> Cons.prems(1) by (auto simp: owf_Cons)
    ultimately show ?thesis using Cons False by (auto simp: owf_Cons)
  qed
qed simp

text \<open>A field of the state that holds an ordered map. A loop over some of its entries whose body writes
  each under its key rewrites these entries and nothing else, in whatever order it visits them.\<close>

locale map_field =
  fixes get :: "'s \<Rightarrow> ('k::linorder, 'v) omap" and put :: "('k, 'v) omap \<Rightarrow> 's \<Rightarrow> 's"
  assumes get_put: "get (put m s) = m" and put_put: "put m (put m' s) = put m s" and put_get: "put (get s) s = s"
begin

lemma foreach_rewrites:
  assumes "owf (get s)" and "distinct es" and "set es \<subseteq> set (get s)"
    and "\<And>e s. e \<in> set es \<Longrightarrow> oget (get s) (fst e) = Some (snd e) \<Longrightarrow>
      step e s = (Ok (), put (oset (fst e) (g e) (get s)) s)"
  shows "foreachM step es s
    = (Ok (), put (map (\<lambda>e. if e \<in> set es then (fst e, g e) else e) (get s)) s)"
  using assms
proof (induction es arbitrary: s)
  case Nil
  then show ?case by (simp add: monad_simps put_get)
next
  case (Cons e es)
  let ?m = "get s" and ?upd = "\<lambda>e'. if e' = e then (fst e, g e) else e'"
  have e: "e \<in> set ?m" using Cons.prems(3) by simp
  have "oget ?m (fst e) = Some (snd e)" using oget_mem [OF Cons.prems(1), of "fst e" "snd e"] e by simp
  then have step: "step e s = (Ok (), put (map ?upd ?m) s)"
    using Cons.prems(4) [of e s] oset_present [OF Cons.prems(1) e] by simp
  have keys: "map fst (map ?upd ?m) = map fst ?m" by auto
  have same: "e' = e" if "e' \<in> set ?m" "fst e' = fst e" for e'
    using that e Cons.prems(1) by (metis eq_key_imp_eq_value owf_distinct prod.collapse)
  have wf: "owf (map ?upd ?m)" using Cons.prems(1) unfolding owf_def keys .
  have sub: "set es \<subseteq> set (map ?upd ?m)" using Cons.prems(2,3) by auto
  have run: "foreachM step es (put (map ?upd ?m) s)
      = (Ok (), put (map (\<lambda>e'. if e' \<in> set es then (fst e', g e') else e') (map ?upd ?m)) s)"
    using Cons.IH [of "put (map ?upd ?m) s"] wf sub Cons.prems(2,4) by (simp add: get_put put_put)
  have "(fst e, g e) \<notin> set es" using same Cons.prems(2,3) by force
  then have all: "map (\<lambda>e'. if e' \<in> set es then (fst e', g e') else e') (map ?upd ?m)
      = map (\<lambda>e'. if e' \<in> set (e # es) then (fst e', g e') else e') ?m"
    using Cons.prems(2) by auto
  have "foreachM step (e # es) s = foreachM step es (put (map ?upd ?m) s)"
    unfolding foreachM.simps by (simp only: bindM_def step split_conv result.case)
  then show ?case unfolding run all .
qed

lemma foreach_rewrites_all:
  assumes "owf (get s)" and "set es = set (get s)" and "distinct es"
    and "\<And>e s. e \<in> set es \<Longrightarrow> oget (get s) (fst e) = Some (snd e) \<Longrightarrow>
      step e s = (Ok (), put (oset (fst e) (g e) (get s)) s)"
  shows "foreachM step es s = (Ok (), put (map (\<lambda>e. (fst e, g e)) (get s)) s)"
proof -
  have "map (\<lambda>e. if e \<in> set es then (fst e, g e) else e) (get s) = map (\<lambda>e. (fst e, g e)) (get s)"
    using assms(2) by auto
  moreover have "set es \<subseteq> set (get s)" using assms(2) by simp
  ultimately show ?thesis using foreach_rewrites [OF assms(1,3) _ assms(4)] by metis
qed

end

interpretation validators: map_field as_Validators "\<lambda>m s. s\<lparr>as_Validators := m\<rparr>"
  by unfold_locales simp_all

interpretation redelegations: map_field as_Redelegations "\<lambda>m s. s\<lparr>as_Redelegations := m\<rparr>"
  by unfold_locales simp_all

interpretation unbondings: map_field as_UnbondingDelegations "\<lambda>m s. s\<lparr>as_UnbondingDelegations := m\<rparr>"
  by unfold_locales simp_all

interpretation signing_infos: map_field as_SigningInfos "\<lambda>m s. s\<lparr>as_SigningInfos := m\<rparr>"
  by unfold_locales simp_all

section \<open>What the preparation does\<close>

text \<open>Every entry is stored under its own key.\<close>

definition storedByKey ::
    "('d, 'x, 'c, 'g, 'j, 'w, 'cp) exportlib \<Rightarrow> ('d, 'x) appState \<Rightarrow> bool" where
  "storedByKey E s \<longleftrightarrow>
     owf (as_Validators s) \<and> owf (as_Redelegations s) \<and> owf (as_UnbondingDelegations s)
     \<and> (\<forall>e \<in> set (as_Validators s). ValAddressFromBech32 E (sv_OperatorAddress (snd e)) = Some (fst e))
     \<and> (\<forall>e \<in> set (as_Redelegations s). REDKey E (rd_DelegatorAddress (snd e))
         (rd_ValidatorSrcAddress (snd e)) (rd_ValidatorDstAddress (snd e)) = Some (fst e))
     \<and> (\<forall>e \<in> set (as_UnbondingDelegations s).
         UBDKey E (ub_DelegatorAddress (snd e)) (ub_ValidatorAddress (snd e)) = Some (fst e))"

definition onlyOthers :: "('d, 'x) appState \<Rightarrow> ('d, 'x) appState \<Rightarrow> bool" where
  "onlyOthers s t \<longleftrightarrow> t = s\<lparr>as_Others := as_Others t\<rparr>"

lemma onlyOthers_trans: "onlyOthers s t \<Longrightarrow> onlyOthers t u \<Longrightarrow> onlyOthers s u"
  by (simp add: onlyOthers_def) (metis appState.surjective appState.update_convs(7))

lemma othersM_Ok: "othersM f s = (Ok u, t) \<Longrightarrow> onlyOthers s t"
  by (auto simp: othersM_def Ok_iffs onlyOthers_def)

lemma mustOthersM_Ok: "mustOthersM f s = (Ok u, t) \<Longrightarrow> onlyOthers s t"
  by (auto simp: mustOthersM_def Ok_iffs dest: othersM_Ok)

lemma distribution_steps:
  "withdrawCommission E val s = (Ok u, t) \<Longrightarrow> onlyOthers s t"
  "withdrawRewards S E del s = (Ok u, t) \<Longrightarrow> onlyOthers s t"
  "reinitValidator E val s = (Ok u, t) \<Longrightarrow> onlyOthers s t"
  "reinitDelegation S E del s = (Ok u, t) \<Longrightarrow> onlyOthers s t"
  by (auto simp: withdrawCommission_def withdrawRewards_def reinitValidator_def reinitDelegation_def Ok_iffs
      dest!: othersM_Ok mustOthersM_Ok intro: onlyOthers_trans)

lemma foreach_onlyOthers:
  assumes "\<And>x s t. f x s = (Ok (), t) \<Longrightarrow> onlyOthers s t" and "foreachM f xs s = (Ok (), t)"
  shows "onlyOthers s t"
  using assms(2)
proof (induction xs arbitrary: s)
  case Nil
  then show ?case by (simp add: Ok_iffs onlyOthers_def)
next
  case (Cons x xs)
  then show ?case by (auto simp: Ok_iffs intro: onlyOthers_trans assms(1))
qed

lemma distribution_loops:
  "foreachM (withdrawCommission E) vals s = (Ok (), t) \<Longrightarrow> onlyOthers s t"
  "foreachM (withdrawRewards S E) dels s = (Ok (), t) \<Longrightarrow> onlyOthers s t"
  "foreachM (reinitValidator E) vals s = (Ok (), t) \<Longrightarrow> onlyOthers s t"
  "foreachM (reinitDelegation S E) dels s = (Ok (), t) \<Longrightarrow> onlyOthers s t"
  by (erule foreach_onlyOthers [rotated], erule distribution_steps)+

lemma checked_addresses: "foreachM (checkAllowed E) xs s = (Ok (), t) \<Longrightarrow> t = s"
  by (induction xs) (auto simp: Ok_iffs checkAllowed_def)

lemma feeDistributionState_Ok:
  assumes "feeDistributionState S E s = (Ok (), t)"
  shows "onlyOthers s t"
proof -
  obtain s1 s2 s3 s4 s5 s6 where
    a: "foreachM (withdrawCommission E) (oiter (\<lambda>_. True) (as_Validators s)) s = (Ok (), s1)"
      "foreachM (withdrawRewards S E) (as_Delegations s1) s1 = (Ok (), s2)"
      "othersM (\<lambda>s. DeleteAllValidatorSlashEvents E (as_Others s)) s2 = (Ok (), s3)"
      "othersM (\<lambda>s. DeleteAllValidatorHistoricalRewards E (as_Others s)) s3 = (Ok (), s4)"
    and b: "foreachM (reinitValidator E) (oiter (\<lambda>_. True) (as_Validators s4)) (s4\<lparr>as_Height := 0\<rparr>) = (Ok (), s5)"
      "foreachM (reinitDelegation S E) (as_Delegations s1) s5 = (Ok (), s6)"
    and t: "t = s6\<lparr>as_Height := as_Height s4\<rparr>"
    using assms by (auto simp: feeDistributionState_def Ok_iffs)
  have "onlyOthers s s4"
    using distribution_loops(1) [OF a(1)] distribution_loops(2) [OF a(2)] othersM_Ok [OF a(3)] othersM_Ok [OF a(4)]
    by (blast intro: onlyOthers_trans)
  moreover have "onlyOthers (s4\<lparr>as_Height := 0\<rparr>) s6"
    using distribution_loops(3) [OF b(1)] distribution_loops(4) [OF b(2)] by (rule onlyOthers_trans)
  ultimately obtain d d' where "s4 = s\<lparr>as_Others := d\<rparr>" "s6 = s4\<lparr>as_Height := 0, as_Others := d'\<rparr>"
    unfolding onlyOthers_def by blast
  then show ?thesis by (simp add: onlyOthers_def t)
qed

text \<open>The loops over the staking and slashing stores.\<close>

lemma reset_validators:
  assumes "owf (as_Validators s)"
    and "\<forall>e \<in> set (as_Validators s). ValAddressFromBech32 E (sv_OperatorAddress (snd e)) = Some (fst e)"
  shows "foreachM (resetValidator E allowed) (rev (map fst (as_Validators s))) s
    = (Ok (), s\<lparr>as_Validators := map (\<lambda>e. (fst e, jailValidator E allowed (fst e) (snd e))) (as_Validators s)\<rparr>)"
proof -
  have "foreachM (\<lambda>e. resetValidator E allowed (fst e)) (rev (as_Validators s)) s
      = (Ok (), s\<lparr>as_Validators := map (\<lambda>e. (fst e, jailValidator E allowed (fst e) (snd e))) (as_Validators s)\<rparr>)"
  proof (rule validators.foreach_rewrites_all [OF assms(1)])
    show "distinct (rev (as_Validators s))" using owf_distinct [OF assms(1)] by (simp add: distinct_map)
    show "resetValidator E allowed (fst e) s'
        = (Ok (), s'\<lparr>as_Validators := oset (fst e) (jailValidator E allowed (fst e) (snd e)) (as_Validators s')\<rparr>)"
      if "e \<in> set (rev (as_Validators s))" "oget (as_Validators s') (fst e) = Some (snd e)" for e s'
      using that assms(2) by (simp add: resetValidator_def GetOperator_def monad_simps)
  qed simp
  then show ?thesis by (simp add: foreachM_map rev_map)
qed

lemma reset_redelegations:
  assumes "owf (as_Redelegations s)"
    and "\<forall>e \<in> set (as_Redelegations s). REDKey E (rd_DelegatorAddress (snd e))
         (rd_ValidatorSrcAddress (snd e)) (rd_ValidatorDstAddress (snd e)) = Some (fst e)"
  shows "foreachM (resetRedelegation E) (map snd (as_Redelegations s)) s
    = (Ok (), s\<lparr>as_Redelegations := map (\<lambda>e. (fst e, (snd e)\<lparr>rd_Entries := map zeroEntry (rd_Entries (snd e))\<rparr>))
        (as_Redelegations s)\<rparr>)"
  unfolding foreachM_map
  by (rule redelegations.foreach_rewrites_all [OF assms(1)])
    (use assms owf_distinct [OF assms(1)] in \<open>simp_all add: distinct_map resetRedelegation_def monad_simps\<close>)

lemma reset_unbondings:
  assumes "owf (as_UnbondingDelegations s)"
    and "\<forall>e \<in> set (as_UnbondingDelegations s).
         UBDKey E (ub_DelegatorAddress (snd e)) (ub_ValidatorAddress (snd e)) = Some (fst e)"
  shows "foreachM (resetUnbonding E) (map snd (as_UnbondingDelegations s)) s
    = (Ok (), s\<lparr>as_UnbondingDelegations := map (\<lambda>e. (fst e, (snd e)\<lparr>ub_Entries := map zeroEntry (ub_Entries (snd e))\<rparr>))
        (as_UnbondingDelegations s)\<rparr>)"
  unfolding foreachM_map
  by (rule unbondings.foreach_rewrites_all [OF assms(1)])
    (use assms owf_distinct [OF assms(1)] in \<open>simp_all add: distinct_map resetUnbonding_def monad_simps\<close>)

lemma reset_signing_infos:
  assumes "owf (as_SigningInfos s)"
  shows "foreachM resetSigningInfo (as_SigningInfos s) s
    = (Ok (), s\<lparr>as_SigningInfos := map (\<lambda>e. (fst e, (snd e)\<lparr>si_StartHeight := 0\<rparr>)) (as_SigningInfos s)\<rparr>)"
  by (rule signing_infos.foreach_rewrites_all [OF assms])
    (use owf_distinct [OF assms] in \<open>simp_all add: distinct_map resetSigningInfo_def monad_simps\<close>)

definition resetStaking ::
    "('d, 'x, 'c, 'g, 'j, 'w, 'cp) exportlib \<Rightarrow> string list \<Rightarrow> ('d, 'x) appState \<Rightarrow> ('d, 'x) appState" where
  "resetStaking E allowed s =
   s\<lparr>as_Redelegations := map (\<lambda>e. (fst e, (snd e)\<lparr>rd_Entries := map zeroEntry (rd_Entries (snd e))\<rparr>)) (as_Redelegations s),
     as_UnbondingDelegations := map (\<lambda>e. (fst e, (snd e)\<lparr>ub_Entries := map zeroEntry (ub_Entries (snd e))\<rparr>)) (as_UnbondingDelegations s),
     as_Validators := map (\<lambda>e. (fst e, jailValidator E allowed (fst e) (snd e))) (as_Validators s)\<rparr>"

lemma stakingState_run:
  assumes "storedByKey E s"
  shows "stakingState E allowed s = (case ApplyAndReturnValidatorSetUpdates E (resetStaking E allowed s) of
    None \<Rightarrow> (Panic, resetStaking E allowed s) | Some w \<Rightarrow> (Ok (), w))"
proof -
  let ?R = "map (\<lambda>e. (fst e, (snd e)\<lparr>rd_Entries := map zeroEntry (rd_Entries (snd e))\<rparr>)) (as_Redelegations s)"
  let ?U = "map (\<lambda>e. (fst e, (snd e)\<lparr>ub_Entries := map zeroEntry (ub_Entries (snd e))\<rparr>)) (as_UnbondingDelegations s)"
  let ?s1 = "s\<lparr>as_Redelegations := ?R\<rparr>"
  let ?s2 = "?s1\<lparr>as_UnbondingDelegations := ?U\<rparr>"
  have "foreachM (resetRedelegation E) (map snd (as_Redelegations s)) s = (Ok (), ?s1)"
    using reset_redelegations [of s E] assms by (simp add: storedByKey_def)
  moreover have "foreachM (resetUnbonding E) (map snd (as_UnbondingDelegations s)) ?s1 = (Ok (), ?s2)"
    using reset_unbondings [of ?s1 E] assms by (simp add: storedByKey_def)
  moreover have "foreachM (resetValidator E allowed) (rev (map fst (as_Validators s))) ?s2 = (Ok (), resetStaking E allowed s)"
    using reset_validators [of ?s2 E allowed] assms by (simp add: storedByKey_def resetStaking_def)
  ultimately show ?thesis
    by (simp add: stakingState_def oiter_def bindM_def getsM_def liftR_def modifyM_def split: option.split)
qed

text \<open>C36. Preparing a state for a restart at height zero resets the bond height of every validator and
  jails exactly those that an allowed list leaves out, resets the creation heights of every
  redelegation and unbonding delegation, and hands this state, otherwise unchanged in staking and
  slashing and at its old height, to the update of the validator set; in what that returns it resets
  every start height.\<close>

theorem zero_height_preparation:
  assumes "storedByKey E s" and "prepForZeroHeightGenesis S E allowed s = (Ok (), t)"
    and "\<And>u w. ApplyAndReturnValidatorSetUpdates E u = Some w \<Longrightarrow> owf (as_SigningInfos w)"
  shows "\<exists>d w. ApplyAndReturnValidatorSetUpdates E (s\<lparr>as_Others := d,
        as_Redelegations := map (\<lambda>(k, r). (k, r\<lparr>rd_Entries := map (\<lambda>e. e\<lparr>en_CreationHeight := 0\<rparr>) (rd_Entries r)\<rparr>))
          (as_Redelegations s),
        as_UnbondingDelegations := map (\<lambda>(k, b). (k, b\<lparr>ub_Entries := map (\<lambda>e. e\<lparr>en_CreationHeight := 0\<rparr>) (ub_Entries b)\<rparr>))
          (as_UnbondingDelegations s),
        as_Validators := map (\<lambda>(k, v). (k, v\<lparr>sv_UnbondingHeight := 0,
            sv_Jailed := sv_Jailed v \<or> allowed \<noteq> [] \<and> ValAddressString E k \<notin> set allowed\<rparr>)) (as_Validators s)\<rparr>) = Some w
    \<and> t = w\<lparr>as_SigningInfos := map (\<lambda>(k, i). (k, i\<lparr>si_StartHeight := 0\<rparr>)) (as_SigningInfos w)\<rparr>"
proof -
  obtain u w where "onlyOthers s u" and w: "stakingState E allowed u = (Ok (), w)" and t: "slashingState w = (Ok (), t)"
    using assms(2) by (auto simp: prepForZeroHeightGenesis_def Ok_iffs split: if_split_asm
        dest!: checked_addresses feeDistributionState_Ok)
  then obtain d where u: "u = s\<lparr>as_Others := d\<rparr>" unfolding onlyOthers_def by blast
  have "storedByKey E u" using assms(1) by (simp add: u storedByKey_def)
  from w [unfolded stakingState_run [OF this]] have upd: "ApplyAndReturnValidatorSetUpdates E (resetStaking E allowed u) = Some w"
    by (simp split: option.splits)
  have "t = w\<lparr>as_SigningInfos := map (\<lambda>e. (fst e, (snd e)\<lparr>si_StartHeight := 0\<rparr>)) (as_SigningInfos w)\<rparr>"
    using t reset_signing_infos [OF assms(3) [OF upd]] by (simp add: slashingState_def Ok_iffs)
  moreover have "jailValidator E allowed k v = v\<lparr>sv_UnbondingHeight := 0,
      sv_Jailed := sv_Jailed v \<or> allowed \<noteq> [] \<and> ValAddressString E k \<notin> set allowed\<rparr>" for k v
    by (auto simp: jailValidator_def)
  ultimately show ?thesis using upd
    by (intro exI [of _ d] exI [of _ w]) (simp add: u resetStaking_def case_prod_unfold zeroEntry_def cong: map_cong)
qed

text \<open>Two validators, of which the second one may stay, and a delegation with a redelegation.\<close>

definition refExport :: "(nat, unit, nat, unit, unit, unit, unit) exportlib" where
  "refExport =
   \<lparr> ValAddressFromBech32 = refFromBech32, ValAddressString = textOf, AssertInvariants = (\<lambda>s. True),
     WithdrawValidatorCommission = (\<lambda>s v. as_Others s), WithdrawDelegationRewards = (\<lambda>s a v. as_Others s),
     DeleteAllValidatorSlashEvents = (\<lambda>d. d), DeleteAllValidatorHistoricalRewards = (\<lambda>d. d),
     GetValidatorOutstandingRewardsCoins = (\<lambda>d v. 1), GetCommunityPool = (\<lambda>d. d), SetCommunityPool = (\<lambda>c d. c),
     DecCoinsAdd = (+), AfterValidatorCreated = (\<lambda>s v. Some (as_Others s)),
     BeforeDelegationCreated = (\<lambda>s a v. Some (as_Others s)), AfterDelegationModified = (\<lambda>s a v. Some (as_Others s)),
     REDKey = (\<lambda>a b c. Some (bytesOf (a @ b @ c))), UBDKey = (\<lambda>a b. Some (bytesOf (a @ b))),
     ApplyAndReturnValidatorSetUpdates = (\<lambda>s. if owf (as_SigningInfos s) then Some s else None),
     ManagerExportGenesis = (\<lambda>s. ()), MarshalIndent = Some, WriteValidators = (\<lambda>s. Some ()), GetConsensusParams = (\<lambda>s. ()) \<rparr>"

definition refAppState :: "(nat, unit) appState" where
  "refAppState =
   \<lparr> as_Height = 9,
     as_Validators = map (\<lambda>n. (bytesOf n, \<lparr> sv_OperatorAddress = n, sv_UnbondingHeight = 5, sv_Jailed = False, sv_Rest = () \<rparr>))
       [''a'', ''b''],
     as_Delegations = [\<lparr> dl_DelegatorAddress = ''alice'', dl_ValidatorAddress = ''a'' \<rparr>],
     as_Redelegations = [(bytesOf ''aliceab'', \<lparr> rd_DelegatorAddress = ''alice'', rd_ValidatorSrcAddress = ''a'',
       rd_ValidatorDstAddress = ''b'', rd_Entries = [\<lparr> en_CreationHeight = 4, en_Rest = () \<rparr>] \<rparr>)],
     as_UnbondingDelegations = [], as_SigningInfos = [([1], \<lparr> si_StartHeight = 3, si_Rest = () \<rparr>)], as_Others = 0 \<rparr>"

theorem zero_height_preparation_witness:
  "\<exists>t. prepForZeroHeightGenesis reference refExport [''b''] refAppState = (Ok (), t)
    \<and> map (\<lambda>e. (sv_UnbondingHeight (snd e), sv_Jailed (snd e))) (as_Validators t) = [(0, True), (0, False)]"
proof -
  have ab: "refFromBech32 ''a'' = Some (bytesOf ''a'')" "refFromBech32 ''b'' = Some (bytesOf ''b'')"
    "refFromBech32 ''alice'' = Some (bytesOf ''alice'')"
    by (simp_all add: refFromBech32_def usableAddress_def bytesOf_def)
  have order: "bytesOf ''a'' < bytesOf ''b''" "bytesOf ''a'' \<noteq> bytesOf ''b''" by (simp_all add: bytesOf_def)
  have names: "textOf (bytesOf ''a'') \<noteq> ''b''" "textOf (bytesOf ''b'') = ''b''" by simp_all
  have keyed: "storedByKey refExport refAppState"
    using ab order by (simp add: storedByKey_def refExport_def refAppState_def owf_Cons)
  have "fst (prepForZeroHeightGenesis reference refExport [''b''] refAppState) = Ok ()"
    using ab order by (simp add: prepForZeroHeightGenesis_def feeDistributionState_def
      stakingState_def slashingState_def checkAllowed_def bindM_def getsM_def liftR_def modifyM_def returnM_def
      withdrawCommission_def withdrawRewards_def
      reinitValidator_def reinitDelegation_def delegationAddresses_def GetOperator_def resetRedelegation_def
      resetValidator_def resetSigningInfo_def jailValidator_def othersM_def mustOthersM_def owf_Cons
      refExport_def refAppState_def oiter_def Let_def)
  then obtain t where run: "prepForZeroHeightGenesis reference refExport [''b''] refAppState = (Ok (), t)"
    by (metis prod.collapse)
  have sorted: "owf (as_SigningInfos w)" if "ApplyAndReturnValidatorSetUpdates refExport u = Some w" for u w
    using that by (simp add: refExport_def split: if_splits)
  obtain d w where w: "ApplyAndReturnValidatorSetUpdates refExport (refAppState\<lparr>as_Others := d,
        as_Redelegations := map (\<lambda>(k, r). (k, r\<lparr>rd_Entries := map (\<lambda>e. e\<lparr>en_CreationHeight := 0\<rparr>) (rd_Entries r)\<rparr>))
          (as_Redelegations refAppState),
        as_UnbondingDelegations := map (\<lambda>(k, b). (k, b\<lparr>ub_Entries := map (\<lambda>e. e\<lparr>en_CreationHeight := 0\<rparr>) (ub_Entries b)\<rparr>))
          (as_UnbondingDelegations refAppState),
        as_Validators := map (\<lambda>(k, v). (k, v\<lparr>sv_UnbondingHeight := 0,
            sv_Jailed := sv_Jailed v \<or> [''b''] \<noteq> [] \<and> ValAddressString refExport k \<notin> set [''b'']\<rparr>))
          (as_Validators refAppState)\<rparr>) = Some w"
    and t: "t = w\<lparr>as_SigningInfos := map (\<lambda>(k, i). (k, i\<lparr>si_StartHeight := 0\<rparr>)) (as_SigningInfos w)\<rparr>"
    by (rule exE [OF zero_height_preparation [OF keyed run]], erule sorted) blast
  have "as_Validators t = as_Validators w" by (simp add: t)
  also have "\<dots> = map (\<lambda>(k, v). (k, v\<lparr>sv_UnbondingHeight := 0, sv_Jailed := sv_Jailed v \<or> ValAddressString refExport k \<noteq> ''b''\<rparr>))
      (as_Validators refAppState)"
    using w by (auto simp: refExport_def split: if_splits)
  finally show ?thesis using run names by (simp add: refAppState_def refExport_def)
qed

end
