(* ===== verification/Daemon.thy ===== *)
theory Daemon
  imports ZeroHeight
begin

text \<open>
  The daemon (\<^verbatim>\<open>src/cmd/root.go\<close>, \<^verbatim>\<open>src/cmd/prefixes.go\<close>) as far as it is more than a list of the SDK's
  commands: the address prefixes, the options of the root command, the defaults it writes over those
  of the flags, and the export of the application at a height.

  A command is its two sets of flags and its subcommands. A set of flags is the Go map from names to
  flags; setting the value of a flag depends on its type and may fail, which the code ignores: the
  function \<open>setValue\<close>, None for a refused text. What \<open>range\<close> yields over a Go map is a list of its
  entries in an order that is not fixed.
\<close>

section \<open>Prefixes\<close>

record prefixes =
  accountAddr :: string
  accountPubKey :: string
  validatorAddr :: string
  validatorPubKey :: string
  consNodeAddr :: string
  consNodePubKey :: string

definition SetPrefixes :: "string \<Rightarrow> prefixes" where
  "SetPrefixes accountAddressPrefix =
   \<lparr> accountAddr = accountAddressPrefix,
     accountPubKey = accountAddressPrefix @ ''pub'',
     validatorAddr = accountAddressPrefix @ ''valoper'',
     validatorPubKey = accountAddressPrefix @ ''valoperpub'',
     consNodeAddr = accountAddressPrefix @ ''valcons'',
     consNodePubKey = accountAddressPrefix @ ''valconspub'' \<rparr>"

lemma prefixes_differ:
  "distinct [accountAddr (SetPrefixes p), accountPubKey (SetPrefixes p), validatorAddr (SetPrefixes p),
     validatorPubKey (SetPrefixes p), consNodeAddr (SetPrefixes p), consNodePubKey (SetPrefixes p)]"
  by (simp add: SetPrefixes_def)

section \<open>Options of the root command\<close>

record 'c rootOptions =
  addSubCmds :: "'c list"
  startCmdCustomizer :: "('c \<Rightarrow> 'c) option"
  envPrefix :: string

type_synonym 'c rootOption = "'c rootOptions \<Rightarrow> 'c rootOptions"

definition AddSubCmd :: "'c list \<Rightarrow> 'c rootOption" where
  "AddSubCmd cmd opt = opt\<lparr>addSubCmds := addSubCmds opt @ cmd\<rparr>"

definition CustomizeStartCmd :: "('c \<Rightarrow> 'c) \<Rightarrow> 'c rootOption" where
  "CustomizeStartCmd h opt = opt\<lparr>startCmdCustomizer := Some h\<rparr>"

definition WithEnvPrefix :: "string \<Rightarrow> 'c rootOption" where
  "WithEnvPrefix p opt = opt\<lparr>envPrefix := p\<rparr>"

definition applyOptions :: "'c rootOption list \<Rightarrow> 'c rootOption" where
  "applyOptions options opts = foldl (\<lambda>s opt. opt s) opts options"

definition newRootOptions :: "'c rootOption list \<Rightarrow> 'c rootOptions" where
  "newRootOptions options = applyOptions options \<lparr> addSubCmds = [], startCmdCustomizer = None, envPrefix = [] \<rparr>"

text \<open>Subcommands add up in the order of the options; of the other options the last one counts.\<close>

lemma options_in_order:
  "newRootOptions (options @ [AddSubCmd cs]) = (newRootOptions options)\<lparr>addSubCmds := addSubCmds (newRootOptions options) @ cs\<rparr>"
  "newRootOptions (options @ [CustomizeStartCmd h]) = (newRootOptions options)\<lparr>startCmdCustomizer := Some h\<rparr>"
  "newRootOptions (options @ [WithEnvPrefix p]) = (newRootOptions options)\<lparr>envPrefix := p\<rparr>"
  by (simp_all add: newRootOptions_def applyOptions_def AddSubCmd_def CustomizeStartCmd_def WithEnvPrefix_def)

section \<open>Defaults of flags\<close>

record 'v flag =
  DefValue :: string
  FlagValue :: 'v

type_synonym 'v flagSet = "string \<rightharpoonup> 'v flag"

datatype 'v command = Command (Flags: "'v flagSet") (PersistentFlags: "'v flagSet") (Commands: "'v command list")

definition setFlag :: "('v \<Rightarrow> string \<Rightarrow> 'v option) \<Rightarrow> string \<Rightarrow> 'v flag \<Rightarrow> 'v flag" where
  "setFlag setValue val f =
     f\<lparr>DefValue := val, FlagValue := (case setValue (FlagValue f) val of None \<Rightarrow> FlagValue f | Some v \<Rightarrow> v)\<rparr>"

definition setDefault :: "('v \<Rightarrow> string \<Rightarrow> 'v option) \<Rightarrow> string \<times> string \<Rightarrow> 'v flagSet \<Rightarrow> 'v flagSet" where
  "setDefault setValue e s = (case s (fst e) of None \<Rightarrow> s | Some f \<Rightarrow> s(fst e \<mapsto> setFlag setValue (snd e) f))"

fun overwriteFlagDefaults :: "('v \<Rightarrow> string \<Rightarrow> 'v option) \<Rightarrow> (string \<times> string) list \<Rightarrow> 'v command \<Rightarrow> 'v command" where
  "overwriteFlagDefaults setValue defaults (Command fs ps cs) =
     (let (fs', ps') = fold (\<lambda>e (fs, ps). (setDefault setValue e fs, setDefault setValue e ps)) defaults (fs, ps)
      in Command fs' ps' (map (overwriteFlagDefaults setValue defaults) cs))"

text \<open>The flags of a command and of those below it, at whatever depth.\<close>

inductive hasFlag :: "'v command \<Rightarrow> string \<Rightarrow> 'v flag \<Rightarrow> bool" where
  own: "Flags c n = Some f \<Longrightarrow> hasFlag c n f"
| persistent: "PersistentFlags c n = Some f \<Longrightarrow> hasFlag c n f"
| below: "c' \<in> set (Commands c) \<Longrightarrow> hasFlag c' n f \<Longrightarrow> hasFlag c n f"

text \<open>What the defaults make of one flag.\<close>

definition flagDefault :: "('v \<Rightarrow> string \<Rightarrow> 'v option) \<Rightarrow> (string \<rightharpoonup> string) \<Rightarrow> string \<Rightarrow> 'v flag \<Rightarrow> 'v flag" where
  "flagDefault setValue defaults n f = (case defaults n of None \<Rightarrow> f | Some v \<Rightarrow> setFlag setValue v f)"

lemma setDefaults:
  assumes "distinct (map fst defaults)"
  shows "fold (setDefault setValue) defaults s n = map_option (flagDefault setValue (map_of defaults) n) (s n)"
  using assms
proof (induction defaults arbitrary: s)
  case Nil
  then show ?case by (simp add: flagDefault_def option.map_ident)
next
  case (Cons e es)
  have "map_of es (fst e) = None" using Cons.prems by (simp add: map_of_eq_None_iff)
  then show ?case using Cons by (auto simp: setDefault_def flagDefault_def split: option.splits)
qed

lemma fold_pair: "fold (\<lambda>e (a, b). (f e a, g e b)) es (a, b) = (fold f es a, fold g es b)"
  by (induction es arbitrary: a b) auto

lemma overwritten:
  assumes "distinct (map fst defaults)"
  shows "Flags (overwriteFlagDefaults setValue defaults c) n
      = map_option (flagDefault setValue (map_of defaults) n) (Flags c n)"
    and "PersistentFlags (overwriteFlagDefaults setValue defaults c) n
      = map_option (flagDefault setValue (map_of defaults) n) (PersistentFlags c n)"
    and "Commands (overwriteFlagDefaults setValue defaults c) = map (overwriteFlagDefaults setValue defaults) (Commands c)"
  by (cases c; simp add: fold_pair setDefaults [OF assms(1)])+

text \<open>Every flag of every command, at whatever depth, has the new default when its name has one and is as
  it was otherwise, and there are no other flags.\<close>

lemma flag_defaults_everywhere:
  assumes "distinct (map fst defaults)"
  shows "hasFlag (overwriteFlagDefaults setValue defaults c) n f'
    \<longleftrightarrow> (\<exists>f. hasFlag c n f \<and> f' = flagDefault setValue (map_of defaults) n f)"
proof
  let ?upd = "flagDefault setValue (map_of defaults)"
  show "\<exists>f. hasFlag c n f \<and> f' = ?upd n f" if "hasFlag (overwriteFlagDefaults setValue defaults c) n f'"
    using that
  proof (induction "overwriteFlagDefaults setValue defaults c" n f' arbitrary: c)
    case (below c' n f')
    then obtain d where "d \<in> set (Commands c)" "c' = overwriteFlagDefaults setValue defaults d"
      by (auto simp: overwritten [OF assms])
    then show ?case using below(3) by (blast intro: hasFlag.below)
  qed (auto simp: overwritten [OF assms] intro: hasFlag.intros)
  show "hasFlag (overwriteFlagDefaults setValue defaults c) n f'" if "\<exists>f. hasFlag c n f \<and> f' = ?upd n f"
  proof -
    from that obtain f where f: "hasFlag c n f" and f': "f' = ?upd n f" by blast
    from f have "hasFlag (overwriteFlagDefaults setValue defaults c) n (?upd n f)"
    proof (induction rule: hasFlag.induct)
      case (own c n f)
      then show ?case by (simp add: hasFlag.own overwritten [OF assms])
    next
      case (persistent c n f)
      then show ?case by (simp add: hasFlag.persistent overwritten [OF assms])
    next
      case (below c' c n f)
      then have "overwriteFlagDefaults setValue defaults c' \<in> set (Commands (overwriteFlagDefaults setValue defaults c))"
        by (simp add: overwritten [OF assms])
      then show ?case using below(3) by (rule hasFlag.below)
    qed
    then show ?thesis unfolding f' .
  qed
qed

text \<open>The order in which the Go map of the defaults is run through does not matter.\<close>

lemma defaults_in_any_order:
  assumes "distinct (map fst defaults)" and "set defaults' = set defaults" and "distinct (map fst defaults')"
  shows "overwriteFlagDefaults setValue defaults' c = overwriteFlagDefaults setValue defaults c"
proof (induction c)
  case (Command fs ps cs)
  have same: "map_of defaults' = map_of defaults" by (rule map_of_inject_set [THEN iffD2]) (use assms in simp_all)
  have "fold (setDefault setValue) defaults' s = fold (setDefault setValue) defaults s" for s
    by (rule ext) (simp add: setDefaults [OF assms(1)] setDefaults [OF assms(3)] same)
  then show ?case using Command by (simp add: fold_pair)
qed

section \<open>Export at a height\<close>

text \<open>Building the application loads its latest state unless told otherwise; a height of -1 asks for that.\<close>

datatype daemonError = HomeNotSet | LoadHeightError | ExportError exportError

definition appExport ::
    "'z sdk_scheme \<Rightarrow> ('d, 'x, 'c, 'g, 'j, 'w, 'cp) exportlib \<Rightarrow> (bool \<Rightarrow> string \<Rightarrow> ('d, 'x) appState)
      \<Rightarrow> (int64 \<Rightarrow> ('d, 'x) appState \<Rightarrow> ('d, 'x) appState option) \<Rightarrow> int64 \<Rightarrow> bool \<Rightarrow> string list \<Rightarrow> string option
      \<Rightarrow> (daemonError, ('j, 'w, 'cp) ExportedApp) result" where
  "appExport S E buildApp LoadHeight height forZeroHeight jailAllowedAddrs home =
     (case home of None \<Rightarrow> Err HomeNotSet | Some homePath \<Rightarrow>
      if homePath = [] then Err HomeNotSet
      else let app = buildApp (height = -1) homePath in
        case (if height \<noteq> -1 then LoadHeight height app else Some app) of
          None \<Rightarrow> Err LoadHeightError
        | Some app \<Rightarrow> (case fst (ExportAppStateAndValidators S E forZeroHeight jailAllowedAddrs app) of
            Ok exported \<Rightarrow> Ok exported | Err e \<Rightarrow> Err (ExportError e) | Panic \<Rightarrow> Panic))"

text \<open>An export for height zero says so, and any other one gives the height after the one it loaded.\<close>

lemma exported_height:
  assumes "appExport S E buildApp LoadHeight height forZeroHeight jailed home = Ok x"
  shows "\<exists>homePath app. home = Some homePath \<and> homePath \<noteq> []
    \<and> (if height = -1 then app = buildApp True homePath else LoadHeight height (buildApp False homePath) = Some app)
    \<and> ea_Height x = (if forZeroHeight then 0 else as_Height app + 1)"
proof -
  obtain homePath app t where "home = Some homePath" "homePath \<noteq> []"
    and app: "if height = -1 then app = buildApp True homePath else LoadHeight height (buildApp False homePath) = Some app"
    and run: "ExportAppStateAndValidators S E forZeroHeight jailed app = (Ok x, t)"
    using assms unfolding appExport_def Let_def
    by (auto split: option.split_asm if_split_asm result.split_asm simp: prod_eq_iff)
  moreover have "ea_Height x = (if forZeroHeight then 0 else as_Height app + 1)"
    using run by (auto simp: ExportAppStateAndValidators_def Ok_iffs)
  ultimately show ?thesis by blast
qed

end
