(* ===== verification/Liveness.thy ===== *)
theory Liveness
  imports Frames Lifecycle
begin

text \<open>
  Every auction comes to an end. While an auction vests, its queues are those of its schedules and the
  last one is not released; so a begin block after the last release time finishes it. A begin block
  that is late for an auction, one after its start, its last end time and its release times, moves
  it on by one step of finitely many, and nothing that happens in between moves it back.
\<close>

section \<open>The queues of a vesting auction\<close>

definition vestingOK :: "'b state \<Rightarrow> uint64 \<Rightarrow> bool" where
  "vestingOK s i \<longleftrightarrow> (\<forall>a. GetAuction i s = Some a \<longrightarrow> ba_Status (base a) \<noteq> AuctionStatusNil
     \<and> (ba_Status (base a) = AuctionStatusVesting \<longrightarrow> ba_VestingSchedules (base a) \<noteq> []
        \<and> map vq_ReleaseTime (GetVestingQueuesByAuctionId i s) = map vs_ReleaseTime (ba_VestingSchedules (base a))
        \<and> \<not> vq_Released (last (GetVestingQueuesByAuctionId i s))))"

lemma vestingOK_cong:
  assumes "GetAuction i t = GetAuction i s" and "GetVestingQueuesByAuctionId i t = GetVestingQueuesByAuctionId i s"
  shows "vestingOK t i = vestingOK s i"
  by (simp add: vestingOK_def assms)

lemma VestingQueues_only:
  "VestingQueues t = VestingQueues s \<Longrightarrow> GetVestingQueuesByAuctionId i t = GetVestingQueuesByAuctionId i s"
  by (simp add: GetVestingQueuesByAuctionId_def)

text \<open>The entries a close writes into the empty list of an auction.\<close>

lemma stored_by_fold:
  "oget (VestingQueues (fold SetVestingQueue qs s))
    = oget (VestingQueues s) ++ map_of (rev (map (\<lambda>q. ((vq_AuctionId q, vq_ReleaseTime q), q)) qs))"
  by (induction qs arbitrary: s) (simp_all add: SetVestingQueue_def)

lemma fold_queues_cong:
  "VestingQueues s = VestingQueues s' \<Longrightarrow>
    VestingQueues (fold SetVestingQueue qs s) = VestingQueues (fold SetVestingQueue qs s')"
  by (induction qs arbitrary: s s') (simp_all add: SetVestingQueue_def)

lemma queues_after_close:
  assumes store: "storeOK S s" and none: "GetVestingQueuesByAuctionId i s = []"
    and qs: "\<forall>q \<in> set qs. vq_AuctionId q = i" and sorted: "sorted_wrt (<) (map vq_ReleaseTime qs)"
  shows "set (GetVestingQueuesByAuctionId i (fold SetVestingQueue qs s)) = set qs"
    and "map vq_ReleaseTime (GetVestingQueuesByAuctionId i (fold SetVestingQueue qs s)) = map vq_ReleaseTime qs"
proof -
  let ?u = "fold SetVestingQueue qs s" and ?e = "\<lambda>q. ((vq_AuctionId q, vq_ReleaseTime q), q)"
  have store': "storeOK S ?u" by (rule storeOK_fold_SetVestingQueue [OF store])
  have dist: "distinct (map vq_ReleaseTime qs)" using sorted by (simp add: strict_sorted_iff)
  then have inj: "inj_on vq_ReleaseTime (set qs)" and "distinct qs" by (simp_all add: distinct_map)
  then have "distinct (map fst (rev (map ?e qs)))"
    by (auto simp: distinct_map rev_map comp_def inj_on_def)
  then have mem: "map_of (rev (map ?e qs)) (i, vq_ReleaseTime q) = Some q \<longleftrightarrow> q \<in> set qs"
    if "vq_AuctionId q = i" for q
    using that qs by (auto simp: map_of_eq_Some_iff)
  have "oget (VestingQueues ?u) (i, vq_ReleaseTime q) = Some q \<longleftrightarrow> q \<in> set qs" if "vq_AuctionId q = i" for q
    using mem [OF that] no_queue [OF store none, of "vq_ReleaseTime q"] by (simp add: stored_by_fold map_add_Some_iff)
  then have "q \<in> set (GetVestingQueuesByAuctionId i ?u) \<longleftrightarrow> q \<in> set qs" for q
    using qs stored_queue [OF store', of q i] by blast
  then show set: "set (GetVestingQueuesByAuctionId i ?u) = set qs" by blast
  show "map vq_ReleaseTime (GetVestingQueuesByAuctionId i ?u) = map vq_ReleaseTime qs"
    by (rule sorted_distinct_set_unique) (use queues_sorted [OF store', of i] sorted set in \<open>simp_all add: strict_sorted_iff\<close>)
qed

section \<open>Closing\<close>

lemma keepsPart_run: "keepsPart f m \<Longrightarrow> m s = (r, t) \<Longrightarrow> f t = f s"
  by (metis keepsPart_def snd_conv)

lemma ExtendRound_Ok:
  assumes "ExtendRound a s = (Ok u, t)"
  shows "\<exists>es. GetAuction (GetId a) t = Some (SetEndTimes es a)"
  using assms by (cases a) (auto simp: ExtendRound_def Ok_iffs Let_def SetAuction_def GetAuction_def SetEndTimes_def)

context fundraising
begin

lemma queues_kept: "kept_by_all VestingQueues k"
  by unfold_locales (simp_all add: hooksKeep_def hooks_observe)

lemma closing_ends_with_vesting:
  assumes "CloseFixedPriceAuction k a s = (Ok u, t) \<or> finishBatch k a mi s = (Ok u, t)"
  shows "\<exists>s'. VestingQueues s' = VestingQueues s \<and> ApplyVestingSchedules k a s' = (Ok (), t)"
proof -
  have core: "kept_core VestingQueues k"
    using queues_kept kept_by_all.axioms(1) kept_by_messages.axioms(1) by blast
  note keeps = keepsPart_run [OF kept_core.payments_keep(1) [OF core]] keepsPart_run [OF kept_core.payments_keep(2) [OF core]]
    keepsPart_run [OF kept_core.payments_keep(3) [OF core]]
  from assms show ?thesis
    by (auto simp: CloseFixedPriceAuction_def finishBatch_def Ok_iffs dest!: keeps)
qed

lemma started_outcomes:
  assumes "ExecuteStartedStatus k a s = (Ok u, t)" and "GetType a \<noteq> AuctionTypeNil"
  shows "t = s \<or> (\<exists>s'. VestingQueues s' = VestingQueues s \<and>
    (ExtendRound a s' = (Ok (), t) \<or> ApplyVestingSchedules k a s' = (Ok (), t)))"
proof -
  have core: "kept_core VestingQueues k"
    using queues_kept kept_by_all.axioms(1) kept_by_messages.axioms(1) by blast
  have calc: "CalculateBatchAllocation k a s = (Ok mi, v) \<Longrightarrow> VestingQueues v = VestingQueues s" for mi v
    using keepsPart_run [OF kept_core.payments_keep(5) [OF core]] by blast
  have "t = s \<or> CloseFixedPriceAuction k a s = (Ok (), t) \<or> CloseBatchAuction k a s = (Ok (), t)"
    using assms by (auto simp: ExecuteStartedStatus_def Ok_iffs split: if_split_asm AuctionType.split_asm)
  then consider "t = s" | "CloseFixedPriceAuction k a s = (Ok (), t)" | "CloseBatchAuction k a s = (Ok (), t)" by blast
  then show ?thesis
  proof cases
    case 2
    then show ?thesis using closing_ends_with_vesting [of a s "()" t] by blast
  next
    case 3
    then obtain mi v where "CalculateBatchAllocation k a s = (Ok mi, v)"
      and "ExtendRound a v = (Ok (), t) \<or> finishBatch k a mi v = (Ok (), t)"
      by (auto simp: CloseBatchAuction_def Ok_iffs Let_def split: AuctionI.split_asm if_split_asm)
    then show ?thesis using closing_ends_with_vesting [of a v "()" t mi] calc by metis
  qed simp
qed

text \<open>A close leaves the queues of the other auctions, and those of its own auction are as they should.\<close>

lemma vesting_starts:
  assumes inv: "Inv k s" and a: "GetAuction i s = Some a" and op: "isOpen a"
    and same: "VestingQueues s' = VestingQueues s" and run: "ApplyVestingSchedules k a s' = (Ok (), t)"
  shows "vestingOK t i" and "j \<noteq> i \<Longrightarrow> GetVestingQueuesByAuctionId j t = GetVestingQueuesByAuctionId j s"
proof -
  let ?vs = "ba_VestingSchedules (base a)" and ?R = "spendable k (PayingReserveAddress k i) (ba_PayingCoinDenom (base a)) s'"
  have ok: "auctionOK k i a" by (rule InvD(2) [OF inv a])
  then have ida: "ba_Id (base a) = i" by (simp add: auctionOK_def)
  have none: "GetVestingQueuesByAuctionId i s = []" using InvD(6) [OF inv a] op by (simp add: fundsOK_def)
  obtain x bk where t: "t = (if ?vs = [] then SetAuction (SetStatus AuctionStatusFinished a) (s'\<lparr>bank := bk\<rparr>)
      else SetAuction (SetStatus AuctionStatusVesting a)
        (fold SetVestingQueue (queuesFor a (AccAddressString k x) ?R ?vs ?R) (s'\<lparr>bank := bk\<rparr>)))"
    using ApplyVestingSchedules_run [OF ok, of s'] run by auto
  define qs where "qs = queuesFor a (AccAddressString k x) ?R ?vs ?R"
  have mine: "\<forall>q \<in> set qs. vq_AuctionId q = i \<and> \<not> vq_Released q"
    using ida by (auto simp: qs_def dest!: queuesFor_mem)
  have times: "map vq_ReleaseTime qs = map vs_ReleaseTime ?vs" by (simp add: qs_def queuesFor_times)
  have sorted: "sorted_wrt (<) (map vq_ReleaseTime qs)"
    using ok unfolding times by (simp add: auctionOK_def validSchedules_def)
  have get: "GetAuction i t = Some (SetStatus (if ?vs = [] then AuctionStatusFinished else AuctionStatusVesting) a)"
    by (simp add: t SetAuction_def GetAuction_def ida)
  have "VestingQueues t = VestingQueues (fold SetVestingQueue (if ?vs = [] then [] else qs) s)"
    by (simp add: t SetAuction_def same qs_def fold_queues_cong [of "s'\<lparr>bank := bk\<rparr>" s])
  then have queues: "GetVestingQueuesByAuctionId j t
      = GetVestingQueuesByAuctionId j (fold SetVestingQueue (if ?vs = [] then [] else qs) s)" for j
    by (rule VestingQueues_only)
  show "GetVestingQueuesByAuctionId j t = GetVestingQueuesByAuctionId j s" if "j \<noteq> i"
    unfolding queues by (rule other_queues) (use mine that in auto)
  show "vestingOK t i"
  proof (cases "?vs = []")
    case True
    then show ?thesis using get by (simp add: vestingOK_def SetStatus_def)
  next
    case False
    have all: "set (GetVestingQueuesByAuctionId i t) = set qs"
      and list: "map vq_ReleaseTime (GetVestingQueuesByAuctionId i t) = map vs_ReleaseTime ?vs"
      using queues_after_close [OF InvD(1) [OF inv] none _ sorted] mine False times by (simp_all add: queues)
    then have "GetVestingQueuesByAuctionId i t \<noteq> []" using False by auto
    then have "last (GetVestingQueuesByAuctionId i t) \<in> set qs" using all last_in_set by metis
    then show ?thesis using get False list mine by (simp add: vestingOK_def)
  qed
qed

end

section \<open>One auction in a begin block\<close>

text \<open>A block at this time finds every date of the auction past.\<close>

definition lateFor :: "time \<Rightarrow> AuctionI \<Rightarrow> bool" where
  "lateFor now a \<longleftrightarrow> ba_StartTime (base a) \<le> now \<and> last (ba_EndTimes (base a)) \<le> now
     \<and> (\<forall>v \<in> set (ba_VestingSchedules (base a)). vs_ReleaseTime v \<le> now)"

definition vestingStep :: "uint64 \<Rightarrow> AuctionI \<Rightarrow> 'b state \<Rightarrow> 'b state \<Rightarrow> bool" where
  "vestingStep i a s t \<longleftrightarrow> vestingOK t i
     \<and> (\<forall>j. j \<noteq> i \<longrightarrow> GetVestingQueuesByAuctionId j t = GetVestingQueuesByAuctionId j s)
     \<and> (ba_Status (base a) = AuctionStatusVesting \<longrightarrow> lateFor (BlockTime s) a
         \<longrightarrow> GetAuction i t = Some (SetStatus AuctionStatusFinished a))"

lemma SetStatus_status: "ba_Status (base (SetStatus st a)) = st"
  by (cases a) (simp_all add: SetStatus_def)

context fundraising
begin

lemma queues_core: "kept_core VestingQueues k"
  using queues_kept kept_by_all.axioms(1) kept_by_messages.axioms(1) by blast

lemma slice_core: "kept_core (GetVestingQueuesByAuctionId j) k"
  by unfold_locales (simp_all add: hooksKeep_def hooks_observe GetVestingQueuesByAuctionId_def)

lemma release_keeps_others:
  assumes "\<forall>q \<in> set qs. vq_AuctionId q \<noteq> j"
  shows "keepsPart (GetVestingQueuesByAuctionId j) (releaseLoop k a qs)"
  using assms
proof (induction qs)
  case (Cons q qs)
  have "keepsPart (GetVestingQueuesByAuctionId j) (modifyM (SetVestingQueue (SetReleased True q)))"
    using Cons.prems by (intro keeps_modify) (simp add: SetVestingQueue_def GetVestingQueuesByAuctionId_def SetReleased_def)
  then show ?case unfolding releaseLoop.simps
    by (intro kept_core.steps [OF slice_core]) (use Cons in simp_all)
qed (simp add: keeping)

lemma waiting_step:
  assumes "GetAuction i s = Some a" and "ba_Status (base a) = AuctionStatusStandBy" and "ba_Id (base a) = i"
    and "ExecuteStandByStatus a s = (Ok u, t)"
  shows "vestingStep i a s t"
proof -
  have "t = s \<or> t = SetAuction (SetStatus AuctionStatusStarted a) s"
    using assms(4) by (auto simp: ExecuteStandByStatus_def Ok_iffs split: if_split_asm)
  moreover have "GetAuction i (SetAuction (SetStatus AuctionStatusStarted a) s) = Some (SetStatus AuctionStatusStarted a)"
    using assms(3) by (simp add: SetAuction_def GetAuction_def)
  ultimately show ?thesis using assms(1,2)
    by (auto simp: vestingStep_def vestingOK_def SetStatus_status SetAuction_def GetVestingQueuesByAuctionId_def)
qed

lemma started_step:
  assumes inv: "Inv k s" and a: "GetAuction i s = Some a" and st: "ba_Status (base a) = AuctionStatusStarted"
    and run: "ExecuteStartedStatus k a s = (Ok u, t)"
  shows "vestingStep i a s t"
proof -
  have ok: "auctionOK k i a" by (rule InvD(2) [OF inv a])
  then have ida: "GetId a = i" and "GetType a \<noteq> AuctionTypeNil" by (cases a; simp add: auctionOK_def)+
  from started_outcomes [OF run this(2)] consider "t = s"
    | s' where "VestingQueues s' = VestingQueues s" "ExtendRound a s' = (Ok (), t)"
    | s' where "VestingQueues s' = VestingQueues s" "ApplyVestingSchedules k a s' = (Ok (), t)" by blast
  then show ?thesis
  proof cases
    case 1
    then show ?thesis using a st by (simp add: vestingStep_def vestingOK_def)
  next
    case 2
    have "VestingQueues t = VestingQueues s"
      using keepsPart_run [OF kept_core.payments_keep(4) [OF queues_core] 2(2)] 2(1) by simp
    then have "GetVestingQueuesByAuctionId j t = GetVestingQueuesByAuctionId j s" for j by (rule VestingQueues_only)
    moreover obtain es where "GetAuction i t = Some (SetEndTimes es a)" using ExtendRound_Ok [OF 2(2)] ida by blast
    moreover have "ba_Status (base (SetEndTimes es a)) = AuctionStatusStarted"
      using st by (cases a) (simp_all add: SetEndTimes_def)
    ultimately show ?thesis using st by (simp add: vestingStep_def vestingOK_def)
  next
    case 3
    have "isOpen a" using st by (simp add: isOpen_def)
    from vesting_starts [OF inv a this 3] st show ?thesis by (simp add: vestingStep_def)
  qed
qed

lemma vesting_step:
  assumes inv: "Inv k s" and a: "GetAuction i s = Some a" and st: "ba_Status (base a) = AuctionStatusVesting"
    and good: "vestingOK s i" and run: "ExecuteVestingStatus k a s = (Ok u, t)"
  shows "vestingStep i a s t"
proof -
  let ?qs = "GetVestingQueuesByAuctionId i s" and ?vs = "ba_VestingSchedules (base a)"
  have ok: "auctionOK k i a" by (rule InvD(2) [OF inv a])
  have vs: "?vs \<noteq> []" and times: "map vq_ReleaseTime ?qs = map vs_ReleaseTime ?vs" and unrel: "\<not> vq_Released (last ?qs)"
    using good a st by (simp_all add: vestingOK_def)
  have qs: "?qs \<noteq> []" using vs times by auto
  obtain x where x: "GetAuctioneer k a = Some x" by (rule auctioneer_decodes [OF ok])
  have t: "GetVestingQueuesByAuctionId i t = map (releasedAt (BlockTime s)) ?qs"
    "GetAuction i t = Some (if ShouldRelease (last ?qs) (BlockTime s) then SetStatus AuctionStatusFinished a else a)"
    using ExecuteVestingStatus_Inv [OF inv a st x] run qs by auto
  have "GetVestingQueuesByAuctionId j t = GetVestingQueuesByAuctionId j s" if "j \<noteq> i" for j
  proof -
    have "releaseLoop k a ?qs s = (Ok (), t)"
      using run ok by (simp add: ExecuteVestingStatus_def ReleaseVestingPayingCoin_def Ok_iffs auctionOK_def)
    moreover have "\<forall>q \<in> set ?qs. vq_AuctionId q \<noteq> j" using stored_queue [OF InvD(1) [OF inv]] that by blast
    ultimately show ?thesis by (blast intro: keepsPart_run [OF release_keeps_others])
  qed
  moreover have "vestingOK t i"
  proof (cases "ShouldRelease (last ?qs) (BlockTime s)")
    case True
    then show ?thesis using t(2) by (simp add: vestingOK_def SetStatus_status)
  next
    case False
    have "map vq_ReleaseTime (map (releasedAt (BlockTime s)) ?qs) = map vq_ReleaseTime ?qs"
      by (simp add: releasedAt_def SetReleased_def)
    moreover have "last (map (releasedAt (BlockTime s)) ?qs) = last ?qs"
      using qs False by (simp add: last_map releasedAt_def)
    ultimately show ?thesis using t False st vs times unrel by (simp add: vestingOK_def del: map_map)
  qed
  moreover have "ShouldRelease (last ?qs) (BlockTime s)" if "lateFor (BlockTime s) a"
  proof -
    have "vq_ReleaseTime (last ?qs) = last (map vs_ReleaseTime ?vs)" using qs times by (metis last_map)
    also have "\<dots> \<in> vs_ReleaseTime ` set ?vs" using vs by (metis last_in_set list.map_disc_iff list.set_map)
    finally show ?thesis using that unrel by (auto simp: lateFor_def ShouldRelease_def)
  qed
  ultimately show ?thesis using t(2) by (simp add: vestingStep_def)
qed

lemma execute_step:
  assumes "Inv k s" and "GetAuction i s = Some a" and "vestingOK s i" and "executeAuction k a s = (Ok u, t)"
  shows "vestingStep i a s t"
proof (cases "ba_Status (base a)")
  case AuctionStatusStandBy
  then show ?thesis using waiting_step [OF assms(2)] InvD(2) [OF assms(1,2)] assms(4)
    by (simp add: executeAuction_def auctionOK_def)
next
  case AuctionStatusStarted
  then show ?thesis using started_step [OF assms(1,2)] assms(4) by (simp add: executeAuction_def)
next
  case AuctionStatusVesting
  then show ?thesis using vesting_step [OF assms(1,2) _ assms(3)] assms(4) by (simp add: executeAuction_def)
qed (use assms in \<open>simp_all add: executeAuction_def Ok_iffs vestingStep_def\<close>)

end

section \<open>The whole block\<close>

context fundraising
begin

lemma executeAll_step:
  assumes "Inv k s" and "\<forall>a \<in> set as. GetAuction (GetId a) s = Some a" and "distinct (map GetId as)"
    and "foreachM (executeAuction k) as s = (Ok u, t)" and "\<forall>j. vestingOK s j"
  shows "(\<forall>j. vestingOK t j) \<and> (\<forall>a \<in> set as. ba_Status (base a) = AuctionStatusVesting \<longrightarrow>
    lateFor (BlockTime s) a \<longrightarrow> GetAuction (GetId a) t = Some (SetStatus AuctionStatusFinished a))"
  using assms
proof (induction as arbitrary: s)
  case Nil
  then show ?case by (simp add: Ok_iffs)
next
  case (Cons a as)
  let ?i = "GetId a"
  have a: "GetAuction ?i s = Some a" using Cons.prems(2) by simp
  obtain v where v: "executeAuction k a s = (Ok (), v)" and rest: "foreachM (executeAuction k) as v = (Ok u, t)"
    using Cons.prems(4) by (auto simp: bindM_Ok_iff)
  have sv: "stepped k ?i s v" using executeAuction_Inv [OF Cons.prems(1) a] v by auto
  have step: "vestingStep ?i a s v" using execute_step [OF Cons.prems(1) a _ v] Cons.prems(5) by blast
  have good: "vestingOK v j" for j
  proof (cases "j = ?i")
    case False
    then show ?thesis using vestingOK_cong [of j v s] sv step Cons.prems(5) by (simp add: stepped_def vestingStep_def)
  qed (use step in \<open>simp add: vestingStep_def\<close>)
  have fresh: "?i \<notin> GetId ` set as" and dist: "distinct (map GetId as)"
    using Cons.prems(3) by (simp_all only: list.map distinct.simps list.set_map not_False_eq_True)
  have other: "\<forall>b \<in> set as. GetAuction (GetId b) v = Some b"
  proof
    fix b
    assume b: "b \<in> set as"
    then have "GetId b \<noteq> ?i" using fresh by (metis image_eqI)
    then show "GetAuction (GetId b) v = Some b" using sv Cons.prems(2) b unfolding stepped_def by (metis list.set_intros(2))
  qed
  have inv: "Inv k v" and time: "BlockTime v = BlockTime s" using sv by (simp_all add: stepped_def)
  have "GetAuction ?i t = GetAuction ?i v" using executeAll_Inv [OF inv other dist] rest fresh by auto
  then show ?case using Cons.IH [OF inv other dist rest] good step time by (simp add: vestingStep_def)
qed

lemma block_step:
  assumes inv: "Inv k s" and good: "\<forall>j. vestingOK s j" and run: "BeginBlocker k s = (Ok u, t)"
  shows "\<forall>j. vestingOK t j"
    and "GetAuction i s = Some a \<Longrightarrow> ba_Status (base a) = AuctionStatusVesting \<Longrightarrow> lateFor (BlockTime s) a \<Longrightarrow>
      GetAuction i t = Some (SetStatus AuctionStatusFinished a)"
proof -
  have dist: "distinct (map GetId (GetAuctions s))"
    unfolding listed_auctions(1) [OF inv] using InvD(1) [OF inv] by (simp add: storeOK_def owf_distinct)
  have as: "\<forall>a \<in> set (GetAuctions s). GetAuction (GetId a) s = Some a" using listed_auctions(2) [OF inv] by blast
  have "foreachM (executeAuction k) (GetAuctions s) s = (Ok (), t)" using run by (simp add: BeginBlocker_def Ok_iffs)
  note all = executeAll_step [OF inv as dist this good]
  then show "\<forall>j. vestingOK t j" by blast
  show "GetAuction i t = Some (SetStatus AuctionStatusFinished a)"
    if "GetAuction i s = Some a" "ba_Status (base a) = AuctionStatusVesting" "lateFor (BlockTime s) a"
    using all listed_auctions(3) [OF inv that(1)] that(2,3) by auto
qed

end

section \<open>Between the blocks\<close>

text \<open>What is not a begin block neither touches a queue nor makes an auction vest.\<close>

definition noNewVesting :: "'b state \<Rightarrow> 'b state \<Rightarrow> bool" where
  "noNewVesting s t \<longleftrightarrow> VestingQueues t = VestingQueues s
     \<and> (\<forall>i a'. GetAuction i t = Some a' \<longrightarrow> ba_Status (base a') \<noteq> AuctionStatusNil \<and> ba_Status (base a') \<noteq> AuctionStatusVesting
        \<or> (\<exists>a. GetAuction i s = Some a \<and> ba_Status (base a') = ba_Status (base a)
           \<and> ba_VestingSchedules (base a') = ba_VestingSchedules (base a)))"

lemma noNewVesting_same: "Auctions t = Auctions s \<Longrightarrow> VestingQueues t = VestingQueues s \<Longrightarrow> noNewVesting s t"
  by (simp add: noNewVesting_def GetAuction_def)

lemma noNewVesting_one:
  assumes "VestingQueues t = VestingQueues s" and "\<And>j. GetAuction j t = (if j = i then Some a' else GetAuction j s)"
    and "ba_Status (base a') = AuctionStatusStandBy \<or> ba_Status (base a') = AuctionStatusStarted
      \<or> ba_Status (base a') = AuctionStatusCancelled"
  shows "noNewVesting s t"
  using assms by (auto simp: noNewVesting_def)

lemma noNewVesting_vestingOK:
  assumes "noNewVesting s t" and "\<forall>j. vestingOK s j"
  shows "vestingOK t j"
proof -
  have "GetVestingQueuesByAuctionId j t = GetVestingQueuesByAuctionId j s"
    using assms(1) by (simp add: noNewVesting_def GetVestingQueuesByAuctionId_def)
  then show ?thesis using assms by (auto simp: noNewVesting_def vestingOK_def) metis+
qed

context fundraising
begin

lemma handleMsg_queues: "handleMsg k msg s = (r, t) \<Longrightarrow> VestingQueues t = VestingQueues s"
  by (rule keepsPart_run [OF kept_by_all.every_message_keeps [OF queues_kept]])

lemma handleMsg_noNewVesting:
  assumes inv: "Inv k s" and valid: "Msg_ValidateBasic k msg = Ok ()" and run: "handleMsg k msg s = (Ok u, t)"
  shows "noNewVesting s t"
proof (cases msg)
  case (CreateFixedPriceAuctionMsg m)
  then obtain a where run': "CreateFixedPriceAuction k m s = (Ok a, t)"
    using run by (auto simp: msgServer_CreateFixedPriceAuction_def Ok_iffs)
  show ?thesis
    by (rule CreateFixedPriceAuction_Ok [OF run'], use valid CreateFixedPriceAuctionMsg in simp,
        rule noNewVesting_one [where i = "GetId a" and a' = a, OF handleMsg_queues [OF run]])
      (auto simp: SetAuction_def GetAuction_def fixedAuctionOf_def baseFor_def)
next
  case (CreateBatchAuctionMsg m)
  then obtain a where run': "CreateBatchAuction k m s = (Ok a, t)"
    using run by (auto simp: msgServer_CreateBatchAuction_def Ok_iffs)
  show ?thesis
    by (rule CreateBatchAuction_Ok [OF run'], use valid CreateBatchAuctionMsg in simp,
        rule noNewVesting_one [where i = "GetId a" and a' = a, OF handleMsg_queues [OF run]])
      (auto simp: SetAuction_def GetAuction_def batchAuctionOf_def baseFor_def)
next
  case (CancelAuctionMsg m)
  then have "CancelAuction k m s = (Ok (), t)" using run by (auto simp: msgServer_CancelAuction_def Ok_iffs)
  from this inv show ?thesis
  proof (rule CancelAuction_Ok)
    fix a bk ev
    assume a: "GetAuction (mc_AuctionId m) s = Some a" and t: "t = (SetAuction (cancelled a) (s\<lparr>bank := bk\<rparr>))\<lparr>events := ev\<rparr>"
    then show ?thesis using InvD(2) [OF inv a]
      by (intro noNewVesting_one [where i = "mc_AuctionId m" and a' = "cancelled a", OF handleMsg_queues [OF run]])
        (auto simp: SetAuction_def GetAuction_def cancelled_def auctionOK_def SetStatus_def split: AuctionI.splits)
  qed
next
  case (PlaceBidMsg m)
  then obtain b where run': "PlaceBid k m s = (Ok b, t)" using run by (auto simp: msgServer_PlaceBid_def Ok_iffs)
  have "mp_ValidateBasic k m = Ok ()" using valid PlaceBidMsg by simp
  from run' inv this obtain a n c bk bi ev where a: "GetAuction (mp_AuctionId m) s = Some a"
    and st: "ba_Status (base a) = AuctionStatusStarted" and ok: "auctionOK k (mp_AuctionId m) a"
    and t: "t = (afterPlacing k a c (s\<lparr>bank := bk, LastBidIds := oset (mp_AuctionId m) n (LastBidIds s)\<rparr>))
      \<lparr>Bids := oset (mp_AuctionId m, n) b (Bids s), BidIndex := bi, events := ev\<rparr>"
    by (rule PlaceBid_Ok)
  show ?thesis
  proof (cases a)
    case (FixedPriceAuction ba r)
    then show ?thesis using st ok t
      by (intro noNewVesting_one [where i = "mp_AuctionId m" and a' = "FixedPriceAuction ba
            (Coin (Denom r) (Amount r - ConvertToSellingAmount k c (ba_PayingCoinDenom ba)))", OF handleMsg_queues [OF run]])
        (auto simp: afterPlacing_def SetAuction_def GetAuction_def auctionOK_def)
  next
    case BatchAuction
    then show ?thesis using t handleMsg_queues [OF run] by (intro noNewVesting_same) (simp_all add: afterPlacing_def)
  qed
next
  case (ModifyBidMsg m)
  then have "ModifyBid k m s = (Ok (), t)" using run by (auto simp: msgServer_ModifyBid_def Ok_iffs)
  from this inv show ?thesis by (rule ModifyBid_Ok) (auto intro: noNewVesting_same)
next
  case (AddAllowedBidderMsg m)
  then have "\<exists>u. AddAllowedBidders k (ma_AuctionId m) [ma_AllowedBidder m] s = (Ok u, t)"
    using run by (auto simp: msgServer_AddAllowedBidder_def Ok_iffs split: if_splits)
  then show ?thesis using AddAllowedBidders_Auctions handleMsg_queues [OF run] noNewVesting_same by blast
next
  case OtherMsg
  then show ?thesis using run by (simp add: raiseM_def)
qed

lemma AddAllowedBidders_queues: "AddAllowedBidders k i bidders s = (r, t) \<Longrightarrow> VestingQueues t = VestingQueues s"
proof -
  have "keepsPart VestingQueues (addAllowedBidder k i a b)" for i a b
    unfolding addAllowedBidder_def SetAllowedBidder_def by (intro keeping keeps_modify) simp
  then have "keepsPart VestingQueues (AddAllowedBidders k i bidders)"
    unfolding AddAllowedBidders_def hook_defs by (intro kept_core.steps [OF queues_core])
  then show "AddAllowedBidders k i bidders s = (r, t) \<Longrightarrow> VestingQueues t = VestingQueues s" by (rule keepsPart_run)
qed

lemma chainStep_vestingOK:
  assumes "chainStep k s t" and "Inv k s" and "\<forall>j. vestingOK s j"
  shows "\<forall>j. vestingOK t j"
  using assms
proof (induction rule: chainStep.induct)
  case (deliver msg s evs t)
  from deliver(3) obtain u where u: "handleMsg k msg (s\<lparr>events := []\<rparr>) = (Ok (), u)" "t = u\<lparr>events := events s\<rparr>"
    by (rule NewHandler_Ok)
  have "noNewVesting (s\<lparr>events := []\<rparr>) u" by (rule handleMsg_noNewVesting [OF Inv_events [OF deliver(4)] deliver(1) u(1)])
  then have "noNewVesting s t" by (simp add: noNewVesting_def GetAuction_def u(2))
  then show ?case using noNewVesting_vestingOK deliver(5) by blast
next
  case (beginBlock s now u t)
  let ?s = "s\<lparr>BlockTime := now\<rparr>"
  have "\<forall>j. vestingOK ?s j"
    using beginBlock(4) by (simp add: vestingOK_def GetAuction_def GetVestingQueuesByAuctionId_def)
  then show ?case using block_step(1) [OF at_time_Inv [OF beginBlock(3)] _ beginBlock(2)] by blast
next
  case (addBidders bidders i s u t)
  then show ?case
    using noNewVesting_vestingOK [OF noNewVesting_same [OF AddAllowedBidders_Auctions AddAllowedBidders_queues]] by blast
next
  case (updateBidder i x m s u t)
  then have "noNewVesting s t"
    by (auto simp: UpdateAllowedBidder_def run_Ok Let_def SetAllowedBidder_Ok intro!: noNewVesting_same)
  then show ?case using noNewVesting_vestingOK updateBidder(3) by blast
next
  case (changeParams p s u t)
  then have "noNewVesting s t" by (auto simp: SetParams_def Ok_iffs intro!: noNewVesting_same)
  then show ?case using noNewVesting_vestingOK changeParams(3) by blast
next
  case (elsewhere s b)
  have "noNewVesting s (s\<lparr>bank := b\<rparr>)" by (simp add: noNewVesting_same)
  then show ?case using noNewVesting_vestingOK elsewhere(3) by blast
qed

end

sublocale fundraising \<subseteq> vesting: invariant_system emptyStore "chainStep k" "\<lambda>s. Inv k s \<and> (\<forall>j. vestingOK s j)"
proof
  show "Inv k s \<and> (\<forall>j. vestingOK s j)" if "emptyStore s" for s
    using emptyStore_Inv [OF that] that by (simp add: vestingOK_def emptyStore_def GetAuction_def)
qed (metis chainStep_Inv chainStep_vestingOK)

section \<open>The steps left\<close>

definition maxRounds :: "AuctionI \<Rightarrow> nat" where
  "maxRounds a = (case a of FixedPriceAuction _ _ \<Rightarrow> 0 | BatchAuction _ _ _ mx _ \<Rightarrow> unat mx)"

text \<open>The number of late blocks an auction has at most to go.\<close>

definition stepsLeft :: "AuctionI \<Rightarrow> nat" where
  "stepsLeft a = (case ba_Status (base a) of
     AuctionStatusStandBy \<Rightarrow> 3 + (maxRounds a + 1 - length (ba_EndTimes (base a)))
   | AuctionStatusStarted \<Rightarrow> 2 + (maxRounds a + 1 - length (ba_EndTimes (base a)))
   | AuctionStatusVesting \<Rightarrow> 1
   | _ \<Rightarrow> 0)"

lemma stepsLeft_bound: "ba_EndTimes (base a) \<noteq> [] \<Longrightarrow> stepsLeft a \<le> maxRounds a + 3"
  by (cases "ba_EndTimes (base a)") (auto simp: stepsLeft_def split: AuctionStatus.split)

lemma stepsLeft_0:
  "stepsLeft a = 0 \<longleftrightarrow> ba_Status (base a) \<in> {AuctionStatusNil, AuctionStatusFinished, AuctionStatusCancelled}"
  by (simp add: stepsLeft_def split: AuctionStatus.split)

text \<open>Nothing moves an auction back.\<close>

lemma stepsLeft_sameTerms:
  assumes "sameTerms a a'"
  shows "stepsLeft a' \<le> stepsLeft a"
proof -
  have "maxRounds a' = maxRounds a" using assms by (cases a) (auto simp: sameTerms_def maxRounds_def)
  moreover have "length (ba_EndTimes (base a)) \<le> length (ba_EndTimes (base a'))"
    using assms by (auto simp: sameTerms_def)
  moreover have "follows (ba_Status (base a)) (ba_Status (base a'))" using assms by (simp add: sameTerms_def)
  ultimately show ?thesis by (cases "ba_Status (base a)"; cases "ba_Status (base a')") (simp_all add: stepsLeft_def)
qed

text \<open>A late block moves it on.\<close>

lemma stepsLeft_closedAs: "ba_Status (base a) = AuctionStatusStarted \<Longrightarrow> stepsLeft (closedAs a) < stepsLeft a"
  by (cases a) (auto simp: stepsLeft_def closedAs_def SetStatus_def)

lemma stepsLeft_round:
  assumes "ba_Status (base a) = AuctionStatusStarted" and "oneMoreRound a a'"
  shows "stepsLeft a' < stepsLeft a"
proof (cases a)
  case (BatchAuction b mn mp mx er)
  then obtain e where "length (ba_EndTimes b) \<le> unat mx" "a' = SetEndTimes (ba_EndTimes b @ [e]) a"
    using assms(2) by (auto simp: oneMoreRound_def)
  then show ?thesis using assms(1) BatchAuction by (simp add: stepsLeft_def SetEndTimes_def maxRounds_def)
qed (use assms(2) in \<open>simp add: oneMoreRound_def\<close>)

lemma stepsLeft_late:
  assumes "evolves now a a'" and "lateFor now a" and "0 < stepsLeft a"
    and "ba_Status (base a) = AuctionStatusVesting \<longrightarrow> a' = SetStatus AuctionStatusFinished a"
  shows "stepsLeft a' < stepsLeft a"
proof (cases "ba_Status (base a)")
  case AuctionStatusStandBy
  then have "a' = SetStatus AuctionStatusStarted a" using assms(1,2) by (simp add: evolves_def lateFor_def)
  then show ?thesis using AuctionStatusStandBy by (cases a) (simp_all add: stepsLeft_def SetStatus_def maxRounds_def)
next
  case AuctionStatusStarted
  then have "a' = closedAs a \<or> oneMoreRound a a'" using assms(1,2) by (simp add: evolves_def lateFor_def)
  then show ?thesis using stepsLeft_closedAs stepsLeft_round AuctionStatusStarted by blast
next
  case AuctionStatusVesting
  then show ?thesis using assms(4) by (simp add: stepsLeft_def SetStatus_status)
qed (use assms(3) in \<open>simp_all add: stepsLeft_def\<close>)

section \<open>Every auction comes to an end\<close>

text \<open>A run with \<open>n\<close> begin blocks that are late for auction \<open>i\<close>, and whatever else between them.\<close>

inductive lateBlocks :: "('b, 'z) keeper_scheme \<Rightarrow> uint64 \<Rightarrow> nat \<Rightarrow> 'b state \<Rightarrow> 'b state \<Rightarrow> bool" for k i where
  none: "lateBlocks k i 0 s s"
| other: "lateBlocks k i n s t \<Longrightarrow> chainStep k t u \<Longrightarrow> lateBlocks k i n s u"
| late: "lateBlocks k i n s t \<Longrightarrow> BlockTime t \<le> now \<Longrightarrow> (\<And>a. GetAuction i t = Some a \<Longrightarrow> lateFor now a) \<Longrightarrow>
    BeginBlocker k (t\<lparr>BlockTime := now\<rparr>) = (Ok (), u) \<Longrightarrow> lateBlocks k i (Suc n) s u"

context fundraising
begin

lemma reachable_vestingOK: "reachable k s \<Longrightarrow> \<forall>j. vestingOK s j"
  unfolding reachable_def using vesting.inv_reachable by blast

lemma late_block_moves_on:
  assumes inv: "Inv k t" and good: "\<forall>j. vestingOK t j" and a: "GetAuction i t = Some a" and late: "lateFor now a"
    and run: "BeginBlocker k (t\<lparr>BlockTime := now\<rparr>) = (Ok (), u)"
  shows "\<exists>a'. GetAuction i u = Some a' \<and> stepsLeft a' \<le> stepsLeft a - 1"
proof -
  let ?t = "t\<lparr>BlockTime := now\<rparr>"
  have a': "GetAuction i ?t = Some a" using a by (simp add: GetAuction_def)
  have good': "\<forall>j. vestingOK ?t j"
    using good by (simp add: vestingOK_def GetAuction_def GetVestingQueuesByAuctionId_def)
  obtain b where b: "GetAuction i u = Some b" "evolves now a b"
    using BeginBlocker_Inv [OF at_time_Inv [OF inv, of now]] run a' by (auto dest!: spec [of _ i])
  have "ba_Status (base a) = AuctionStatusVesting \<longrightarrow> b = SetStatus AuctionStatusFinished a"
    using block_step(2) [OF at_time_Inv [OF inv] good' run a'] b(1) late by auto
  then have "stepsLeft b < stepsLeft a \<or> stepsLeft a = 0 \<and> stepsLeft b \<le> stepsLeft a"
    using stepsLeft_late [OF b(2) late] stepsLeft_sameTerms [OF evolves_sameTerms [OF b(2)]] by auto
  then show ?thesis using b(1) by auto
qed

lemma lateBlocks_progress:
  assumes "lateBlocks k i n s t" and "Inv k s" and "\<forall>j. vestingOK s j" and "GetAuction i s = Some a"
  shows "Inv k t \<and> (\<forall>j. vestingOK t j) \<and> (\<exists>a'. GetAuction i t = Some a' \<and> stepsLeft a' \<le> stepsLeft a - n)"
  using assms
proof (induction rule: lateBlocks.induct)
  case (none s)
  then show ?case by simp
next
  case (other n s t u)
  then obtain b where t: "Inv k t" "\<forall>j. vestingOK t j" "GetAuction i t = Some b" "stepsLeft b \<le> stepsLeft a - n" by blast
  obtain c where "GetAuction i u = Some c" "sameTerms b c"
    using chainStep_keepsTerms [OF other(2) t(1)] t(3) unfolding keepsTerms_def by blast
  then show ?case using chainStep_Inv [OF t(1) other(2)] chainStep_vestingOK [OF other(2) t(1,2)] t(4)
      stepsLeft_sameTerms [of b c] by auto
next
  case (late n s t now u)
  then obtain b where t: "Inv k t" "\<forall>j. vestingOK t j" "GetAuction i t = Some b" "stepsLeft b \<le> stepsLeft a - n" by blast
  have step: "chainStep k t u" using late(2,4) by (rule chainStep.beginBlock)
  obtain c where "GetAuction i u = Some c" "stepsLeft c \<le> stepsLeft b - 1"
    using late_block_moves_on [OF t(1-3) late(3) [OF t(3)] late(4)] by blast
  then show ?case using chainStep_Inv [OF t(1) step] chainStep_vestingOK [OF step t(1,2)] t(4) by auto
qed

end

text \<open>Late blocks can always be had: time has to pass, and the begin blocker does not panic.\<close>

lemma late_time: "\<exists>now. b \<le> now \<and> lateFor now a"
proof -
  let ?T = "{b, ba_StartTime (base a), last (ba_EndTimes (base a))} \<union> vs_ReleaseTime ` set (ba_VestingSchedules (base a))"
  have "finite ?T" by simp
  then have "\<forall>x \<in> ?T. x \<le> Max ?T" by (metis Max_ge)
  then show ?thesis by (intro exI [of _ "Max ?T"]) (auto simp: lateFor_def)
qed

lemma lateBlocks_steps: "lateBlocks k i n s t \<Longrightarrow> (chainStep k)\<^sup>*\<^sup>* s t"
  by (induction rule: lateBlocks.induct) (auto intro: rtranclp.rtrancl_into_rtrancl chainStep.beginBlock)

context fundraising
begin

lemma lateBlocks_exist:
  assumes "Inv k s"
  shows "\<exists>t. lateBlocks k i n s t"
proof (induction n)
  case 0
  show ?case using lateBlocks.none by blast
next
  case (Suc n)
  then obtain t where t: "lateBlocks k i n s t" by blast
  have inv: "Inv k t" by (rule chain.inv_steps [OF lateBlocks_steps [OF t] assms])
  obtain now where now: "BlockTime t \<le> now" "\<forall>a. GetAuction i t = Some a \<longrightarrow> lateFor now a"
    using late_time by (cases "GetAuction i t") auto
  obtain u where "BeginBlocker k (t\<lparr>BlockTime := now\<rparr>) = (Ok (), u)"
    using BeginBlocker_Inv [OF at_time_Inv [OF inv]] by blast
  then show ?case using lateBlocks.late [OF t now(1)] now(2) by blast
qed

end



end
