(* ===== verification/Spec2Isabelle.thy ===== *)
theory Spec2Isabelle
  imports Payoffs Search Frames Settling Actions Lifecycle Encoding Iteration Queries Commands RoundTrip
    Packing Application Simulated AppState Daemon Liveness
begin

text \<open>
  A verification development of the module \<^verbatim>\<open>x/fundraising\<close>: token sales at a fixed price and by
  batch auction, on a Cosmos SDK chain. The code is modelled as functions of HOL with the state passed
  explicitly; every error, panic and early return of the source is a branch of the model.

  \<^bold>\<open>The program.\<close> An auctioneer creates an auction; its coins for sale move to the selling reserve of
  the auction. Allowed bidders place bids and may raise them; what a bid pays moves to the paying
  reserve. At every block the begin blocker walks over the auctions: it starts those whose start time
  has come and closes those whose end time has come. At a fixed price each bid buys at once and the
  close pays out; a batch is matched at its close, at the lowest price of a bid at which not more is
  sold than there is, and may be given further rounds. A close pays the bidders, returns what was not
  sold, refunds what was not charged, and splits the proceeds over vesting queues, which later blocks
  release to the auctioneer. Each auction has three reserve addresses of its own.

  \<^bold>\<open>Model.\<close> Paths are relative to \<^verbatim>\<open>src/x/fundraising\<close>; definitions have the names of the functions
  they model, with a prefix where a Go receiver gives the name (\<open>mf_\<close> etc. for messages,
  \<open>msgServer_\<close>, \<open>Q\<close> for queries).
  \<^item> \<open>Prelude\<close>: results with errors and panics, the keeper monad (an operation returns a result and
    the state it leaves, also after an error: undoing writes is the caller's business), ordered maps
    with the interface \<open>kv_store\<close>.
  \<^item> \<open>SDK\<close>: the library the module calls, as a record of functions, with its documented laws as
    locales (\<open>dec_laws\<close>, \<open>coin_laws\<close>, \<open>address_laws\<close>). \<open>Reference\<close> implements it and
    interprets each locale.
  \<^item> \<open>Types\<close> (\<^verbatim>\<open>types/auction.go\<close>, \<^verbatim>\<open>vesting.go\<close>, \<^verbatim>\<open>allowed_bidder.go\<close>, \<^verbatim>\<open>params.go\<close>, \<^verbatim>\<open>errors.go\<close>,
    \<^verbatim>\<open>utils.go\<close>), \<open>Bids\<close> (\<^verbatim>\<open>types/bid.go\<close>, \<^verbatim>\<open>utils.go\<close>), \<open>Matching\<close> (\<^verbatim>\<open>types/match.go\<close>, the search of
    \<^verbatim>\<open>keeper/match.go\<close>), \<open>Messages\<close> (\<^verbatim>\<open>types/msgs.go\<close>).
  \<^item> \<open>Store\<close> (\<^verbatim>\<open>keeper/store.go\<close>, \<^verbatim>\<open>keeper.go\<close>, \<^verbatim>\<open>hooks.go\<close>, \<^verbatim>\<open>types/hooks.go\<close>, \<^verbatim>\<open>expected_keepers.go\<close>):
    the state is one ordered map per key prefix, the parameters, the block time, the events and a bank of
    type \<open>'b\<close>; the record \<open>keeper\<close> adds the bank's functions, the hooks and the build flag to
    the library. \<open>Iteration\<close>: the iterations with a callback. \<open>Keys\<close> (\<^verbatim>\<open>types/keys.go\<close>): the
    byte keys and the byte store a state stands for.
  \<^item> \<open>Auctions\<close>, \<open>Bidding\<close>, \<open>Settlement\<close> (\<^verbatim>\<open>keeper/auction.go\<close>, \<^verbatim>\<open>bid.go\<close>, \<^verbatim>\<open>match.go\<close>,
    \<^verbatim>\<open>vesting.go\<close>, \<^verbatim>\<open>execution.go\<close>, \<^verbatim>\<open>abci.go\<close>), \<open>MsgServer\<close> (\<^verbatim>\<open>keeper/msg_server.go\<close>,
    \<^verbatim>\<open>handler.go\<close>, \<^verbatim>\<open>keeper/invariants.go\<close>).
  \<^item> \<open>Genesis\<close> (\<^verbatim>\<open>types/genesis.go\<close>, \<^verbatim>\<open>keeper/genesis.go\<close>), \<open>Packing\<close> (the packing of auctions into
    \<open>Any\<close> at the end of \<^verbatim>\<open>types/auction.go\<close>, genesis over packed auctions), \<open>AppModule\<close>
    (\<^verbatim>\<open>module.go\<close>, the construction of the keeper).
  \<^item> \<open>Query\<close> (\<^verbatim>\<open>keeper/grpc_query.go\<close>) and \<open>Client\<close> (\<^verbatim>\<open>client/cli\<close>): how requests select from the
    state and how arguments and flags become messages and requests.
  \<^item> \<open>Simulator\<close> (\<^verbatim>\<open>simulation\<close>): the operations that draw random messages, random genesis and
    parameters, the store decoder.
  \<^item> \<open>GenAccounts\<close> (\<^verbatim>\<open>src/cmd/genaccounts.go\<close>): the command that adds an account to the genesis file,
    \<open>AppState\<close> (\<^verbatim>\<open>src/app/state.go\<close>) the state the simulation of the application starts with.
  \<^item> \<open>Application\<close> (\<^verbatim>\<open>src/app/app.go\<close>): the modules of the application and the orders of their block
    and genesis calls, accounts, stores, routes; the other modules act on the value \<open>bank\<close> of the state,
    which stands for all other stores, and on the parameters. \<open>ZeroHeight\<close> (\<^verbatim>\<open>src/app/export.go\<close>):
    the export, over the staking and slashing stores. \<open>Daemon\<close> (\<^verbatim>\<open>src/cmd/root.go\<close>,
    \<^verbatim>\<open>prefixes.go\<close>): options, defaults of flags over the tree of commands, export at a height.

  \<^bold>\<open>What is shown.\<close>
  \<^item> \<open>Solvency\<close> states the invariant, \<open>Preservation\<close>, \<open>Payouts\<close>, \<open>Closing\<close> and
    \<open>Blocks\<close> show that messages, payments, closes and begin blocks keep it, \<open>Chain\<close> makes them
    the transitions of a system (locale \<open>invariant_system\<close>) and gives the invariant of its
    reachable states. \<open>Scenario\<close> evaluates a short run on the reference implementation, which the
    instances of the properties use.
  \<^item> \<open>Lifecycle\<close>: every reachable state is solvent, the begin blocker never panics, the module's own
    invariants never break, terms are immutable, the number of rounds is bounded and the last round
    closes, and vesting releases exactly what is due. \<open>Liveness\<close>: every auction comes to an end, by an
    invariant of the queues of vesting auctions and a measure that each late begin block lowers.
  \<^item> \<open>Settling\<close>, \<open>Payoffs\<close>: the split of the proceeds, and what each bidder holds after a close.
  \<^item> \<open>Actions\<close>: effect and errors of the single messages. \<open>Frames\<close>: what a message or a block
    leaves alone, whatever its outcome, by the locales \<open>kept_core\<close>, \<open>kept\<close>,
    \<open>kept_by_messages\<close>, \<open>kept_by_all\<close>.
  \<^item> \<open>Pricing\<close>, \<open>Search\<close>: vesting schedules, reserve addresses, conversions, grouping, matching
    as a closed formula independent of the order of bids, the search for the price, its result and its
    logarithmic cost.
  \<^item> \<open>Encoding\<close>: the typed maps refine a byte store. \<open>RoundTrip\<close>: export and import.
    \<open>Queries\<close>, \<open>Commands\<close>: what queries return and who signs what the client builds.
    \<open>Simulated\<close>: the messages and genesis states of the simulation are good ones. \<open>GenAccounts\<close>:
    a genesis account is added once, with the address given but not with that of a key.
    \<open>AppState\<close>: the initial state backs the tokens that are not bonded.
  \<^item> \<open>Application\<close>: whatever the other modules do outside the reserves, the states of the application
    are reachable states of the module and its begin blocker runs once in each block, after the others.
    \<open>ZeroHeight\<close>: what a restart at height zero changes, by the locale \<open>map_field\<close> of loops that
    rewrite a map under the keys they visit. \<open>Daemon\<close>: a default reaches every flag of its name.

  \<^bold>\<open>Hypotheses.\<close> \<open>fundraising k pool\<close> collects the laws of the library, of the sort, of the bank
  and of the derived addresses, and that hooks do not change the state; it says nothing about the
  module. A reachable state starts from an empty store; a step is a valid message, a begin block at a
  later time, a call of another module, a change of parameters, or a change of the bank by others that
  takes nothing from a reserve. Bidders are named by the canonical text of their address (the library
  also decodes an upper-case one, under which the limit of a bidder is not found at the close) and
  counters stay below \<open>2 ^ 64\<close>. Amounts are unbounded integers: the bit limits of the library's
  numbers, beyond which it panics, are not modelled. \<open>application k pool M R\<close> adds that the module
  manager calls the modules in the given order, that the router finds registered routes only, and that
  the other modules keep to their own stores and take nothing from a reserve.

  \<^bold>\<open>Bounds.\<close> No definition uses fuel: every loop is a recursion over a list, and the binary search and
  the text of numbers terminate by a measure. Identifiers, counters, rounds and periods are words of
  their width, with the wrap-around of \<open>maxExtendedRound + 1\<close> and of the key offset as in the code.

  \<^bold>\<open>Not modelled.\<close> Generated protobuf code and the HTTP gateway (\<^verbatim>\<open>types/*.pb.go\<close>, \<^verbatim>\<open>*.pb.gw.go\<close>)
  beyond the message structures; the registration of types and services (\<^verbatim>\<open>types/codec.go\<close>, parts of
  \<^verbatim>\<open>module.go\<close>), the construction of the SDK's keepers and of the ante handler (\<^verbatim>\<open>src/app/app.go\<close>)
  and the lists of commands and options that \<^verbatim>\<open>src/cmd/root.go\<close> hands to the SDK, which are calls into the
  SDK; logging, telemetry, help texts, message texts and sign bytes; the test suites. The value encoding of
  store entries is the codec's: the byte store holds typed values under byte keys.
\<close>

end
